theory Spec2Isabelle
  imports Main "HOL-Library.AList" "HOL-Library.Sublist"
begin

section \<open>Configuration translation of doogie-cli\<close>

text \<open>
  A shallow embedding of the edit.conf translation code of doogie-cli
  (\<^verbatim>\<open>services/dosbox-settings.ts\<close>, \<^verbatim>\<open>data/mapper/option-dat.ts\<close>,
  \<^verbatim>\<open>data/mapper/template-loader.ts\<close>, \<^verbatim>\<open>data/mapper/defaults.ts\<close>).

  Conventions of the embedding.
  \<^item> A JavaScript string is a \<^typ>\<open>string\<close>, one \<^typ>\<open>char\<close> per code unit; the
    embedding therefore covers the strings whose code units are below 256.
  \<^item> A JavaScript number is \<open>NaN\<close> or \<open>Num n\<close>, the double whose value is the
    integer \<open>n\<close>: the numbers of this code all come from \<open>parseInt\<close> or from
    literals, so none has a fraction. \<open>Num (2 ^ 1024)\<close> and \<open>Num (- (2 ^ 1024))\<close>
    are written for the two infinities, whose place in the order they have and which
    no finite double equals; \<open>Num 0\<close> is written for both zeros, which the code
    tells apart nowhere. Where the source has excluded \<open>NaN\<close> the number is a plain
    \<^typ>\<open>int\<close>.
  \<^item> An object used as a dictionary is an association list of its own properties
    (\<^const>\<open>map_of\<close> reads it, \<^const>\<open>AList.update\<close> writes it: an existing key keeps
    its place, a new key goes last). Where the names are those of the tables below,
    this is also the order of \<open>Object.entries\<close>, and no read finds an inherited
    member: no name of the tables is a member of \<open>Object.prototype\<close> or has the
    form of an array index. The two places where a name chosen by the caller indexes
    an object, \<^verbatim>\<open>mergeSettings\<close> and \<^verbatim>\<open>getDefaultValue\<close>, are modelled with the
    inherited members and with the enumeration order of the language.
\<close>

subsection \<open>The string primitives the code uses\<close>

text \<open>\<open>WhiteSpace\<close> and \<open>LineTerminator\<close> of ECMAScript below code unit 256:
  TAB, LF, VT, FF, CR, SP, NBSP. Both \<open>String.prototype.trim\<close> and \<open>parseInt\<close>
  strip exactly these.\<close>

definition isWhiteSpace :: "char \<Rightarrow> bool" where
  "isWhiteSpace c \<longleftrightarrow>
     c \<in> set [CHR 0x09, CHR 0x0A, CHR 0x0B, CHR 0x0C, CHR 0x0D, CHR 0x20, CHR 0xA0]"

definition js_trimStart :: "string \<Rightarrow> string" where
  "js_trimStart s = dropWhile isWhiteSpace s"

definition js_trimEnd :: "string \<Rightarrow> string" where
  "js_trimEnd s = rev (dropWhile isWhiteSpace (rev s))"

definition js_trim :: "string \<Rightarrow> string" where
  "js_trim s = js_trimEnd (js_trimStart s)"

text \<open>\<open>s.split(sep)\<close> for a one-character separator: never the empty array,
  \<open>''.split(sep)\<close> is \<open>['']\<close>.\<close>

fun js_split :: "char \<Rightarrow> string \<Rightarrow> string list" where
  "js_split sep [] = [[]]"
| "js_split sep (c # cs) =
     (if c = sep then [] # js_split sep cs
      else (case js_split sep cs of
              [] \<Rightarrow> [[c]]
            | p # ps \<Rightarrow> (c # p) # ps))"

text \<open>\<open>parts.join(sep)\<close>.\<close>

fun js_join :: "string \<Rightarrow> string list \<Rightarrow> string" where
  "js_join sep [] = []"
| "js_join sep [p] = p"
| "js_join sep (p # q # ps) = p @ sep @ js_join sep (q # ps)"

text \<open>\<open>s.startsWith(p)\<close>, \<open>s.endsWith(p)\<close> and \<open>s.includes(p)\<close>.\<close>

definition startsWith :: "string \<Rightarrow> string \<Rightarrow> bool" where
  "startsWith s p \<longleftrightarrow> prefix p s"

definition endsWith :: "string \<Rightarrow> string \<Rightarrow> bool" where
  "endsWith s p \<longleftrightarrow> suffix p s"

definition js_includes :: "string \<Rightarrow> string \<Rightarrow> bool" where
  "js_includes s p \<longleftrightarrow> sublist p s"

text \<open>\<open>parseInt(s, 10)\<close>: leading white space is skipped, one sign is read, then
  the longest run of decimal digits; whatever follows is ignored. No digit gives
  \<open>NaN\<close>.\<close>

definition isDigit :: "char \<Rightarrow> bool" where
  "isDigit c \<longleftrightarrow> c \<in> set ''0123456789''"

definition digitVal :: "char \<Rightarrow> int" where
  "digitVal c = int (of_char c) - 48"

definition digitsVal :: "string \<Rightarrow> int" where
  "digitsVal ds = foldl (\<lambda>a c. 10 * a + digitVal c) 0 ds"

datatype number = NaN | Num int

text \<open>The Number value of a mathematical integer, as \<open>parseInt\<close> returns it: the
  nearest double, a tie going to the even significand of 53 bits; an integer below
  \<open>2^53\<close> in magnitude is its own value, and a magnitude that rounds to \<open>2^1024\<close> or
  more is the infinity. All digits count, as in JavaScriptCore and V8 (the language
  would also let an engine read the digits after the twentieth as zeros).\<close>

function bitLength :: "int \<Rightarrow> nat" where
  "bitLength n = (if n \<le> 0 then 0 else Suc (bitLength (n div 2)))"
  by pat_completeness auto
termination
  by (relation "measure nat") auto

declare bitLength.simps [simp del]

definition numberValue :: "int \<Rightarrow> int" where
  "numberValue n =
     (let a = \<bar>n\<bar>
      in if a < 2 ^ 53 then n
         else (let e = bitLength a - 53;
                   q = a div 2 ^ e;
                   r = a mod 2 ^ e;
                   q' = (if 2 ^ e < 2 * r \<or> (2 * r = 2 ^ e \<and> odd q) then q + 1 else q);
                   m = min (q' * 2 ^ e) (2 ^ 1024)
               in if n < 0 then - m else m))"

definition parseInt :: "string \<Rightarrow> number" where
  "parseInt s =
     (let t = dropWhile isWhiteSpace s;
          neg = startsWith t ''-'';
          u = (if startsWith t ''-'' \<or> startsWith t ''+'' then tl t else t);
          ds = takeWhile isDigit u
      in if ds = [] then NaN
         else Num (numberValue (if neg then - digitsVal ds else digitsVal ds)))"

text \<open>\<open>n || d\<close> for a number \<open>n\<close>: \<open>NaN\<close> and \<open>0\<close> are falsy.\<close>

definition orDefault :: "number \<Rightarrow> int \<Rightarrow> int" where
  "orDefault n d = (case n of NaN \<Rightarrow> d | Num k \<Rightarrow> if k = 0 then d else k)"

subsection \<open>Objects\<close>

text \<open>The names every ordinary object inherits from \<open>Object.prototype\<close>. All are
  functions but \<open>__proto__\<close>, an accessor whose getter returns \<open>Object.prototype\<close>
  itself and whose setter ignores a value that is not an object. A read \<open>obj[name]\<close>
  finds the own property first and the inherited member after it.\<close>

definition objectPrototypeMembers :: "string list" where
  "objectPrototypeMembers =
     [''constructor'', ''hasOwnProperty'', ''isPrototypeOf'', ''propertyIsEnumerable'',
      ''toLocaleString'', ''toString'', ''valueOf'', ''__defineGetter__'',
      ''__defineSetter__'', ''__lookupGetter__'', ''__lookupSetter__'', ''__proto__'']"

text \<open>\<open>obj[key] = v\<close> on an ordinary object, given the list of its own properties in
  the order of their creation: an own property is overwritten in place, a new one is
  created last; but the name \<open>__proto__\<close>, unless it is an own property, reaches the
  inherited setter, which does nothing with a string.\<close>

definition setProperty :: "string \<Rightarrow> string \<Rightarrow> (string \<times> string) list \<Rightarrow> (string \<times> string) list" where
  "setProperty key v kvs =
     (if key = ''__proto__'' \<and> map_of kvs key = None then kvs else AList.update key v kvs)"

text \<open>\<open>Object.entries(obj)\<close>, and the order in which \<open>JSON.stringify\<close> writes the
  properties, from the own properties in the order of their creation: first the
  array indices (the decimal numerals below \<open>2^32 - 1\<close> without a leading zero) in
  ascending order, then the other names in the order of their creation.\<close>

definition isArrayIndex :: "string \<Rightarrow> bool" where
  "isArrayIndex s \<longleftrightarrow>
     s \<noteq> [] \<and> list_all isDigit s \<and> (hd s \<noteq> CHR ''0'' \<or> length s = 1)
     \<and> digitsVal s < 2 ^ 32 - 1"

definition ownEntries :: "(string \<times> 'a) list \<Rightarrow> (string \<times> 'a) list" where
  "ownEntries ps =
     sort_key (\<lambda>p. digitsVal (fst p)) (filter (\<lambda>p. isArrayIndex (fst p)) ps)
     @ filter (\<lambda>p. \<not> isArrayIndex (fst p)) ps"

subsection \<open>The schema registry\<close>

text \<open>The tables of \<^verbatim>\<open>services/dosbox-settings.ts\<close>. \<open>Record<number, string>\<close> is
  an association list from the index to the name.\<close>

definition SECTION_INDEX :: "(int \<times> string) list" where
  "SECTION_INDEX = [
   (0, ''default''),
   (1, ''win9x''),
   (2, ''pcem''),
   (3, ''separator''),
   (4, ''log''),
   (5, ''sdl''),
   (6, ''dos''),
   (7, ''dosbox''),
   (8, ''cpu''),
   (9, ''render''),
   (10, ''mixer''),
   (11, ''sblaster''),
   (12, ''midi''),
   (13, ''gus''),
   (14, ''speaker''),
   (15, ''innova''),
   (16, ''joystick''),
   (17, ''serial''),
   (18, ''printer''),
   (19, ''parallel''),
   (20, ''glide''),
   (21, ''voodoo''),
   (22, ''pci''),
   (23, ''vsync''),
   (24, ''keyboard''),
   (25, ''ne2000''),
   (26, ''fdc, primary''),
   (27, ''ide, primary''),
   (28, ''ide, secondary''),
   (29, ''ide, tertiary''),
   (30, ''ide, quaternary''),
   (31, ''mapper''),
   (32, ''ethernet, pcap''),
   (33, ''ethernet, slirp''),
   (34, ''fluidsynth''),
   (35, ''video''),
   (36, ''pc98''),
   (37, ''ttf''),
   (38, ''config''),
   (39, ''dosv'')]"

definition SECTION_ITEMS :: "(int \<times> (int \<times> string) list) list" where
  "SECTION_ITEMS = [
   (0, [
      (0, ''version''),
      (1, ''DirectX''),
      (2, ''Menu''),
      (3, ''SavePath''),
      (4, ''SetAspect'')]),
   (1, [
      (0, ''9xdrv''),
      (1, ''9xres''),
      (2, ''9xddraw''),
      (3, ''9xd3d''),
      (4, ''9x3dfx''),
      (5, ''9xmpu''),
      (6, ''9xmaster''),
      (7, ''9xwave''),
      (8, ''9xmidi''),
      (9, ''9xcd''),
      (10, ''9xboot'')]),
   (5, [
      (0, ''fullscreen''),
      (1, ''fulldouble''),
      (2, ''fullresolution''),
      (3, ''windowresolution''),
      (4, ''output''),
      (5, ''autolock''),
      (6, ''sensitivity''),
      (7, ''waitonerror''),
      (8, ''priority''),
      (9, ''mapperfile''),
      (10, ''usescancodes''),
      (11, ''overscan''),
      (12, ''pixelshader''),
      (13, ''autolock_feedback''),
      (14, ''mouse_emulation'')]),
   (6, [
      (0, ''xms''),
      (1, ''ems''),
      (2, ''umb''),
      (3, ''keyboardlayout''),
      (4, ''enable a20 on windows init''),
      (17, ''int 13 extensions'')]),
   (7, [
      (0, ''language''),
      (1, ''machine''),
      (2, ''captures''),
      (3, ''memsize''),
      (4, ''vmemsize''),
      (5, ''vmemsizekb''),
      (58, ''enable pci bus'')]),
   (8, [
      (0, ''core''),
      (1, ''cputype''),
      (2, ''cycles''),
      (3, ''cycleup''),
      (4, ''cycledown''),
      (5, ''isapnpbios''),
      (11, ''apmbios'')]),
   (9, [
      (0, ''frameskip''),
      (1, ''aspect''),
      (2, ''scaler'')]),
   (10, [
      (0, ''nosound''),
      (1, ''rate''),
      (2, ''blocksize''),
      (3, ''prebuffer'')]),
   (11, [
      (0, ''sbtype''),
      (1, ''sbbase''),
      (2, ''irq''),
      (3, ''dma''),
      (4, ''hdma''),
      (5, ''sbmixer''),
      (6, ''oplmode''),
      (7, ''oplemu''),
      (8, ''oplrate'')]),
   (12, [
      (0, ''mpu401''),
      (1, ''mididevice''),
      (2, ''midiconfig'')]),
   (13, [
      (0, ''gus''),
      (1, ''gusrate''),
      (2, ''gusbase''),
      (3, ''gusirq''),
      (4, ''gusdma'')]),
   (14, [
      (0, ''pcspeaker''),
      (1, ''pcrate''),
      (2, ''tandy''),
      (3, ''tandyrate''),
      (4, ''disney'')]),
   (16, [
      (0, ''joysticktype''),
      (1, ''timed''),
      (2, ''autofire''),
      (3, ''swap34''),
      (4, ''buttonwrap'')]),
   (20, [
      (0, ''glide''),
      (1, ''lfb''),
      (2, ''splash'')]),
   (21, [
      (0, ''voodoo''),
      (1, ''voodoomem'')]),
   (22, [
      (0, ''voodoo''),
      (1, ''voodoomem'')]),
   (27, [
      (0, ''enable''),
      (1, ''pnp''),
      (2, ''irq''),
      (3, ''io''),
      (4, ''altio''),
      (5, ''int13fakeio''),
      (6, ''int13fakev86io''),
      (7, ''enable pio32''),
      (8, ''ignore pio32''),
      (9, ''cd-rom spinup time''),
      (10, ''cd-rom spindown timeout''),
      (11, ''cd-rom insertion delay'')]),
   (28, [
      (0, ''enable''),
      (1, ''pnp''),
      (2, ''irq''),
      (3, ''io''),
      (4, ''altio''),
      (5, ''int13fakeio''),
      (6, ''int13fakev86io''),
      (7, ''enable pio32''),
      (8, ''ignore pio32''),
      (9, ''cd-rom spinup time''),
      (10, ''cd-rom spindown timeout''),
      (11, ''cd-rom insertion delay'')])]"

definition SECTION_INDEX_LEGACY :: "(int \<times> string) list" where
  "SECTION_INDEX_LEGACY = [
   (0, ''default''),
   (1, ''win9x''),
   (2, ''pcem''),
   (3, ''dosbox''),
   (6, ''cpu''),
   (19, ''glide''),
   (21, ''voodoo''),
   (32, ''ethernet, pcap'')]"

definition SECTION_ITEMS_LEGACY :: "(int \<times> (int \<times> string) list) list" where
  "SECTION_ITEMS_LEGACY = [
   (0, [
      (0, ''version'')]),
   (1, [
      (0, ''9xdrv''),
      (1, ''9xres''),
      (2, ''9xddraw''),
      (3, ''9xd3d''),
      (4, ''9x3dfx''),
      (5, ''9xmpu''),
      (6, ''9xmaster''),
      (7, ''9xwave''),
      (8, ''9xmidi''),
      (9, ''9xcd''),
      (10, ''9xboot'')]),
   (3, [
      (1, ''machine''),
      (3, ''memsize''),
      (4, ''vmemsize'')]),
   (6, [
      (0, ''core''),
      (1, ''cputype''),
      (2, ''cycles''),
      (5, ''isapnpbios''),
      (11, ''apmbios'')]),
   (19, [
      (0, ''mouse_emulation'')]),
   (21, [
      (1, ''9xres'')]),
   (32, [
      (11, ''cd-rom insertion delay'')])]"

text \<open>A later revision of the same module takes the current tables from
  \<^verbatim>\<open>option-dat.ts\<close> (\<open>SECTION_INDEX = SECTION_NAMES\<close>,
  \<open>SECTION_ITEMS = OPTION_DAT_SECTION_ITEMS\<close>) and drops section 21 from the legacy
  tables. Its legacy tables carry the suffix \<open>_2\<close> here.\<close>

definition SECTION_NAMES :: "(int \<times> string) list" where
  "SECTION_NAMES = [
   (0, ''default''),
   (1, ''win9x''),
   (2, ''pcem''),
   (3, ''separator''),
   (4, ''log''),
   (5, ''sdl''),
   (6, ''dos''),
   (7, ''dosbox''),
   (8, ''cpu''),
   (9, ''render''),
   (10, ''mixer''),
   (11, ''sblaster''),
   (12, ''midi''),
   (13, ''gus''),
   (14, ''speaker''),
   (15, ''innova''),
   (16, ''joystick''),
   (17, ''serial''),
   (18, ''printer''),
   (19, ''parallel''),
   (20, ''glide''),
   (21, ''voodoo''),
   (22, ''pci''),
   (23, ''vsync''),
   (24, ''keyboard''),
   (25, ''ne2000''),
   (26, ''fdc, primary''),
   (27, ''ide, primary''),
   (28, ''ide, secondary''),
   (29, ''ide, tertiary''),
   (30, ''ide, quaternary''),
   (31, ''mapper''),
   (32, ''ethernet, pcap''),
   (33, ''ethernet, slirp''),
   (34, ''fluidsynth''),
   (35, ''video''),
   (36, ''pc98''),
   (37, ''ttf''),
   (38, ''config''),
   (39, ''dosv'')]"

definition OPTION_DAT_SECTION_ITEMS :: "(int \<times> (int \<times> string) list) list" where
  "OPTION_DAT_SECTION_ITEMS = [
   (0, [
      (0, ''version''),
      (1, ''DirectX''),
      (2, ''Menu''),
      (3, ''SavePath''),
      (4, ''SetAspect'')]),
   (1, [
      (0, ''9xdrv''),
      (1, ''9xres''),
      (2, ''9xddraw''),
      (3, ''9xd3d''),
      (4, ''9x3dfx''),
      (5, ''9xmpu''),
      (6, ''9xmaster''),
      (7, ''9xwave''),
      (8, ''9xmidi''),
      (9, ''9xcd''),
      (10, ''9xboot'')]),
   (2, [
      (0, ''PCem_Machine''),
      (1, ''PCem_CPU''),
      (2, ''PCem_Video_Speed''),
      (3, ''PCem_Voodoo''),
      (4, ''PCem_Voodoo_Type'')]),
   (4, [
      (0, ''log''),
      (1, ''logfile''),
      (2, ''debuggerrun''),
      (3, ''vga''),
      (4, ''vgagfx''),
      (5, ''vgamisc''),
      (6, ''int10''),
      (7, ''sblaster''),
      (8, ''dma_control''),
      (9, ''fpu''),
      (10, ''cpu''),
      (11, ''paging''),
      (12, ''fcb''),
      (13, ''files''),
      (14, ''ioctl''),
      (15, ''exec''),
      (16, ''dosmisc''),
      (17, ''pit''),
      (18, ''keyboard''),
      (19, ''pic''),
      (20, ''mouse''),
      (21, ''bios''),
      (22, ''gui''),
      (23, ''misc''),
      (24, ''io''),
      (25, ''pci''),
      (26, ''sst'')]),
   (5, [
      (0, ''fullscreen''),
      (1, ''fulldouble''),
      (2, ''fullresolution''),
      (3, ''windowresolution''),
      (4, ''output''),
      (5, ''autolock''),
      (6, ''sensitivity''),
      (7, ''waitonerror''),
      (8, ''priority''),
      (9, ''mapperfile''),
      (10, ''usescancodes''),
      (11, ''overscan''),
      (12, ''pixelshader''),
      (13, ''autolock_feedback''),
      (14, ''mouse_emulation''),
      (15, ''clip_mouse_button''),
      (16, ''clip_key_modifier''),
      (17, ''clip_paste_speed''),
      (18, ''mouse_wheel_key''),
      (19, ''display''),
      (20, ''videodriver''),
      (21, ''transparency''),
      (22, ''maximize''),
      (23, ''middle_unlock''),
      (24, ''clip_paste_bios''),
      (25, ''usesystemcursor''),
      (26, ''showbasic''),
      (27, ''showdetails''),
      (28, ''texture_renderer''),
      (29, ''capture_mouse''),
      (30, ''raw_mouse_input''),
      (31, ''screensaver''),
      (32, ''windowposition''),
      (33, ''showmenu'')]),
   (6, [
      (0, ''xms''),
      (1, ''ems''),
      (2, ''umb''),
      (3, ''keyboardlayout''),
      (4, ''enable a20 on windows init''),
      (5, ''zero memory on xms memory allocation''),
      (6, ''zero memory on ems memory allocation''),
      (7, ''ems system handle memory size''),
      (8, ''umb start''),
      (9, ''umb end''),
      (10, ''kernel allocation in umb''),
      (11, ''dynamic kernel allocation''),
      (12, ''keep umb on boot''),
      (13, ''keep private area on boot''),
      (14, ''private area in umb''),
      (15, ''automount''),
      (16, ''int33''),
      (17, ''int 13 extensions''),
      (18, ''biosps2''),
      (19, ''int15 mouse callback does not preserve registers''),
      (20, ''dbcs''),
      (21, ''filenamechar''),
      (22, ''collating and uppercase''),
      (23, ''files''),
      (24, ''con device use int 16h to detect keyboard input''),
      (25, ''zero memory on int 21h memory allocation''),
      (26, ''hma''),
      (27, ''hma allow reservation''),
      (28, ''hma minimum allocation''),
      (29, ''log console''),
      (30, ''dos in hma''),
      (31, ''hma free space''),
      (32, ''cpm compatibility mode''),
      (33, ''share''),
      (34, ''write plain iretf for debug interrupts''),
      (35, ''minimum dos initial private segment''),
      (36, ''minimum mcb segment''),
      (37, ''enable dummy device mcb''),
      (38, ''maximum environment block size on exec''),
      (39, ''additional environment block size on exec''),
      (40, ''dosv''),
      (41, ''vcpi''),
      (42, ''unmask timer on disk io''),
      (43, ''zero int 67h if no ems''),
      (44, ''emm386 startup active''),
      (45, ''ems system handle on even megabyte''),
      (46, ''ver''),
      (47, ''int15 wait force unmask irq''),
      (48, ''hard drive data rate limit''),
      (49, ''dos sda size''),
      (50, ''minimum mcb free''),
      (51, ''xms handles''),
      (52, ''shell configuration as commands''),
      (53, ''int33 disable cell granularity''),
      (54, ''int33 hide host cursor if interrupt subroutine''),
      (55, ''int33 hide host cursor when polling''),
      (56, ''ansi.sys''),
      (57, ''quick reboot''),
      (58, ''lfn''),
      (59, ''automountall''),
      (60, ''mountwarning''),
      (61, ''autofixwarning''),
      (62, ''startcmd''),
      (63, ''startwait''),
      (64, ''startquiet''),
      (65, ''dos clipboard device enable''),
      (66, ''dos clipboard device name''),
      (67, ''dos clipboard api''),
      (68, ''floppy drive data rate limit''),
      (69, ''file access tries''),
      (70, ''network redirector''),
      (71, ''fat32setversion''),
      (72, ''shellhigh''),
      (73, ''starttranspath''),
      (74, ''vmware''),
      (75, ''customcodepage'')]),
   (7, [
      (0, ''language''),
      (1, ''machine''),
      (2, ''captures''),
      (3, ''memsize''),
      (4, ''vmemsize''),
      (5, ''vmemsizekb''),
      (6, ''cgasnow''),
      (7, ''forcerate''),
      (8, ''mainline compatible mapping''),
      (9, ''mainline compatible bios mapping''),
      (10, ''adapter rom is ram''),
      (11, ''shell environment size''),
      (12, ''private area size''),
      (13, ''a20''),
      (14, ''isa bus clock''),
      (15, ''pci bus clock''),
      (16, ''rom bios allocation max''),
      (17, ''rom bios minimum size''),
      (18, ''memsizekb''),
      (19, ''dos mem limit''),
      (20, ''isa memory hole at 512kb''),
      (21, ''memalias''),
      (22, ''vga bios size override''),
      (23, ''video bios dont duplicate cga first half rom font''),
      (24, ''video bios always offer 14-pixel high rom font''),
      (25, ''video bios always offer 16-pixel high rom font''),
      (26, ''video bios enable cga second half rom font''),
      (27, ''sierra ramdac''),
      (28, ''sierra ramdac lock 565''),
      (29, ''page flip debug line''),
      (30, ''vertical retrace poll debug line''),
      (31, ''allow port 92 reset''),
      (32, ''enable port 92''),
      (33, ''enable 1st dma controller''),
      (34, ''enable 2nd dma controller''),
      (35, ''allow dma address decrement''),
      (36, ''enable dma extra page registers''),
      (37, ''dma page registers write-only''),
      (38, ''enable slave pic''),
      (39, ''enable pc nmi mask''),
      (40, ''rom bios 8x8 CGA font''),
      (41, ''rom bios video parameter table''),
      (42, ''allow more than 640kb base memory''),
      (43, ''vesa lfb base scanline adjust''),
      (44, ''allow hpel effects''),
      (45, ''allow hretrace effects''),
      (46, ''hretrace effect weight''),
      (47, ''vesa vbe 1.2 modes are 32bpp''),
      (48, ''allow low resolution vesa modes''),
      (49, ''allow 32bpp vesa modes''),
      (50, ''allow 24bpp vesa modes''),
      (51, ''allow 16bpp vesa modes''),
      (52, ''allow 15bpp vesa modes''),
      (53, ''allow 8bpp vesa modes''),
      (54, ''allow 4bpp vesa modes''),
      (55, ''allow tty vesa modes''),
      (56, ''enable vga resize delay''),
      (57, ''resize only on vga active display width increase''),
      (58, ''enable pci bus'')]),
   (8, [
      (0, ''core''),
      (1, ''cputype''),
      (2, ''cycles''),
      (3, ''cycleup''),
      (4, ''cycledown''),
      (5, ''isapnpbios''),
      (6, ''enable msr''),
      (7, ''ignore undefined msr''),
      (8, ''dynamic core cache block size''),
      (9, ''non-recursive page fault''),
      (10, ''ignore opcode 63''),
      (11, ''apmbios''),
      (12, ''apmbios allow realmode''),
      (13, ''apmbios allow 16-bit protected mode''),
      (14, ''apmbios allow 32-bit protected mode''),
      (15, ''integration device''),
      (16, ''realbig16''),
      (17, ''fpu''),
      (18, ''segment limits''),
      (19, ''double fault''),
      (20, ''reset on triple fault''),
      (21, ''always report double fault''),
      (22, ''always report triple fault''),
      (23, ''enable cmpxchg8b''),
      (24, ''interruptible rep string op''),
      (25, ''apmbios pnp''),
      (26, ''apmbios version''),
      (27, ''integration device pnp''),
      (28, ''use dynamic core with paging on''),
      (29, ''turbo'')]),
   (9, [
      (0, ''frameskip''),
      (1, ''aspect''),
      (2, ''scaler''),
      (3, ''linewise''),
      (4, ''char9''),
      (5, ''multiscan''),
      (6, ''doublescan''),
      (7, ''autofit''),
      (8, ''xbrz slice''),
      (9, ''xbrz fixed scale factor''),
      (10, ''xbrz max scale factor''),
      (11, ''alt render''),
      (12, ''glshader''),
      (13, ''euro''),
      (14, ''monochrome_pal''),
      (15, ''aspect_ratio''),
      (16, ''monochrome_palette'')]),
   (10, [
      (0, ''nosound''),
      (1, ''rate''),
      (2, ''blocksize''),
      (3, ''prebuffer''),
      (4, ''swapstereo''),
      (5, ''MASTER''),
      (6, ''SPKR''),
      (7, ''GUS''),
      (8, ''SB''),
      (9, ''FM''),
      (10, ''MT32''),
      (11, ''sample accurate''),
      (12, ''CDAUDIO'')]),
   (11, [
      (0, ''sbtype''),
      (1, ''sbbase''),
      (2, ''irq''),
      (3, ''dma''),
      (4, ''hdma''),
      (5, ''sbmixer''),
      (6, ''oplmode''),
      (7, ''oplemu''),
      (8, ''oplrate''),
      (9, ''hardwarebase''),
      (10, ''goldplay''),
      (11, ''adlib force timer overflow on detect''),
      (12, ''force dsp auto-init''),
      (13, ''force goldplay''),
      (14, ''goldplay stereo''),
      (15, ''dsp require interrupt acknowledge''),
      (16, ''dsp write busy delay''),
      (17, ''blaster environment variable''),
      (18, ''sample rate limits''),
      (19, ''instant direct dac''),
      (20, ''stereo control with sbpro only''),
      (21, ''dsp busy cycle rate''),
      (22, ''dsp busy cycle duty''),
      (23, ''io port aliasing''),
      (24, ''mindma''),
      (25, ''irq hack''),
      (26, ''pic unmask irq''),
      (27, ''enable speaker''),
      (28, ''enable asp''),
      (29, ''disable filtering''),
      (30, ''dsp write buffer status must return 0x7f or 0xff''),
      (31, ''pre-set sbpro stereo''),
      (32, ''dsp busy cycle always''),
      (33, ''oplport''),
      (34, ''retrowave_bus''),
      (35, ''retrowave_port''),
      (36, ''fmstrength'')]),
   (12, [
      (0, ''mpu401''),
      (1, ''mididevice''),
      (2, ''midiconfig''),
      (3, ''mt32.reverse.stereo''),
      (4, ''mt32.verbose''),
      (5, ''mt32.thread''),
      (6, ''mt32.dac''),
      (7, ''mt32.reverb.mode''),
      (8, ''mt32.reverb.time''),
      (9, ''mt32.reverb.level''),
      (10, ''mt32.partials''),
      (11, ''mpuirq''),
      (12, ''samplerate''),
      (13, ''mt32.romdir''),
      (14, ''mt32.reverb.output.gain''),
      (15, ''mt32.chunk''),
      (16, ''mt32.prebuffer''),
      (17, ''mt32.analog''),
      (18, ''mt32.output.gain''),
      (19, ''mt32.src.quality''),
      (20, ''mt32.niceampramp''),
      (21, ''fluid.driver''),
      (22, ''fluid.soundfont'')]),
   (13, [
      (0, ''gus''),
      (1, ''gusrate''),
      (2, ''gusbase''),
      (3, ''gusirq''),
      (4, ''gusdma''),
      (5, ''gusmemsize''),
      (6, ''gus master volume''),
      (7, ''gustype''),
      (8, ''ultradir'')]),
   (14, [
      (0, ''pcspeaker''),
      (1, ''pcrate''),
      (2, ''tandy''),
      (3, ''tandyrate''),
      (4, ''disney''),
      (5, ''ps1audio''),
      (6, ''ps1audiorate'')]),
   (15, [
      (0, ''innova''),
      (1, ''samplerate''),
      (2, ''sidbase''),
      (3, ''quality'')]),
   (16, [
      (0, ''joysticktype''),
      (1, ''timed''),
      (2, ''autofire''),
      (3, ''swap34''),
      (4, ''buttonwrap'')]),
   (17, [
      (0, ''serial1''),
      (1, ''serial2''),
      (2, ''serial3''),
      (3, ''serial4'')]),
   (18, [
      (0, ''printer''),
      (1, ''dpi''),
      (2, ''width''),
      (3, ''height''),
      (4, ''printoutput''),
      (5, ''multipage''),
      (6, ''docpath''),
      (7, ''timeout'')]),
   (19, [
      (0, ''parallel1''),
      (1, ''parallel2''),
      (2, ''parallel3''),
      (3, ''dongle'')]),
   (20, [
      (0, ''glide''),
      (1, ''lfb''),
      (2, ''splash''),
      (3, ''grport'')]),
   (21, [
      (0, ''voodoo''),
      (1, ''voodoo_card''),
      (2, ''voodoo_maxmem''),
      (3, ''glide''),
      (4, ''lfb''),
      (5, ''splash'')]),
   (22, [
      (0, ''voodoo''),
      (1, ''voodoomem'')]),
   (23, [
      (0, ''vsyncmode''),
      (1, ''vsyncrate'')]),
   (24, [
      (0, ''aux''),
      (1, ''allow output port reset''),
      (2, ''controllertype''),
      (3, ''auxdevice'')]),
   (25, [
      (0, ''ne2000''),
      (1, ''nicbase''),
      (2, ''nicirq''),
      (3, ''macaddr''),
      (4, ''backend'')]),
   (26, [
      (0, ''enable''),
      (1, ''pnp''),
      (2, ''mode'')]),
   (27, [
      (0, ''enable''),
      (1, ''pnp''),
      (2, ''irq''),
      (3, ''io''),
      (4, ''altio''),
      (5, ''int13fakeio''),
      (6, ''int13fakev86io''),
      (7, ''enable pio32''),
      (8, ''ignore pio32''),
      (9, ''cd-rom spinup time''),
      (10, ''cd-rom spindown timeout''),
      (11, ''cd-rom insertion delay'')]),
   (28, [
      (0, ''enable''),
      (1, ''pnp''),
      (2, ''irq''),
      (3, ''io''),
      (4, ''altio''),
      (5, ''int13fakeio''),
      (6, ''int13fakev86io''),
      (7, ''enable pio32''),
      (8, ''ignore pio32''),
      (9, ''cd-rom spinup time''),
      (10, ''cd-rom spindown timeout''),
      (11, ''cd-rom insertion delay'')]),
   (29, [
      (0, ''enable''),
      (1, ''pnp'')]),
   (30, [
      (0, ''enable''),
      (1, ''pnp'')]),
   (31, []),
   (35, [
      (0, ''vmemsize''),
      (1, ''vmemsizekb''),
      (2, ''high intensity blinking'')]),
   (38, [
      (0, ''rem''),
      (1, ''break''),
      (2, ''numlock''),
      (3, ''shell''),
      (4, ''dos''),
      (5, ''fcbs''),
      (6, ''files''),
      (7, ''country''),
      (8, ''lastdrive'')])]"

definition SECTION_INDEX_LEGACY_2 :: "(int \<times> string) list" where
  "SECTION_INDEX_LEGACY_2 = [
   (0, ''default''),
   (1, ''win9x''),
   (2, ''pcem''),
   (3, ''dosbox''),
   (6, ''cpu''),
   (19, ''glide''),
   (32, ''ide, secondary'')]"

definition SECTION_ITEMS_LEGACY_2 :: "(int \<times> (int \<times> string) list) list" where
  "SECTION_ITEMS_LEGACY_2 = [
   (0, [
      (0, ''version'')]),
   (1, [
      (0, ''9xdrv''),
      (1, ''9xres''),
      (2, ''9xddraw''),
      (3, ''9xd3d''),
      (4, ''9x3dfx''),
      (5, ''9xmpu''),
      (6, ''9xmaster''),
      (7, ''9xwave''),
      (8, ''9xmidi''),
      (9, ''9xcd''),
      (10, ''9xboot'')]),
   (3, [
      (1, ''machine''),
      (3, ''memsize''),
      (4, ''vmemsize'')]),
   (6, [
      (0, ''core''),
      (1, ''cputype''),
      (2, ''cycles''),
      (5, ''isapnpbios''),
      (11, ''apmbios'')]),
   (19, [
      (0, ''glide'')]),
   (32, [
      (11, ''cd-rom insertion delay'')])]"

text \<open>The body of \<^verbatim>\<open>getKeyForEditConfEntry\<close> of \<^verbatim>\<open>option-dat.ts\<close>, for a given
  pair of tables. A name that is the empty string is falsy in the source and gives
  \<open>null\<close> as a missing one does.\<close>

definition lookupKey ::
  "(int \<times> string) list \<Rightarrow> (int \<times> (int \<times> string) list) list \<Rightarrow>
     int \<Rightarrow> int \<Rightarrow> (string \<times> string) option" where
  "lookupKey sectionNames sectionItems sect itm =
     (case map_of sectionNames sect of
        None \<Rightarrow> None
      | Some sectionName \<Rightarrow>
          if sectionName = [] then None
          else (case map_of sectionItems sect of
                  None \<Rightarrow> None
                | Some items \<Rightarrow>
                    (case map_of items itm of
                       None \<Rightarrow> None
                     | Some keyName \<Rightarrow>
                         if keyName = [] then None else Some (sectionName, keyName))))"

definition getKeyForEditConfEntry :: "int \<Rightarrow> int \<Rightarrow> (string \<times> string) option" where
  "getKeyForEditConfEntry sect itm = lookupKey SECTION_NAMES OPTION_DAT_SECTION_ITEMS sect itm"

subsection \<open>The entry parser\<close>

record EditConfEntry =
  e_section :: int
  e_item :: int
  e_value :: string

text \<open>\<^verbatim>\<open>parseEditConfVersion\<close>: the first line that starts with \<open>ver.\<close> after
  trimming decides; \<open>slice(4)\<close> drops the prefix and \<open>replace(/\./g, '')\<close> the dots.\<close>

fun versionOfLines :: "string list \<Rightarrow> int" where
  "versionOfLines [] = 0"
| "versionOfLines (line # rest) =
     (let trimmed = js_trim line
      in if startsWith trimmed ''ver.''
         then (case parseInt (filter (\<lambda>c. c \<noteq> CHR ''.'') (drop 4 trimmed)) of
                 NaN \<Rightarrow> 0
               | Num version \<Rightarrow> version)
         else versionOfLines rest)"

definition parseEditConfVersion :: "string \<Rightarrow> int" where
  "parseEditConfVersion content = versionOfLines (js_split CHR 0x0A content)"

definition isLegacyVersion :: "int \<Rightarrow> bool" where
  "isLegacyVersion version \<longleftrightarrow> version < 220000"

text \<open>The form \<open>ver.YY.MM.DD\<close> that the specification and the comment of the
  source give for the marker: \<open>ver.\<close> and three groups of two digits separated by
  dots. It is the form the documents name, not a test the code makes.\<close>

definition specVersionForm :: "string \<Rightarrow> bool" where
  "specVersionForm s \<longleftrightarrow>
     length s = 12 \<and> take 4 s = ''ver.''
     \<and> list_all isDigit (take 2 (drop 4 s)) \<and> take 1 (drop 6 s) = ''.''
     \<and> list_all isDigit (take 2 (drop 7 s)) \<and> take 1 (drop 9 s) = ''.''
     \<and> list_all isDigit (drop 10 s)"

text \<open>\<^verbatim>\<open>parseEditConf\<close>: the body of the loop for one line, then the loop.\<close>

definition parseEditConfLine :: "string \<Rightarrow> EditConfEntry option" where
  "parseEditConfLine line =
     (let trimmed = js_trim line
      in if startsWith trimmed ''ver.'' \<or> trimmed = [] then None
         else (let parts = js_split CHR ''|'' trimmed
               in if length parts \<ge> 3
                  then (case (parseInt (parts ! 0), parseInt (parts ! 1)) of
                          (Num sect, Num itm) \<Rightarrow>
                            Some \<lparr>e_section = sect, e_item = itm,
                                  e_value = js_join ''|'' (drop 2 parts)\<rparr>
                        | _ \<Rightarrow> None)
                  else None))"

definition parseEditConf :: "string \<Rightarrow> EditConfEntry list" where
  "parseEditConf content = List.map_filter parseEditConfLine (js_split CHR 0x0A content)"

subsection \<open>The settings resolver\<close>

text \<open>\<open>DosboxSettings\<close>: section name to (key to value), both in insertion order.\<close>

type_synonym DosboxSettings = "(string \<times> (string \<times> string) list) list"

text \<open>One turn of the loop of \<^verbatim>\<open>convertEditConfToSettings\<close>, for the chosen pair
  of tables. \<open>!sectionName\<close> and \<open>!keyName\<close> hold for a missing name and for the
  empty one, \<open>!itemsMap\<close> for a missing object only.\<close>

definition convertEntry ::
  "(int \<times> string) list \<Rightarrow> (int \<times> (int \<times> string) list) list \<Rightarrow>
     DosboxSettings \<Rightarrow> EditConfEntry \<Rightarrow> DosboxSettings" where
  "convertEntry sectionIndex sectionItems settings entry =
     (case (map_of sectionIndex (e_section entry), map_of sectionItems (e_section entry)) of
        (Some sectionName, Some itemsMap) \<Rightarrow>
          if sectionName = [] then settings
          else (case map_of itemsMap (e_item entry) of
                  None \<Rightarrow> settings
                | Some keyName \<Rightarrow>
                    if keyName = [] then settings
                    else (let items = (case map_of settings sectionName of
                                         None \<Rightarrow> []
                                       | Some its \<Rightarrow> its)
                          in AList.update sectionName
                               (AList.update keyName (e_value entry) items) settings))
      | _ \<Rightarrow> settings)"

definition convertEditConfToSettings :: "EditConfEntry list \<Rightarrow> bool \<Rightarrow> DosboxSettings" where
  "convertEditConfToSettings entries isLegacy =
     foldl (convertEntry (if isLegacy then SECTION_INDEX_LEGACY else SECTION_INDEX)
                         (if isLegacy then SECTION_ITEMS_LEGACY else SECTION_ITEMS))
           [] entries"

text \<open>The same function in the later revision, over its own tables.\<close>

definition convertEditConfToSettings_2 :: "EditConfEntry list \<Rightarrow> bool \<Rightarrow> DosboxSettings" where
  "convertEditConfToSettings_2 entries isLegacy =
     foldl (convertEntry (if isLegacy then SECTION_INDEX_LEGACY_2 else SECTION_NAMES)
                         (if isLegacy then SECTION_ITEMS_LEGACY_2 else OPTION_DAT_SECTION_ITEMS))
           [] entries"

subsection \<open>The Win9x extension resolver\<close>

record Resolution =
  width :: number
  height :: int
  bitsPerPixel :: number

datatype MidiDriver = SBFM | MPU401

record Volumes =
  master :: int
  wave :: int
  midi :: int
  cd :: int

record Win9xSettings =
  resolution :: Resolution
  ddraw :: bool
  d3d :: bool
  threeDfx :: bool
  midiDriver :: MidiDriver
  volumes :: Volumes

text \<open>\<open>value.match(/(\d+)x(\d+)/)\<close>: the leftmost place where a run of digits, an
  \<open>x\<close> and a digit follow each other; both groups are greedy. The result is the
  pair of captured groups.\<close>

fun match9xRes :: "string \<Rightarrow> (string \<times> string) option" where
  "match9xRes [] = None"
| "match9xRes (c # cs) =
     (let g1 = takeWhile isDigit (c # cs);
          r = dropWhile isDigit (c # cs);
          g2 = takeWhile isDigit (drop 1 r)
      in if g1 \<noteq> [] \<and> startsWith r ''x'' \<and> g2 \<noteq> [] then Some (g1, g2)
         else match9xRes cs)"

definition heightMap :: "(int \<times> int) list" where
  "heightMap = [(640, 480), (800, 600), (1024, 768), (1152, 864), (1280, 960), (1600, 1200)]"

definition defaultResolution :: Resolution where
  "defaultResolution = \<lparr>width = Num 640, height = 480, bitsPerPixel = Num 8\<rparr>"

definition parse9xResolution :: "string \<Rightarrow> Resolution" where
  "parse9xResolution v =
     (case match9xRes v of
        None \<Rightarrow> defaultResolution
      | Some (g1, g2) \<Rightarrow>
          if g1 = [] \<or> g2 = [] then defaultResolution
          else (let w = parseInt g1;
                    bpp = parseInt g2;
                    h = (case w of
                           NaN \<Rightarrow> 480
                         | Num n \<Rightarrow> (case map_of heightMap n of
                                        None \<Rightarrow> 480
                                      | Some k \<Rightarrow> if k = 0 then 480 else k))
                in \<lparr>width = w, height = h, bitsPerPixel = bpp\<rparr>))"

text \<open>The form \<open>{width}x{bitsPerPixel}\<close> that the specification gives for the
  resolution string, read of the whole string: a run of digits, an \<open>x\<close>, a run of
  digits, and nothing before or after. It is the specification's, not the code's,
  which searches the string for the pattern.\<close>

definition specResolutionForm :: "string \<Rightarrow> bool" where
  "specResolutionForm s \<longleftrightarrow>
     (let g1 = takeWhile isDigit s;
          r = dropWhile isDigit s
      in g1 \<noteq> [] \<and> startsWith r ''x'' \<and> drop 1 r \<noteq> [] \<and> list_all isDigit (drop 1 r))"

definition win9xDefaults :: Win9xSettings where
  "win9xDefaults =
     \<lparr>resolution = defaultResolution, ddraw = True, d3d = True, threeDfx = True,
      midiDriver = SBFM, volumes = \<lparr>master = 255, wave = 255, midi = 255, cd = 128\<rparr>\<rparr>"

text \<open>One turn of the loop of \<^verbatim>\<open>extractWin9xSettings\<close>; \<open>st\<close> is the object the
  source calls \<open>defaults\<close> and assigns to.\<close>

definition win9xEntry :: "bool \<Rightarrow> Win9xSettings \<Rightarrow> EditConfEntry \<Rightarrow> Win9xSettings" where
  "win9xEntry isLegacy st entry =
     (if isLegacy \<and> e_section entry = 21 \<and> e_item entry = 1
      then st\<lparr>resolution := parse9xResolution (e_value entry)\<rparr>
      else if e_section entry \<noteq> 1 then st
      else if e_item entry = 1 then st\<lparr>resolution := parse9xResolution (e_value entry)\<rparr>
      else if e_item entry = 2 then st\<lparr>ddraw := (e_value entry = ''true'')\<rparr>
      else if e_item entry = 3 then st\<lparr>d3d := (e_value entry = ''true'')\<rparr>
      else if e_item entry = 4 then st\<lparr>threeDfx := (e_value entry = ''true'')\<rparr>
      else if e_item entry = 5
        then st\<lparr>midiDriver := (if e_value entry = ''MPU401'' then MPU401 else SBFM)\<rparr>
      else if e_item entry = 6
        then st\<lparr>volumes := (volumes st)\<lparr>master := orDefault (parseInt (e_value entry)) 255\<rparr>\<rparr>
      else if e_item entry = 7
        then st\<lparr>volumes := (volumes st)\<lparr>wave := orDefault (parseInt (e_value entry)) 255\<rparr>\<rparr>
      else if e_item entry = 8
        then st\<lparr>volumes := (volumes st)\<lparr>midi := orDefault (parseInt (e_value entry)) 255\<rparr>\<rparr>
      else if e_item entry = 9
        then st\<lparr>volumes := (volumes st)\<lparr>cd := orDefault (parseInt (e_value entry)) 128\<rparr>\<rparr>
      else st)"

definition extractWin9xSettings :: "EditConfEntry list \<Rightarrow> bool \<Rightarrow> Win9xSettings" where
  "extractWin9xSettings entries isLegacy = foldl (win9xEntry isLegacy) win9xDefaults entries"

text \<open>\<^verbatim>\<open>extractWin9xDisplaySettings\<close> of \<^verbatim>\<open>template-loader.ts\<close> reads a
  \<open>Map<string, string>\<close>, here a map. Each of its blocks is
  \<open>const x = values.get(k); if (x) { defaults.f = ... }\<close>, and \<open>if (x)\<close> holds for
  a present, non-empty string.\<close>

definition whenSet :: "string option \<Rightarrow> (string \<Rightarrow> 'a \<Rightarrow> 'a) \<Rightarrow> 'a \<Rightarrow> 'a" where
  "whenSet x assign st =
     (case x of None \<Rightarrow> st | Some s \<Rightarrow> if s \<noteq> [] then assign s st else st)"

definition extractWin9xDisplaySettings :: "(string \<rightharpoonup> string) \<Rightarrow> Win9xSettings" where
  "extractWin9xDisplaySettings values =
     (let st = win9xDefaults;
          st = whenSet (values ''win9x_9xres'')
                 (\<lambda>res st. st\<lparr>resolution := parse9xResolution res\<rparr>) st;
          st = whenSet (values ''win9x_9xddraw'')
                 (\<lambda>ddraw st. st\<lparr>ddraw := (ddraw = ''true'')\<rparr>) st;
          st = whenSet (values ''win9x_9xd3d'')
                 (\<lambda>d3d st. st\<lparr>d3d := (d3d = ''true'')\<rparr>) st;
          st = whenSet (values ''win9x_9x3dfx'')
                 (\<lambda>threeDfx st. st\<lparr>threeDfx := (threeDfx = ''true'')\<rparr>) st;
          st = whenSet (values ''win9x_9xmpu'')
                 (\<lambda>mpu st. st\<lparr>midiDriver := (if mpu = ''MPU401'' then MPU401 else SBFM)\<rparr>) st;
          st = whenSet (values ''win9x_9xmaster'')
                 (\<lambda>v st. st\<lparr>volumes := (volumes st)\<lparr>master := orDefault (parseInt v) 255\<rparr>\<rparr>) st;
          st = whenSet (values ''win9x_9xwave'')
                 (\<lambda>v st. st\<lparr>volumes := (volumes st)\<lparr>wave := orDefault (parseInt v) 255\<rparr>\<rparr>) st;
          st = whenSet (values ''win9x_9xmidi'')
                 (\<lambda>v st. st\<lparr>volumes := (volumes st)\<lparr>midi := orDefault (parseInt v) 255\<rparr>\<rparr>) st;
          st = whenSet (values ''win9x_9xcd'')
                 (\<lambda>v st. st\<lparr>volumes := (volumes st)\<lparr>cd := orDefault (parseInt v) 128\<rparr>\<rparr>) st
      in st)"

subsection \<open>The configuration document assembler\<close>

definition isSpecialSection :: "string \<Rightarrow> bool" where
  "isSpecialSection s \<longleftrightarrow>
     s = ''default'' \<or> s = ''win9x'' \<or> s = ''pcem'' \<or> s = ''separator''"

text \<open>The array \<open>lines\<close> that \<^verbatim>\<open>settingsToConfString\<close> fills, then its join.\<close>

fun confLines :: "DosboxSettings \<Rightarrow> string list" where
  "confLines [] = []"
| "confLines ((sect, items) # rest) =
     (if isSpecialSection sect then confLines rest
      else (''['' @ sect @ '']'') # map (\<lambda>(key, v). key @ ''='' @ v) items
             @ [''''] @ confLines rest)"

definition settingsToConfString :: "DosboxSettings \<Rightarrow> string" where
  "settingsToConfString settings = js_join [CHR 0x0A] (confLines settings)"

text \<open>\<^verbatim>\<open>generateDosboxConf\<close>; \<open>if (header)\<close> fails for a missing header and for
  the empty one.\<close>

definition generateDosboxConf :: "DosboxSettings \<Rightarrow> string \<Rightarrow> string option \<Rightarrow> string" where
  "generateDosboxConf settings autoexec header =
     js_trim (js_join [CHR 0x0A]
       ((case header of None \<Rightarrow> [] | Some h \<Rightarrow> if h = [] then [] else [h, []])
        @ [settingsToConfString settings, ''[autoexec]'', autoexec]))"

subsection \<open>The template engine\<close>

definition WIN9X_DEFAULTS :: "(string \<times> string) list" where
  "WIN9X_DEFAULTS = [
   (''sdl_fullscreen'', ''false''),
   (''sdl_fulldouble'', ''false''),
   (''sdl_fullresolution'', ''desktop''),
   (''sdl_windowresolution'', ''1024x768''),
   (''sdl_windowposition'', ''''),
   (''sdl_display'', ''0''),
   (''sdl_output'', ''opengl''),
   (''sdl_videodriver'', ''''),
   (''sdl_transparency'', ''0''),
   (''sdl_maximize'', ''false''),
   (''sdl_autolock'', ''true''),
   (''sdl_autolock_feedback'', ''none''),
   (''sdl_middle_unlock'', ''none''),
   (''sdl_clip_mouse_button'', ''none''),
   (''sdl_clip_key_modifier'', ''none''),
   (''sdl_clip_paste_bios'', ''default''),
   (''sdl_clip_paste_speed'', ''30''),
   (''sdl_sensitivity'', ''50''),
   (''sdl_usesystemcursor'', ''false''),
   (''sdl_mouse_emulation'', ''locked''),
   (''sdl_mouse_wheel_key'', ''-1''),
   (''sdl_waitonerror'', ''false''),
   (''sdl_priority'', ''higher''),
   (''sdl_mapperfile'', ''W9X-x.txt''),
   (''sdl_usescancodes'', ''false''),
   (''sdl_overscan'', ''0''),
   (''sdl_pixelshader'', ''none''),
   (''sdl_showbasic'', ''true''),
   (''sdl_showdetails'', ''false''),
   (''sdl_showmenu'', ''true''),
   (''log_logfile'', ''''),
   (''log_debuggerrun'', ''normal''),
   (''dosbox_language'', ''''),
   (''dosbox_fastbioslogo'', ''true''),
   (''dosbox_startbanner'', ''false''),
   (''dosbox_bannercolortheme'', ''default''),
   (''dosbox_dpi aware'', ''false''),
   (''dosbox_quit warning'', ''false''),
   (''dosbox_working directory option'', ''default''),
   (''dosbox_working directory default'', ''''),
   (''dosbox_show advanced options'', ''false''),
   (''dosbox_resolve config path'', ''true''),
   (''dosbox_hostkey'', ''mapper''),
   (''dosbox_mapper send key'', ''ctrlaltdel''),
   (''dosbox_ime'', ''auto''),
   (''dosbox_synchronize time'', ''false''),
   (''dosbox_machine'', ''svga_s3''),
   (''dosbox_captures'', ''dosbox''),
   (''dosbox_autosave'', ''''),
   (''dosbox_saveslot'', ''1''),
   (''dosbox_savefile'', ''''),
   (''dosbox_saveremark'', ''true''),
   (''dosbox_forceloadstate'', ''false''),
   (''dosbox_a20'', ''fast''),
   (''dosbox_memsize'', ''256''),
   (''dosbox_nocachedir'', ''false''),
   (''dosbox_freesizecap'', ''cap''),
   (''dosbox_convertdrivefat'', ''true''),
   (''dosbox_vmemsize'', ''4''),
   (''dosbox_vmemsizekb'', ''0''),
   (''render_frameskip'', ''0''),
   (''render_aspect'', ''true''),
   (''render_aspect_ratio'', ''0:0''),
   (''render_char9'', ''true''),
   (''render_euro'', ''-1''),
   (''render_doublescan'', ''true''),
   (''render_scaler'', ''hardware2x''),
   (''render_glshader'', ''none''),
   (''render_autofit'', ''true''),
   (''render_monochrome_pal'', ''green''),
   (''pc98_pc-98 BIOS copyright string'', ''true''),
   (''pc98_pc-98 fm board'', ''auto''),
   (''pc98_pc-98 enable 256-color'', ''true''),
   (''pc98_pc-98 enable 16-color'', ''true''),
   (''pc98_pc-98 enable grcg'', ''true''),
   (''pc98_pc-98 enable egc'', ''true''),
   (''pc98_pc-98 bus mouse'', ''true''),
   (''pc98_pc-98 force ibm keyboard layout'', ''false''),
   (''pc98_pc-98 try font rom'', ''true''),
   (''pc98_pc-98 anex86 font'', ''''),
   (''dosv_dosv'', ''off''),
   (''dosv_getsysfont'', ''true''),
   (''dosv_fontxsbcs'', ''''),
   (''dosv_fontxsbcs16'', ''''),
   (''dosv_fontxsbcs24'', ''''),
   (''dosv_fontxdbcs'', ''''),
   (''dosv_fontxdbcs14'', ''''),
   (''dosv_fontxdbcs24'', ''''),
   (''dosv_showdbcsnodosv'', ''true''),
   (''dosv_yen'', ''false''),
   (''dosv_fepcontrol'', ''ias''),
   (''dosv_vtext1'', ''svga''),
   (''dosv_vtext2'', ''svga''),
   (''dosv_use20pixelfont'', ''false''),
   (''dosv_j3100'', ''off''),
   (''dosv_j3100type'', ''default''),
   (''dosv_j3100colorscroll'', ''false''),
   (''video_high intensity blinking'', ''true''),
   (''vsync_vsyncmode'', ''off''),
   (''vsync_vsyncrate'', ''75''),
   (''cpu_core'', ''dynamic''),
   (''cpu_fpu'', ''true''),
   (''cpu_segment limits'', ''true''),
   (''cpu_cputype'', ''pentium''),
   (''cpu_cycles'', ''max''),
   (''cpu_cycleup'', ''150''),
   (''cpu_cycledown'', ''100''),
   (''cpu_turbo'', ''false''),
   (''cpu_apmbios'', ''false''),
   (''cpu_integration device'', ''false''),
   (''cpu_isapnpbios'', ''false''),
   (''keyboard_aux'', ''false''),
   (''keyboard_allow output port reset'', ''true''),
   (''keyboard_controllertype'', ''auto''),
   (''keyboard_auxdevice'', ''intellimouse''),
   (''ttf_font'', ''''),
   (''ttf_fontbold'', ''''),
   (''ttf_fontital'', ''''),
   (''ttf_fontboit'', ''''),
   (''ttf_colors'', ''''),
   (''ttf_outputswitch'', ''auto''),
   (''ttf_winperc'', ''60''),
   (''ttf_ptsize'', ''0''),
   (''ttf_lins'', ''0''),
   (''ttf_cols'', ''0''),
   (''ttf_righttoleft'', ''false''),
   (''ttf_wp'', ''''),
   (''ttf_bold'', ''true''),
   (''ttf_italic'', ''true''),
   (''ttf_underline'', ''true''),
   (''ttf_strikeout'', ''false''),
   (''ttf_printfont'', ''true''),
   (''ttf_autodbcs'', ''true''),
   (''ttf_blinkc'', ''true''),
   (''ttf_gbk'', ''false''),
   (''ttf_chinasea'', ''false''),
   (''ttf_dosvfunc'', ''false''),
   (''voodoo_voodoo_card'', ''false''),
   (''voodoo_voodoo_maxmem'', ''4''),
   (''voodoo_glide'', ''emu''),
   (''voodoo_lfb'', ''full''),
   (''voodoo_splash'', ''false''),
   (''mixer_nosound'', ''false''),
   (''mixer_sample accurate'', ''false''),
   (''mixer_swapstereo'', ''false''),
   (''mixer_rate'', ''44100''),
   (''mixer_blocksize'', ''1024''),
   (''mixer_prebuffer'', ''20''),
   (''midi_mpu401'', ''intelligent''),
   (''midi_mpubase'', ''330''),
   (''midi_mididevice'', ''default''),
   (''midi_midiconfig'', ''''),
   (''midi_samplerate'', ''44100''),
   (''midi_mpuirq'', ''-1''),
   (''midi_mt32.romdir'', ''''),
   (''midi_mt32.model'', ''auto''),
   (''midi_fluid.driver'', ''default''),
   (''midi_fluid.soundfont'', ''''),
   (''sblaster_sbtype'', ''sb16''),
   (''sblaster_sbbase'', ''220''),
   (''sblaster_irq'', ''7''),
   (''sblaster_dma'', ''1''),
   (''sblaster_hdma'', ''5''),
   (''sblaster_enable speaker'', ''false''),
   (''sblaster_sbmixer'', ''true''),
   (''sblaster_oplmode'', ''auto''),
   (''sblaster_oplemu'', ''default''),
   (''sblaster_oplrate'', ''44100''),
   (''sblaster_oplport'', ''''),
   (''sblaster_retrowave_bus'', ''serial''),
   (''sblaster_retrowave_port'', ''''),
   (''sblaster_hardwarebase'', ''220''),
   (''sblaster_goldplay'', ''false''),
   (''sblaster_blaster environment variable'', ''true''),
   (''gus_gus'', ''true''),
   (''gus_gusrate'', ''44100''),
   (''gus_gusmemsize'', ''-1''),
   (''gus_gus master volume'', ''100''),
   (''gus_gusbase'', ''240''),
   (''gus_gusirq'', ''5''),
   (''gus_gusdma'', ''3''),
   (''gus_gustype'', ''classic''),
   (''gus_ultradir'', (''C:'' @ [CHR 0x5C] @ ''ULTRASND'')),
   (''innova_innova'', ''false''),
   (''innova_samplerate'', ''22050''),
   (''innova_sidbase'', ''280''),
   (''innova_quality'', ''0''),
   (''speaker_pcspeaker'', ''true''),
   (''speaker_pcrate'', ''44100''),
   (''speaker_tandy'', ''off''),
   (''speaker_tandyrate'', ''44100''),
   (''speaker_disney'', ''false''),
   (''speaker_ps1audio'', ''false''),
   (''speaker_ps1audiorate'', ''22050''),
   (''joystick_joysticktype'', ''none''),
   (''joystick_timed'', ''true''),
   (''joystick_autofire'', ''false''),
   (''joystick_swap34'', ''false''),
   (''joystick_buttonwrap'', ''false''),
   (''mapper_joy1deadzone0-'', ''0.60''),
   (''mapper_joy1deadzone0+'', ''0.60''),
   (''mapper_joy1deadzone1-'', ''0.60''),
   (''mapper_joy1deadzone1+'', ''0.60''),
   (''mapper_joy1deadzone2-'', ''0.60''),
   (''mapper_joy1deadzone2+'', ''0.60''),
   (''mapper_joy1deadzone3-'', ''0.60''),
   (''mapper_joy1deadzone3+'', ''0.60''),
   (''mapper_joy1deadzone4-'', ''0.60''),
   (''mapper_joy1deadzone4+'', ''0.60''),
   (''mapper_joy1deadzone5-'', ''0.60''),
   (''mapper_joy1deadzone5+'', ''0.60''),
   (''mapper_joy1deadzone6-'', ''0.60''),
   (''mapper_joy1deadzone6+'', ''0.60''),
   (''mapper_joy1deadzone7-'', ''0.60''),
   (''mapper_joy1deadzone7+'', ''0.60''),
   (''mapper_joy2deadzone0-'', ''0.60''),
   (''mapper_joy2deadzone0+'', ''0.60''),
   (''mapper_joy2deadzone1-'', ''0.60''),
   (''mapper_joy2deadzone1+'', ''0.60''),
   (''mapper_joy2deadzone2-'', ''0.60''),
   (''mapper_joy2deadzone2+'', ''0.60''),
   (''mapper_joy2deadzone3-'', ''0.60''),
   (''mapper_joy2deadzone3+'', ''0.60''),
   (''mapper_joy2deadzone4-'', ''0.60''),
   (''mapper_joy2deadzone4+'', ''0.60''),
   (''mapper_joy2deadzone5-'', ''0.60''),
   (''mapper_joy2deadzone5+'', ''0.60''),
   (''mapper_joy2deadzone6-'', ''0.60''),
   (''mapper_joy2deadzone6+'', ''0.60''),
   (''mapper_joy2deadzone7-'', ''0.60''),
   (''mapper_joy2deadzone7+'', ''0.60''),
   (''serial_serial1'', ''dummy''),
   (''serial_serial2'', ''dummy''),
   (''serial_serial3'', ''disabled''),
   (''serial_serial4'', ''disabled''),
   (''serial_serial5'', ''disabled''),
   (''serial_serial6'', ''disabled''),
   (''serial_serial7'', ''disabled''),
   (''serial_serial8'', ''disabled''),
   (''serial_serial9'', ''disabled''),
   (''serial_phonebookfile'', ''phonebook.txt''),
   (''parallel_parallel1'', ''disabled''),
   (''parallel_parallel2'', ''disabled''),
   (''parallel_parallel3'', ''disabled''),
   (''parallel_parallel4'', ''disabled''),
   (''parallel_parallel5'', ''disabled''),
   (''parallel_parallel6'', ''disabled''),
   (''parallel_parallel7'', ''disabled''),
   (''parallel_parallel8'', ''disabled''),
   (''parallel_parallel9'', ''disabled''),
   (''parallel_dongle'', ''false''),
   (''printer_printer'', ''false''),
   (''printer_dpi'', ''360''),
   (''printer_width'', ''85''),
   (''printer_height'', ''110''),
   (''printer_printoutput'', ''png''),
   (''printer_multipage'', ''false''),
   (''printer_device'', ''''),
   (''printer_docpath'', ''.''),
   (''printer_fontpath'', ''''),
   (''printer_openwith'', ''''),
   (''printer_openerror'', ''false''),
   (''printer_printdbcs'', ''true''),
   (''printer_shellhide'', ''true''),
   (''printer_timeout'', ''0''),
   (''dos_xms'', ''true''),
   (''dos_xms handles'', ''0''),
   (''dos_shell configuration as commands'', ''true''),
   (''dos_hma'', ''true''),
   (''dos_hard drive data rate limit'', ''-1''),
   (''dos_floppy drive data rate limit'', ''0''),
   (''dos_ansi.sys'', ''true''),
   (''dos_log console'', ''false''),
   (''dos_share'', ''true''),
   (''dos_file access tries'', ''3''),
   (''dos_network redirector'', ''true''),
   (''dos_minimum mcb free'', ''0''),
   (''dos_ems'', ''true''),
   (''dos_umb'', ''true''),
   (''dos_quick reboot'', ''false''),
   (''dos_ver'', ''auto''),
   (''dos_lfn'', ''auto''),
   (''dos_fat32setversion'', ''ask''),
   (''dos_shellhigh'', ''auto''),
   (''dos_automount'', ''true''),
   (''dos_automountall'', ''true''),
   (''dos_mountwarning'', ''true''),
   (''dos_autofixwarning'', ''false''),
   (''dos_startcmd'', ''false''),
   (''dos_starttranspath'', ''true''),
   (''dos_startwait'', ''true''),
   (''dos_startquiet'', ''false''),
   (''dos_vmware'', ''true''),
   (''dos_int33'', ''true''),
   (''dos_keyboardlayout'', ''auto''),
   (''dos_customcodepage'', ''''),
   (''dos_dbcs'', ''true''),
   (''dos_dos clipboard device enable'', ''false''),
   (''dos_dos clipboard device name'', ''CLIP$''),
   (''dos_dos clipboard api'', ''true''),
   (''ipx_ipx'', ''false''),
   (''ne2000_ne2000'', ''false''),
   (''ne2000_nicbase'', ''300''),
   (''ne2000_nicirq'', ''3''),
   (''ne2000_macaddr'', ''AC:DE:48:88:99:AA''),
   (''ne2000_backend'', ''auto''),
   (''ethernet, pcap_realnic'', ''''),
   (''ethernet, pcap_timeout'', ''0''),
   (''ethernet, slirp_ipv4_network'', ''''),
   (''ethernet, slirp_ipv4_netmask'', ''''),
   (''ethernet, slirp_ipv4_host'', ''''),
   (''ethernet, slirp_ipv4_nameserver'', ''''),
   (''ethernet, slirp_ipv4_dhcp_start'', ''''),
   (''ide, primary_enable'', ''true''),
   (''ide, primary_pnp'', ''false''),
   (''ide, secondary_enable'', ''true''),
   (''ide, secondary_pnp'', ''false''),
   (''ide, tertiary_enable'', ''false''),
   (''ide, tertiary_pnp'', ''false''),
   (''ide, quaternary_enable'', ''false''),
   (''ide, quaternary_pnp'', ''false''),
   (''ide, quinternary_enable'', ''false''),
   (''ide, quinternary_pnp'', ''false''),
   (''ide, sexternary_enable'', ''false''),
   (''ide, sexternary_pnp'', ''false''),
   (''ide, septernary_enable'', ''false''),
   (''ide, septernary_pnp'', ''false''),
   (''ide, octernary_enable'', ''false''),
   (''ide, octernary_pnp'', ''false''),
   (''fdc, primary_enable'', ''true''),
   (''fdc, primary_pnp'', ''false''),
   (''fdc, primary_mode'', ''ps2''),
   (''4dos_rem'', ''''),
   (''config_rem'', ''''),
   (''config_break'', ''true''),
   (''config_numlock'', ''''),
   (''config_shell'', ''''),
   (''config_dos'', ''high''),
   (''config_fcbs'', ''100''),
   (''config_files'', ''127''),
   (''config_country'', ''''),
   (''config_lastdrive'', ''z''),
   (''config_install'', ''''),
   (''config_installhigh'', ''''),
   (''config_device'', ''''),
   (''config_devicehigh'', '''')]"

text \<open>\<open>template.replace(/@([^@]+)@/g, f)\<close>: matches are found left to right and do
  not overlap; a match is an \<open>@\<close>, at least one character other than \<open>@\<close>, and the
  next \<open>@\<close>. Everything else is copied.\<close>

function replacePlaceholders :: "(string \<Rightarrow> string) \<Rightarrow> string \<Rightarrow> string" where
  "replacePlaceholders f [] = []"
| "replacePlaceholders f (c # cs) =
     (if c = CHR ''@'' \<and> takeWhile (\<lambda>x. x \<noteq> CHR ''@'') cs \<noteq> []
         \<and> dropWhile (\<lambda>x. x \<noteq> CHR ''@'') cs \<noteq> []
      then f (takeWhile (\<lambda>x. x \<noteq> CHR ''@'') cs)
             @ replacePlaceholders f (tl (dropWhile (\<lambda>x. x \<noteq> CHR ''@'') cs))
      else c # replacePlaceholders f cs)"
  by pat_completeness auto
termination
proof (relation "measure (\<lambda>(f, s). length s)", goal_cases)
  case 1
  show ?case by simp
next
  case (2 f c cs)
  have "length (dropWhile (\<lambda>x. x \<noteq> CHR ''@'') cs) \<le> length cs"
    by (rule length_dropWhile_le)
  with 2 show ?case by (cases "dropWhile (\<lambda>x. x \<noteq> CHR ''@'') cs") auto
next
  case 3
  show ?case by simp
qed

text \<open>\<^verbatim>\<open>getDefaultValue(key)\<close> is \<open>WIN9X_DEFAULTS[key] ?? ''\<close>. The table is an object
  literal, so the read finds an own property, or else a member of
  \<open>Object.prototype\<close>, and only then \<open>undefined\<close>. The value read is a string, the
  object \<open>Object.prototype\<close> (for \<open>__proto__\<close>) or one of its built-in functions.\<close>

datatype propertyValue = Str string | ObjectPrototype | BuiltinFunction string

definition getDefaultValue :: "string \<Rightarrow> propertyValue" where
  "getDefaultValue key =
     (case map_of WIN9X_DEFAULTS key of
        Some d \<Rightarrow> Str d
      | None \<Rightarrow>
          if key = ''__proto__'' then ObjectPrototype
          else if key \<in> set objectPrototypeMembers then BuiltinFunction key
          else Str [])"

text \<open>The string that \<open>replace\<close> inserts for the value its callback returns:
  \<open>Object.prototype\<close> prints as \<open>[object Object]\<close>; the text of a built-in function
  is the engine's (the language fixes its form, not its white space), so it is the
  parameter \<open>nativeText\<close>, from the name of the member to its text.\<close>

definition valueText :: "(string \<Rightarrow> string) \<Rightarrow> propertyValue \<Rightarrow> string" where
  "valueText nativeText m =
     (case m of
        Str s \<Rightarrow> s
      | ObjectPrototype \<Rightarrow> ''[object Object]''
      | BuiltinFunction name \<Rightarrow> nativeText name)"

text \<open>The callback of the replacement: \<open>mergedValues\<close> is a \<open>Map\<close> holding the own
  entries of the defaults overridden by the supplied \<open>values\<close>; a key it lacks is
  looked up with \<^verbatim>\<open>getDefaultValue\<close>, and a result other than the empty string is
  returned.\<close>

definition resolvePlaceholder ::
  "(string \<Rightarrow> string) \<Rightarrow> (string \<rightharpoonup> string) \<Rightarrow> string \<Rightarrow> string" where
  "resolvePlaceholder nativeText values key =
     (case (map_of WIN9X_DEFAULTS ++ values) key of
        Some v \<Rightarrow> v
      | None \<Rightarrow>
          (let defaultValue = getDefaultValue key
           in if defaultValue \<noteq> Str [] then valueText nativeText defaultValue else []))"

definition applyValuesToTemplate ::
  "(string \<Rightarrow> string) \<Rightarrow> string \<Rightarrow> (string \<rightharpoonup> string) \<Rightarrow> string" where
  "applyValuesToTemplate nativeText template values =
     replacePlaceholders (resolvePlaceholder nativeText values) template"

subsection \<open>Merging settings objects\<close>

text \<open>\<^verbatim>\<open>mergeSettings\<close> copies \<open>base\<close> and then assigns into the copy, so what it
  does to its arguments depends on which objects are shared. The objects are
  therefore kept in a store: a reference is an index into the list of objects,
  allocation appends, an assignment replaces the object at its index. An object is
  the list of its own properties in the order of their creation; a settings object
  holds a reference to a section object for each section name.\<close>

type_synonym ref = nat

datatype obj = SectionObj "(string \<times> string) list" | SettingsObj "(string \<times> ref) list"

type_synonym heap = "obj list"

definition alloc :: "heap \<Rightarrow> obj \<Rightarrow> heap \<times> ref" where
  "alloc h ob = (h @ [ob], length h)"

definition sectionAt :: "heap \<Rightarrow> ref \<Rightarrow> (string \<times> string) list option" where
  "sectionAt h r =
     (if r < length h
      then (case h ! r of SectionObj kvs \<Rightarrow> Some kvs | SettingsObj _ \<Rightarrow> None)
      else None)"

definition settingsAt :: "heap \<Rightarrow> ref \<Rightarrow> (string \<times> ref) list option" where
  "settingsAt h r =
     (if r < length h
      then (case h ! r of SettingsObj ps \<Rightarrow> Some ps | SectionObj _ \<Rightarrow> None)
      else None)"

text \<open>The \<open>DosboxSettings\<close> value a settings object stands for, sections and keys
  in the order of their creation; \<open>None\<close> when a reference does not lead to an object
  of the expected kind, which the types of the source exclude.\<close>

fun readSections :: "heap \<Rightarrow> (string \<times> ref) list \<Rightarrow> DosboxSettings option" where
  "readSections h [] = Some []"
| "readSections h ((name, r) # ps) =
     (case sectionAt h r of
        None \<Rightarrow> None
      | Some kvs \<Rightarrow>
          (case readSections h ps of
             None \<Rightarrow> None
           | Some rest \<Rightarrow> Some ((name, kvs) # rest)))"

definition settingsValue :: "heap \<Rightarrow> ref \<Rightarrow> DosboxSettings option" where
  "settingsValue h r =
     (case settingsAt h r of None \<Rightarrow> None | Some ps \<Rightarrow> readSections h ps)"

text \<open>Where a run ends without returning. \<open>IllTyped\<close>: a reference does not lead
  to an object of the expected kind, which the types of the source exclude.
  \<open>TypeError\<close>: a property of \<open>undefined\<close> is assigned to. \<open>WritesInherited name\<close>:
  the program assigns to a property of the member \<open>name\<close> of \<open>Object.prototype\<close>,
  an object outside the settings that every object shares; the run is not followed
  beyond that write.\<close>

datatype stop = IllTyped | TypeError | WritesInherited string

text \<open>\<open>JSON.parse(JSON.stringify(base))\<close>: the text lists the sections, and the keys
  of each section, in the order of \<open>Object.entries\<close>; parsing it creates the
  properties in the order of the text, in new objects, one per section and one for
  the map.\<close>

definition jsonCopy :: "DosboxSettings \<Rightarrow> DosboxSettings" where
  "jsonCopy v = map (\<lambda>(name, kvs). (name, ownEntries kvs)) (ownEntries v)"

fun allocSections :: "heap \<Rightarrow> DosboxSettings \<Rightarrow> heap \<times> (string \<times> ref) list" where
  "allocSections h [] = (h, [])"
| "allocSections h ((name, kvs) # rest) =
     (case alloc h (SectionObj kvs) of
        (h1, r) \<Rightarrow> (case allocSections h1 rest of (h2, ps) \<Rightarrow> (h2, (name, r) # ps)))"

definition deepCopy :: "heap \<Rightarrow> ref \<Rightarrow> stop + heap \<times> ref" where
  "deepCopy h r =
     (case settingsValue h r of
        None \<Rightarrow> Inl IllTyped
      | Some v \<Rightarrow>
          (case allocSections h (jsonCopy v) of (h1, ps) \<Rightarrow> Inr (alloc h1 (SettingsObj ps))))"

text \<open>The inner loop: \<open>merged[section][key] = value\<close> for each entry of \<open>items\<close>.
  \<open>merged[section]\<close> is the own property if there is one, and otherwise the member
  of \<open>Object.prototype\<close> of that name, to which the assignment then goes.\<close>

fun assignKeys :: "heap \<Rightarrow> ref \<Rightarrow> string \<Rightarrow> (string \<times> string) list \<Rightarrow> stop + heap" where
  "assignKeys h merged sect [] = Inr h"
| "assignKeys h merged sect ((key, v) # rest) =
     (case settingsAt h merged of
        None \<Rightarrow> Inl IllTyped
      | Some ps \<Rightarrow>
          (case map_of ps sect of
             None \<Rightarrow>
               (if sect \<in> set objectPrototypeMembers then Inl (WritesInherited sect)
                else Inl TypeError)
           | Some r \<Rightarrow>
               (case sectionAt h r of
                  None \<Rightarrow> Inl IllTyped
                | Some kvs \<Rightarrow>
                    assignKeys (h[r := SectionObj (setProperty key v kvs)]) merged sect rest)))"

text \<open>The outer loop over \<open>Object.entries(override)\<close>. \<open>!merged[section]\<close> holds when
  the name is neither an own property of \<open>merged\<close> nor a member of
  \<open>Object.prototype\<close>; the section is then created as a new empty object. After
  that the entries of the override's section are assigned.\<close>

fun mergeSections :: "heap \<Rightarrow> ref \<Rightarrow> (string \<times> ref) list \<Rightarrow> stop + heap" where
  "mergeSections h merged [] = Inr h"
| "mergeSections h merged ((sect, items) # rest) =
     (case settingsAt h merged of
        None \<Rightarrow> Inl IllTyped
      | Some ps \<Rightarrow>
          (let h1 = (if map_of ps sect = None \<and> sect \<notin> set objectPrototypeMembers
                     then (case alloc h (SectionObj []) of
                             (h', r) \<Rightarrow> h'[merged := SettingsObj (ps @ [(sect, r)])])
                     else h)
           in (case sectionAt h1 items of
                 None \<Rightarrow> Inl IllTyped
               | Some kvs \<Rightarrow>
                   (case assignKeys h1 merged sect (ownEntries kvs) of
                      Inl e \<Rightarrow> Inl e
                    | Inr h2 \<Rightarrow> mergeSections h2 merged rest))))"

definition mergeSettings :: "heap \<Rightarrow> ref \<Rightarrow> ref \<Rightarrow> stop + heap \<times> ref" where
  "mergeSettings h base override =
     (case deepCopy h base of
        Inl e \<Rightarrow> Inl e
      | Inr (h1, merged) \<Rightarrow>
          (case settingsAt h1 override of
             None \<Rightarrow> Inl IllTyped
           | Some entries \<Rightarrow>
               (case mergeSections h1 merged (ownEntries entries) of
                  Inl e \<Rightarrow> Inl e
                | Inr h2 \<Rightarrow> Inr (h2, merged))))"

text \<open>The same two iterations on values, without the store: what \<open>mergeSettings\<close>
  returns as a function of the values of its arguments, when no section of the
  override is named like a member of \<open>Object.prototype\<close>.\<close>

definition mergeOne :: "DosboxSettings \<Rightarrow> string \<times> (string \<times> string) list \<Rightarrow> DosboxSettings" where
  "mergeOne m entry =
     (case entry of
        (sect, items) \<Rightarrow>
          foldl (\<lambda>m' (key, v). AList.map_entry sect (setProperty key v) m')
                (if map_of m sect = None then m @ [(sect, [])] else m) (ownEntries items))"

definition mergedValue :: "DosboxSettings \<Rightarrow> DosboxSettings \<Rightarrow> DosboxSettings" where
  "mergedValue base override = foldl mergeOne (jsonCopy base) (ownEntries override)"

text \<open>Every object has distinct property names.\<close>

definition distinctNames :: "DosboxSettings \<Rightarrow> bool" where
  "distinctNames v \<longleftrightarrow>
     distinct (map fst v) \<and> list_all (\<lambda>p. distinct (map fst (snd p))) v"

text \<open>\<open>settings[section][key]\<close>, \<open>None\<close> when the section or the key is missing.\<close>

definition lookupSetting :: "DosboxSettings \<Rightarrow> string \<Rightarrow> string \<Rightarrow> string option" where
  "lookupSetting m sect key =
     (case map_of m sect of None \<Rightarrow> None | Some kvs \<Rightarrow> map_of kvs key)"

text \<open>The relation kept while the iterations run: the settings object at \<open>merged\<close>
  stands for the value \<open>m\<close>, its section objects are pairwise different objects, and
  all of them, and \<open>merged\<close> itself, were allocated at or after index \<open>n\<close>.\<close>

definition represents :: "nat \<Rightarrow> heap \<Rightarrow> ref \<Rightarrow> DosboxSettings \<Rightarrow> bool" where
  "represents n h merged m \<longleftrightarrow>
     (\<exists>ps. settingsAt h merged = Some ps \<and> readSections h ps = Some m
           \<and> distinct (map snd ps) \<and> merged \<notin> set (map snd ps)
           \<and> (\<forall>r \<in> set (map snd ps). n \<le> r) \<and> n \<le> merged)"

section \<open>Properties\<close>

subsection \<open>Facts about the string primitives\<close>

lemma js_split_nonempty: "js_split sep s \<noteq> []"
  by (induction s) (auto split: list.splits)

lemma js_split_no_sep: "sep \<notin> set s \<Longrightarrow> js_split sep s = [s]"
  by (induction s) auto

lemma js_split_at_sep:
  "sep \<notin> set a \<Longrightarrow> js_split sep (a @ sep # rest) = a # js_split sep rest"
  by (induction a) auto

lemma js_join_split: "js_join [sep] (js_split sep s) = s"
proof (induction s)
  case Nil
  show ?case by simp
next
  case (Cons c cs)
  obtain p ps where ps: "js_split sep cs = p # ps"
    using js_split_nonempty [of sep cs] by (cases "js_split sep cs") auto
  show ?case
  proof (cases "c = sep")
    case True
    with Cons ps show ?thesis by simp
  next
    case False
    with Cons ps show ?thesis by (cases ps) auto
  qed
qed

lemma length_js_split: "length (js_split sep s) = Suc (length (filter (\<lambda>c. c = sep) s))"
proof (induction s)
  case Nil
  show ?case by simp
next
  case (Cons c cs)
  obtain p ps where ps: "js_split sep cs = p # ps"
    using js_split_nonempty [of sep cs] by (cases "js_split sep cs") auto
  with Cons show ?case by auto
qed

subsection \<open>Facts about numbers\<close>

text \<open>Below \<open>2^53\<close> in magnitude an integer is its own Number value.\<close>

lemma digitsVal_nonneg: "list_all isDigit ds \<Longrightarrow> 0 \<le> digitsVal ds"
proof -
  have "list_all isDigit ds \<Longrightarrow> 0 \<le> a \<Longrightarrow> 0 \<le> foldl (\<lambda>a c. 10 * a + digitVal c) a ds" for a
  proof (induction ds arbitrary: a)
    case Nil
    then show ?case by simp
  next
    case (Cons d ds)
    from Cons.prems(1) have "isDigit d"
      by simp
    then have "0 \<le> digitVal d"
      by (auto simp: isDigit_def digitVal_def)
    with Cons.prems(2) have "0 \<le> 10 * a + digitVal d"
      by simp
    with Cons.IH Cons.prems(1) show ?case
      by simp
  qed
  then show "list_all isDigit ds \<Longrightarrow> 0 \<le> digitsVal ds"
    by (simp add: digitsVal_def)
qed

lemma numberValue_exact: "\<bar>n\<bar> < 2 ^ 53 \<Longrightarrow> numberValue n = n"
  by (simp add: numberValue_def)

subsection \<open>The names of the tables\<close>

text \<open>No section or item name of the tables is a member of \<open>Object.prototype\<close> or
  has the form of an array index: indexing a settings object with these names reads
  own properties only, and creates them in the order of \<open>Object.entries\<close>.\<close>

lemma tables_plain_names:
  "list_all (\<lambda>p. snd p \<notin> set objectPrototypeMembers \<and> \<not> isArrayIndex (snd p)) SECTION_INDEX"
  "list_all (\<lambda>p. list_all (\<lambda>q. snd q \<notin> set objectPrototypeMembers \<and> \<not> isArrayIndex (snd q))
                    (snd p)) SECTION_ITEMS"
  "list_all (\<lambda>p. snd p \<notin> set objectPrototypeMembers \<and> \<not> isArrayIndex (snd p))
     SECTION_INDEX_LEGACY"
  "list_all (\<lambda>p. list_all (\<lambda>q. snd q \<notin> set objectPrototypeMembers \<and> \<not> isArrayIndex (snd q))
                    (snd p)) SECTION_ITEMS_LEGACY"
  "list_all (\<lambda>p. snd p \<notin> set objectPrototypeMembers \<and> \<not> isArrayIndex (snd p)) SECTION_NAMES"
  "list_all (\<lambda>p. list_all (\<lambda>q. snd q \<notin> set objectPrototypeMembers \<and> \<not> isArrayIndex (snd q))
                    (snd p)) OPTION_DAT_SECTION_ITEMS"
  "list_all (\<lambda>p. snd p \<notin> set objectPrototypeMembers \<and> \<not> isArrayIndex (snd p))
     SECTION_INDEX_LEGACY_2"
  "list_all (\<lambda>p. list_all (\<lambda>q. snd q \<notin> set objectPrototypeMembers \<and> \<not> isArrayIndex (snd q))
                    (snd p)) SECTION_ITEMS_LEGACY_2"
  by code_simp+

subsection \<open>Facts about the resolver\<close>

text \<open>The loop body of \<^const>\<open>convertEditConfToSettings\<close> makes the lookup of
  \<^const>\<open>lookupKey\<close> and writes only when it succeeds.\<close>

lemma convertEntry_lookupKey:
  "convertEntry si its settings entry =
     (case lookupKey si its (e_section entry) (e_item entry) of
        None \<Rightarrow> settings
      | Some (sectionName, keyName) \<Rightarrow>
          AList.update sectionName
            (AList.update keyName (e_value entry)
               (case map_of settings sectionName of None \<Rightarrow> [] | Some kvs \<Rightarrow> kvs))
            settings)"
  by (simp add: convertEntry_def lookupKey_def Let_def split: option.splits)

lemma convertEntry_unknown:
  "lookupKey si its (e_section entry) (e_item entry) = None
     \<Longrightarrow> convertEntry si its settings entry = settings"
  by (simp add: convertEntry_lookupKey)

subsection \<open>C1: the address of memsize under the two schemas\<close>

text \<open>
  C1, as stated, fails: section 7 is not a section of the legacy registry, so the entry
  (7, 3, "256") resolved with \<open>isLegacy = true\<close> is skipped and the result is the empty
  map, not \<open>{dosbox: {memsize: "256"}}\<close>.
\<close>

theorem C1_section7_legacy_counterexample:
  "convertEditConfToSettings [\<lparr>e_section = 7, e_item = 3, e_value = ''256''\<rparr>] True = []
   \<and> convertEditConfToSettings [\<lparr>e_section = 7, e_item = 3, e_value = ''256''\<rparr>] True
       \<noteq> [(''dosbox'', [(''memsize'', ''256'')])]"
  by code_simp

text \<open>
  C1, amended: under the legacy schema the address of \<open>dosbox.memsize\<close> is section 3,
  item 3, and the single entry (3, 3, v) resolves to \<open>{dosbox: {memsize: v}}\<close>. The
  address (7, 3) belongs to the current schema: with \<open>isLegacy = false\<close> the entry
  (7, 3, v) resolves to \<open>{dosbox: {memsize: v}}\<close>, with \<open>isLegacy = true\<close> to the
  empty map. Both revisions of the module agree on this.
\<close>

theorem C1_legacy_memsize_address:
  "convertEditConfToSettings [\<lparr>e_section = 3, e_item = 3, e_value = v\<rparr>] True
     = [(''dosbox'', [(''memsize'', v)])]
   \<and> convertEditConfToSettings [\<lparr>e_section = 7, e_item = 3, e_value = v\<rparr>] True = []
   \<and> convertEditConfToSettings [\<lparr>e_section = 7, e_item = 3, e_value = v\<rparr>] False
     = [(''dosbox'', [(''memsize'', v)])]
   \<and> convertEditConfToSettings_2 [\<lparr>e_section = 3, e_item = 3, e_value = v\<rparr>] True
     = [(''dosbox'', [(''memsize'', v)])]
   \<and> convertEditConfToSettings_2 [\<lparr>e_section = 7, e_item = 3, e_value = v\<rparr>] True = []
   \<and> convertEditConfToSettings_2 [\<lparr>e_section = 7, e_item = 3, e_value = v\<rparr>] False
     = [(''dosbox'', [(''memsize'', v)])]"
  by (simp add: convertEditConfToSettings_def convertEditConfToSettings_2_def convertEntry_def
      SECTION_INDEX_LEGACY_def SECTION_ITEMS_LEGACY_def SECTION_INDEX_def SECTION_ITEMS_def
      SECTION_INDEX_LEGACY_2_def SECTION_ITEMS_LEGACY_2_def SECTION_NAMES_def
      OPTION_DAT_SECTION_ITEMS_def)

subsection \<open>The loop of extractWin9xSettings: the last matching entry decides\<close>

lemma foldl_last_match:
  assumes hit: "\<And>st e. P e \<Longrightarrow> g (f st e) = h e"
    and miss: "\<And>st e. \<not> P e \<Longrightarrow> g (f st e) = g st"
  shows "g (foldl f st es) = (case rev (filter P es) of [] \<Rightarrow> g st | e # _ \<Rightarrow> h e)"
proof (induction es rule: rev_induct)
  case Nil
  show ?case by simp
next
  case (snoc e es)
  show ?case
  proof (cases "P e")
    case True
    then show ?thesis by (simp add: hit)
  next
    case False
    then show ?thesis by (simp add: miss snoc.IH)
  qed
qed

lemma foldl_skip:
  assumes "\<And>st e. \<not> P e \<Longrightarrow> f st e = st"
  shows "foldl f st es = foldl f st (filter P es)"
  by (induction es arbitrary: st) (simp_all add: assms)

lemma resolution_extract:
  "resolution (extractWin9xSettings es isLegacy) =
     (case rev (filter (\<lambda>e. (isLegacy \<and> e_section e = 21 \<or> e_section e = 1) \<and> e_item e = 1) es) of
        [] \<Rightarrow> defaultResolution
      | e # _ \<Rightarrow> parse9xResolution (e_value e))"
proof -
  have "resolution (foldl (win9xEntry isLegacy) win9xDefaults es) =
     (case rev (filter (\<lambda>e. (isLegacy \<and> e_section e = 21 \<or> e_section e = 1) \<and> e_item e = 1) es) of
        [] \<Rightarrow> resolution win9xDefaults
      | e # _ \<Rightarrow> parse9xResolution (e_value e))"
    by (rule foldl_last_match) (auto simp: win9xEntry_def)
  then show ?thesis
    by (simp add: extractWin9xSettings_def win9xDefaults_def split: list.splits)
qed

lemma volume_extract:
  "master (volumes (extractWin9xSettings es isLegacy)) =
     (case rev (filter (\<lambda>e. e_section e = 1 \<and> e_item e = 6) es) of
        [] \<Rightarrow> 255 | e # _ \<Rightarrow> orDefault (parseInt (e_value e)) 255)"
  "wave (volumes (extractWin9xSettings es isLegacy)) =
     (case rev (filter (\<lambda>e. e_section e = 1 \<and> e_item e = 7) es) of
        [] \<Rightarrow> 255 | e # _ \<Rightarrow> orDefault (parseInt (e_value e)) 255)"
  "midi (volumes (extractWin9xSettings es isLegacy)) =
     (case rev (filter (\<lambda>e. e_section e = 1 \<and> e_item e = 8) es) of
        [] \<Rightarrow> 255 | e # _ \<Rightarrow> orDefault (parseInt (e_value e)) 255)"
  "cd (volumes (extractWin9xSettings es isLegacy)) =
     (case rev (filter (\<lambda>e. e_section e = 1 \<and> e_item e = 9) es) of
        [] \<Rightarrow> 128 | e # _ \<Rightarrow> orDefault (parseInt (e_value e)) 128)"
proof -
  have "master (volumes (foldl (win9xEntry isLegacy) win9xDefaults es)) =
     (case rev (filter (\<lambda>e. e_section e = 1 \<and> e_item e = 6) es) of
        [] \<Rightarrow> master (volumes win9xDefaults) | e # _ \<Rightarrow> orDefault (parseInt (e_value e)) 255)"
    by (rule foldl_last_match [where g = "\<lambda>st. master (volumes st)"]) (auto simp: win9xEntry_def)
  then show "master (volumes (extractWin9xSettings es isLegacy)) =
     (case rev (filter (\<lambda>e. e_section e = 1 \<and> e_item e = 6) es) of
        [] \<Rightarrow> 255 | e # _ \<Rightarrow> orDefault (parseInt (e_value e)) 255)"
    by (simp add: extractWin9xSettings_def win9xDefaults_def split: list.splits)
  have "wave (volumes (foldl (win9xEntry isLegacy) win9xDefaults es)) =
     (case rev (filter (\<lambda>e. e_section e = 1 \<and> e_item e = 7) es) of
        [] \<Rightarrow> wave (volumes win9xDefaults) | e # _ \<Rightarrow> orDefault (parseInt (e_value e)) 255)"
    by (rule foldl_last_match [where g = "\<lambda>st. wave (volumes st)"]) (auto simp: win9xEntry_def)
  then show "wave (volumes (extractWin9xSettings es isLegacy)) =
     (case rev (filter (\<lambda>e. e_section e = 1 \<and> e_item e = 7) es) of
        [] \<Rightarrow> 255 | e # _ \<Rightarrow> orDefault (parseInt (e_value e)) 255)"
    by (simp add: extractWin9xSettings_def win9xDefaults_def split: list.splits)
  have "midi (volumes (foldl (win9xEntry isLegacy) win9xDefaults es)) =
     (case rev (filter (\<lambda>e. e_section e = 1 \<and> e_item e = 8) es) of
        [] \<Rightarrow> midi (volumes win9xDefaults) | e # _ \<Rightarrow> orDefault (parseInt (e_value e)) 255)"
    by (rule foldl_last_match [where g = "\<lambda>st. midi (volumes st)"]) (auto simp: win9xEntry_def)
  then show "midi (volumes (extractWin9xSettings es isLegacy)) =
     (case rev (filter (\<lambda>e. e_section e = 1 \<and> e_item e = 8) es) of
        [] \<Rightarrow> 255 | e # _ \<Rightarrow> orDefault (parseInt (e_value e)) 255)"
    by (simp add: extractWin9xSettings_def win9xDefaults_def split: list.splits)
  have "cd (volumes (foldl (win9xEntry isLegacy) win9xDefaults es)) =
     (case rev (filter (\<lambda>e. e_section e = 1 \<and> e_item e = 9) es) of
        [] \<Rightarrow> cd (volumes win9xDefaults) | e # _ \<Rightarrow> orDefault (parseInt (e_value e)) 128)"
    by (rule foldl_last_match [where g = "\<lambda>st. cd (volumes st)"]) (auto simp: win9xEntry_def)
  then show "cd (volumes (extractWin9xSettings es isLegacy)) =
     (case rev (filter (\<lambda>e. e_section e = 1 \<and> e_item e = 9) es) of
        [] \<Rightarrow> 128 | e # _ \<Rightarrow> orDefault (parseInt (e_value e)) 128)"
    by (simp add: extractWin9xSettings_def win9xDefaults_def split: list.splits)
qed

lemma orDefault_nonzero: "d \<noteq> 0 \<Longrightarrow> orDefault n d \<noteq> 0"
  by (simp add: orDefault_def split: number.splits)

subsection \<open>C2: the legacy alias of the Win9x resolution\<close>

text \<open>The older copy of the module still lists section 21 in its legacy tables,
  as \<open>voodoo\<close> with item 1 named \<open>9xres\<close>; there an entry (21, 1, v) does reach the
  settings map. The revision whose tables carry the suffix \<open>_2\<close> removed it.\<close>

lemma legacy_section21_older_tables:
  "convertEditConfToSettings [\<lparr>e_section = 21, e_item = 1, e_value = v\<rparr>] True
     = [(''voodoo'', [(''9xres'', v)])]"
  by (simp add: convertEditConfToSettings_def convertEntry_def
      SECTION_INDEX_LEGACY_def SECTION_ITEMS_LEGACY_def)

text \<open>
  C2, as stated, fails in its first half: not every entry list has the resolution of
  its entry (21, 1, v). The loop assigns the resolution at every entry at (21, 1) and
  at (1, 1), so a later one replaces it: the list (21, 1, "800x16"), (1, 1, "1024x32")
  gives 1024 by 768 at 32 bits, not the 800 by 600 at 16 bits of its entry (21, 1).
\<close>

theorem C2_later_entry_counterexample:
  "resolution (extractWin9xSettings
      [\<lparr>e_section = 21, e_item = 1, e_value = ''800x16''\<rparr>,
       \<lparr>e_section = 1, e_item = 1, e_value = ''1024x32''\<rparr>] True)
     = \<lparr>width = Num 1024, height = 768, bitsPerPixel = Num 32\<rparr>
   \<and> parse9xResolution ''800x16'' = \<lparr>width = Num 800, height = 600, bitsPerPixel = Num 16\<rparr>
   \<and> resolution (extractWin9xSettings
      [\<lparr>e_section = 21, e_item = 1, e_value = ''800x16''\<rparr>,
       \<lparr>e_section = 1, e_item = 1, e_value = ''1024x32''\<rparr>] True)
     \<noteq> parse9xResolution ''800x16''"
proof -
  have a: "resolution (extractWin9xSettings
      [\<lparr>e_section = 21, e_item = 1, e_value = ''800x16''\<rparr>,
       \<lparr>e_section = 1, e_item = 1, e_value = ''1024x32''\<rparr>] True)
     = \<lparr>width = Num 1024, height = 768, bitsPerPixel = Num 32\<rparr>"
    by code_simp
  have b: "parse9xResolution ''800x16''
     = \<lparr>width = Num 800, height = 600, bitsPerPixel = Num 16\<rparr>"
    by code_simp
  from a b show ?thesis
    by simp
qed

text \<open>
  C2, amended: with \<open>isLegacy = true\<close> the loop of \<open>extractWin9xSettings\<close> handles an
  entry (21, 1, v) before anything else and sets the resolution to
  \<open>parse9xResolution(v)\<close>, with no table lookup; the last entry at (21, 1) or (1, 1)
  decides, the default standing when there is none, so a list that ends in an entry
  (21, 1, v) has the resolution of v. The single entry (21, 1, "800x16") gives 800 by
  600 at 16 bits under the legacy schema and leaves the default under the current
  one; after (1, 1, "1024x32") it still gives 800 by 600 at 16 bits. The legacy
  registry of the module (the revision that removed the mapping) has no section 21:
  no item of it is found, the entries of section 21 make no difference to the
  settings map of \<open>convertEditConfToSettings\<close>, and one alone gives the empty map.
\<close>

theorem C2_legacy_resolution_alias:
  "win9xEntry True st \<lparr>e_section = 21, e_item = 1, e_value = v\<rparr>
     = st\<lparr>resolution := parse9xResolution v\<rparr>
   \<and> resolution (extractWin9xSettings (es @ [\<lparr>e_section = 21, e_item = 1, e_value = v\<rparr>]) True)
     = parse9xResolution v
   \<and> resolution (extractWin9xSettings es True)
     = (case rev (filter (\<lambda>e. (e_section e = 21 \<or> e_section e = 1) \<and> e_item e = 1) es) of
          [] \<Rightarrow> defaultResolution
        | e # _ \<Rightarrow> parse9xResolution (e_value e))
   \<and> resolution (extractWin9xSettings [\<lparr>e_section = 21, e_item = 1, e_value = ''800x16''\<rparr>] True)
     = \<lparr>width = Num 800, height = 600, bitsPerPixel = Num 16\<rparr>
   \<and> resolution (extractWin9xSettings
        [\<lparr>e_section = 1, e_item = 1, e_value = ''1024x32''\<rparr>,
         \<lparr>e_section = 21, e_item = 1, e_value = ''800x16''\<rparr>] True)
     = \<lparr>width = Num 800, height = 600, bitsPerPixel = Num 16\<rparr>
   \<and> resolution (extractWin9xSettings [\<lparr>e_section = 21, e_item = 1, e_value = ''800x16''\<rparr>] False)
     = \<lparr>width = Num 640, height = 480, bitsPerPixel = Num 8\<rparr>
   \<and> map_of SECTION_INDEX_LEGACY_2 21 = None
   \<and> map_of SECTION_ITEMS_LEGACY_2 21 = None
   \<and> lookupKey SECTION_INDEX_LEGACY_2 SECTION_ITEMS_LEGACY_2 21 i = None
   \<and> convertEditConfToSettings_2 es True
     = convertEditConfToSettings_2 (filter (\<lambda>e. e_section e \<noteq> 21) es) True
   \<and> convertEditConfToSettings_2 [\<lparr>e_section = 21, e_item = i, e_value = v\<rparr>] True = []"
proof -
  have step: "win9xEntry True st \<lparr>e_section = 21, e_item = 1, e_value = v\<rparr>
     = st\<lparr>resolution := parse9xResolution v\<rparr>"
    by (simp add: win9xEntry_def)
  have last: "resolution (extractWin9xSettings (es @ [\<lparr>e_section = 21, e_item = 1, e_value = v\<rparr>]) True)
     = parse9xResolution v"
    by (simp add: resolution_extract)
  have all: "resolution (extractWin9xSettings es True)
     = (case rev (filter (\<lambda>e. (e_section e = 21 \<or> e_section e = 1) \<and> e_item e = 1) es) of
          [] \<Rightarrow> defaultResolution
        | e # _ \<Rightarrow> parse9xResolution (e_value e))"
    by (simp add: resolution_extract)
  have ex1: "resolution (extractWin9xSettings
        [\<lparr>e_section = 21, e_item = 1, e_value = ''800x16''\<rparr>] True)
     = \<lparr>width = Num 800, height = 600, bitsPerPixel = Num 16\<rparr>"
    by code_simp
  have ex2: "resolution (extractWin9xSettings
        [\<lparr>e_section = 1, e_item = 1, e_value = ''1024x32''\<rparr>,
         \<lparr>e_section = 21, e_item = 1, e_value = ''800x16''\<rparr>] True)
     = \<lparr>width = Num 800, height = 600, bitsPerPixel = Num 16\<rparr>"
    by code_simp
  have ex3: "resolution (extractWin9xSettings
        [\<lparr>e_section = 21, e_item = 1, e_value = ''800x16''\<rparr>] False)
     = \<lparr>width = Num 640, height = 480, bitsPerPixel = Num 8\<rparr>"
    by code_simp
  have t1: "map_of SECTION_INDEX_LEGACY_2 21 = None"
    by (simp add: SECTION_INDEX_LEGACY_2_def)
  have t2: "map_of SECTION_ITEMS_LEGACY_2 21 = None"
    by (simp add: SECTION_ITEMS_LEGACY_2_def)
  have key: "lookupKey SECTION_INDEX_LEGACY_2 SECTION_ITEMS_LEGACY_2 21 j = None" for j
    by (simp add: lookupKey_def t1)
  have skip: "convertEntry SECTION_INDEX_LEGACY_2 SECTION_ITEMS_LEGACY_2 s e = s"
    if "\<not> e_section e \<noteq> 21" for s e
    using that key by (simp add: convertEntry_unknown)
  have conv: "convertEditConfToSettings_2 es True
     = convertEditConfToSettings_2 (filter (\<lambda>e. e_section e \<noteq> 21) es) True"
    unfolding convertEditConfToSettings_2_def if_True
    by (rule foldl_skip) (rule skip)
  have single: "convertEditConfToSettings_2 [\<lparr>e_section = 21, e_item = i, e_value = v\<rparr>] True = []"
    by (simp add: convertEditConfToSettings_2_def convertEntry_unknown key)
  from step last all ex1 ex2 ex3 t1 t2 key conv single show ?thesis
    by simp
qed

subsection \<open>C3: which lines are entries\<close>

lemma parseInt_after_ver:
  "startsWith (a @ CHR ''|'' # rest) ''ver.'' \<Longrightarrow> parseInt a = NaN"
proof (cases a)
  case Nil
  then show ?thesis
    by (simp add: parseInt_def)
next
  case (Cons x a')
  assume "startsWith (a @ CHR ''|'' # rest) ''ver.''"
  with Cons have "x = CHR ''v''"
    by (simp add: startsWith_def)
  with Cons show ?thesis
    by (simp add: parseInt_def startsWith_def isWhiteSpace_def isDigit_def)
qed

lemma parseEditConfLine_two_bars:
  assumes t: "js_trim line = a @ CHR ''|'' # b @ CHR ''|'' # c"
    and a: "CHR ''|'' \<notin> set a" and b: "CHR ''|'' \<notin> set b"
  shows "parseEditConfLine line =
     (case (parseInt a, parseInt b) of
        (Num sect, Num itm) \<Rightarrow> Some \<lparr>e_section = sect, e_item = itm, e_value = c\<rparr>
      | _ \<Rightarrow> None)"
proof -
  obtain p ps where c: "js_split CHR ''|'' c = p # ps"
    using js_split_nonempty [of "CHR ''|''" c] by (cases "js_split CHR ''|'' c") auto
  have parts: "js_split CHR ''|'' (js_trim line) = a # b # js_split CHR ''|'' c"
    using a b by (simp add: t js_split_at_sep)
  have join: "js_join ''|'' (js_split CHR ''|'' c) = c"
    by (rule js_join_split)
  show ?thesis
  proof (cases "startsWith (js_trim line) ''ver.''")
    case True
    then have "parseInt a = NaN"
      unfolding t by (rule parseInt_after_ver)
    with True show ?thesis
      by (simp add: parseEditConfLine_def)
  next
    case False
    have ne: "js_trim line \<noteq> []"
      by (simp add: t)
    have len: "3 \<le> length (js_split CHR ''|'' (js_trim line))"
      by (simp add: parts c)
    have dr: "drop 2 (js_split CHR ''|'' (js_trim line)) = js_split CHR ''|'' c"
      by (simp add: parts numeral_2_eq_2)
    have nth: "js_split CHR ''|'' (js_trim line) ! 0 = a" "js_split CHR ''|'' (js_trim line) ! Suc 0 = b"
      by (simp_all add: parts)
    show ?thesis
      using False ne
      by (simp add: parseEditConfLine_def Let_def len dr nth join split: number.splits)
  qed
qed

lemma parseEditConfLine_few_bars:
  assumes "length (filter (\<lambda>x. x = CHR ''|'') (js_trim line)) < 2"
  shows "parseEditConfLine line = None"
proof -
  have "length (js_split CHR ''|'' (js_trim line)) < 3"
    using assms by (simp add: length_js_split)
  then show ?thesis
    by (simp add: parseEditConfLine_def Let_def)
qed

lemma two_seps_decompose:
  assumes "2 \<le> length (filter (\<lambda>x. x = sep) t)"
  shows "\<exists>a b c. t = a @ sep # b @ sep # c \<and> sep \<notin> set a \<and> sep \<notin> set b"
proof -
  from assms have "filter (\<lambda>x. x = sep) t \<noteq> []"
    by auto
  then have "sep \<in> set t"
    by (auto simp: filter_empty_conv)
  then obtain a r where t: "t = a @ sep # r" and a: "sep \<notin> set a"
    by (auto dest: split_list_first)
  from a have "filter (\<lambda>x. x = sep) a = []"
    by (auto simp: filter_empty_conv)
  with assms t have "filter (\<lambda>x. x = sep) r \<noteq> []"
    by auto
  then have "sep \<in> set r"
    by (auto simp: filter_empty_conv)
  then obtain b c where r: "r = b @ sep # c" and b: "sep \<notin> set b"
    by (auto dest: split_list_first)
  from t r a b show ?thesis
    by blast
qed

lemma parseEditConfLine_accepts:
  "(parseEditConfLine line \<noteq> None) =
     (\<exists>a b c. js_trim line = a @ CHR ''|'' # b @ CHR ''|'' # c
        \<and> CHR ''|'' \<notin> set a \<and> CHR ''|'' \<notin> set b
        \<and> parseInt a \<noteq> NaN \<and> parseInt b \<noteq> NaN)"
proof
  assume acc: "parseEditConfLine line \<noteq> None"
  have "\<not> length (filter (\<lambda>x. x = CHR ''|'') (js_trim line)) < 2"
    using acc parseEditConfLine_few_bars [of line] by auto
  then have "2 \<le> length (filter (\<lambda>x. x = CHR ''|'') (js_trim line))"
    by simp
  from two_seps_decompose [OF this] obtain a b c
    where d: "js_trim line = a @ CHR ''|'' # b @ CHR ''|'' # c"
      "CHR ''|'' \<notin> set a" "CHR ''|'' \<notin> set b"
    by blast
  from acc parseEditConfLine_two_bars [OF d]
  have "parseInt a \<noteq> NaN \<and> parseInt b \<noteq> NaN"
    by (auto split: number.splits)
  with d show "\<exists>a b c. js_trim line = a @ CHR ''|'' # b @ CHR ''|'' # c
        \<and> CHR ''|'' \<notin> set a \<and> CHR ''|'' \<notin> set b
        \<and> parseInt a \<noteq> NaN \<and> parseInt b \<noteq> NaN"
    by blast
next
  assume "\<exists>a b c. js_trim line = a @ CHR ''|'' # b @ CHR ''|'' # c
        \<and> CHR ''|'' \<notin> set a \<and> CHR ''|'' \<notin> set b
        \<and> parseInt a \<noteq> NaN \<and> parseInt b \<noteq> NaN"
  then obtain a b c
    where d: "js_trim line = a @ CHR ''|'' # b @ CHR ''|'' # c"
      "CHR ''|'' \<notin> set a" "CHR ''|'' \<notin> set b"
      and n: "parseInt a \<noteq> NaN" "parseInt b \<noteq> NaN"
    by blast
  from n parseEditConfLine_two_bars [OF d] show "parseEditConfLine line \<noteq> None"
    by (auto split: number.splits)
qed

text \<open>
  C3, as stated, fails: the two index parts go through \<open>parseInt(_, 10)\<close> and only
  \<open>NaN\<close> is rejected, so a negative index is accepted. The line \<open>-1|-2|x\<close> is an
  entry with section \<open>-1\<close> and item \<open>-2\<close>.
\<close>

theorem C3_negative_index_counterexample:
  "parseEditConf ''-1|-2|x'' = [\<lparr>e_section = - 1, e_item = - 2, e_value = ''x''\<rparr>]
   \<and> \<not> (0 \<le> e_section (hd (parseEditConf ''-1|-2|x'')))"
  by code_simp

text \<open>
  C3, amended: a line is an entry if and only if, once trimmed, it holds at least two
  \<open>|\<close> and \<open>parseInt(_, 10)\<close> of the text before the first \<open>|\<close> and of the text
  between the first and the second is not \<open>NaN\<close> (each, after optional white space
  and one optional sign, starts with a decimal digit; what follows the digits is
  ignored, and a negative number is accepted). The entry carries the two parsed
  numbers, and its value is everything after the second \<open>|\<close> of the trimmed line, the
  \<open>|\<close> in it kept. A content of one line gives the list of that entry, or the empty
  list.
\<close>

theorem C3_entry_line:
  "(parseEditConfLine line \<noteq> None) =
     (\<exists>a' b' c'. js_trim line = a' @ CHR ''|'' # b' @ CHR ''|'' # c'
        \<and> CHR ''|'' \<notin> set a' \<and> CHR ''|'' \<notin> set b'
        \<and> parseInt a' \<noteq> NaN \<and> parseInt b' \<noteq> NaN)
   \<and> (js_trim line = a @ CHR ''|'' # b @ CHR ''|'' # c
       \<and> CHR ''|'' \<notin> set a \<and> CHR ''|'' \<notin> set b
     \<longrightarrow> parseEditConfLine line =
         (case (parseInt a, parseInt b) of
            (Num sect, Num itm) \<Rightarrow> Some \<lparr>e_section = sect, e_item = itm, e_value = c\<rparr>
          | _ \<Rightarrow> None))
   \<and> (length (filter (\<lambda>x. x = CHR ''|'') (js_trim line)) < 2
     \<longrightarrow> parseEditConfLine line = None)
   \<and> (CHR 0x0A \<notin> set line
     \<longrightarrow> parseEditConf line = (case parseEditConfLine line of None \<Rightarrow> [] | Some e \<Rightarrow> [e]))
   \<and> parseEditConfLine '' 12abc|+3|x|y '' = Some \<lparr>e_section = 12, e_item = 3, e_value = ''x|y''\<rparr>
   \<and> parseEditConfLine ''a|3|x'' = None"
proof -
  have one: "parseEditConf line = (case parseEditConfLine line of None \<Rightarrow> [] | Some e \<Rightarrow> [e])"
    if "CHR 0x0A \<notin> set line"
    using that
    by (simp add: parseEditConf_def js_split_no_sep List.map_filter_simps split: option.splits)
  have ex1: "parseEditConfLine '' 12abc|+3|x|y ''
      = Some \<lparr>e_section = 12, e_item = 3, e_value = ''x|y''\<rparr>"
    by code_simp
  have ex2: "parseEditConfLine ''a|3|x'' = None"
    by code_simp
  show ?thesis
    using parseEditConfLine_accepts [of line]
      parseEditConfLine_two_bars [of line a b c] parseEditConfLine_few_bars [of line]
      one ex1 ex2
    by blast
qed

theorem C3_entry_line_witness:
  "js_trim ''7|3|a|b'' = ''7'' @ CHR ''|'' # ''3'' @ CHR ''|'' # ''a|b''
   \<and> CHR ''|'' \<notin> set ''7'' \<and> CHR ''|'' \<notin> set ''3''
   \<and> parseEditConfLine ''7|3|a|b'' = Some \<lparr>e_section = 7, e_item = 3, e_value = ''a|b''\<rparr>
   \<and> length (filter (\<lambda>x. x = CHR ''|'') (js_trim ''7|3'')) < 2
   \<and> parseEditConfLine ''7|3'' = None
   \<and> CHR 0x0A \<notin> set ''7|3|a|b''
   \<and> parseEditConf ''7|3|a|b'' = [\<lparr>e_section = 7, e_item = 3, e_value = ''a|b''\<rparr>]"
proof -
  have t: "js_trim ''7|3|a|b'' = ''7'' @ CHR ''|'' # ''3'' @ CHR ''|'' # ''a|b''"
    by code_simp
  have p: "parseInt ''7'' = Num 7" "parseInt ''3'' = Num 3"
    by code_simp+
  have few: "length (filter (\<lambda>x. x = CHR ''|'') (js_trim ''7|3'')) < 2"
    by code_simp
  have r1: "parseEditConfLine ''7|3|a|b'' = Some \<lparr>e_section = 7, e_item = 3, e_value = ''a|b''\<rparr>"
    using C3_entry_line [of "''7|3|a|b''" "''7''" "''3''" "''a|b''"] t p by simp
  have r2: "parseEditConfLine ''7|3'' = None"
    using C3_entry_line [of "''7|3''"] few by blast
  have r3: "parseEditConf ''7|3|a|b'' = [\<lparr>e_section = 7, e_item = 3, e_value = ''a|b''\<rparr>]"
    using C3_entry_line [of "''7|3|a|b''"] r1 by simp
  from t few r1 r2 r3 show ?thesis
    by simp
qed

subsection \<open>C4: the version marker\<close>

lemma versionOfLines_skip:
  "list_all (\<lambda>l. \<not> startsWith (js_trim l) ''ver.'') pre
     \<Longrightarrow> versionOfLines (pre @ rest) = versionOfLines rest"
  by (induction pre) (simp_all add: Let_def)

lemma versionOfLines_marker:
  "startsWith (js_trim line) ''ver.''
     \<Longrightarrow> versionOfLines (line # post)
         = (case parseInt (filter (\<lambda>c. c \<noteq> CHR ''.'') (drop 4 (js_trim line))) of
              NaN \<Rightarrow> 0 | Num version \<Rightarrow> version)"
  by (simp add: Let_def)

lemma parseInt_no_digit:
  "t = [] \<or> (\<not> isDigit (hd t) \<and> \<not> isWhiteSpace (hd t) \<and> hd t \<noteq> CHR ''-'' \<and> hd t \<noteq> CHR ''+'')
     \<Longrightarrow> parseInt t = NaN"
  by (cases t) (auto simp: parseInt_def startsWith_def Let_def)

lemma parseInt_digit_prefix:
  assumes ne: "ds \<noteq> []" and all: "list_all isDigit ds"
    and stop: "rest = [] \<or> \<not> isDigit (hd rest)"
  shows "parseInt (ds @ rest) = Num (numberValue (digitsVal ds))"
proof -
  from ne obtain d ds' where ds: "ds = d # ds'"
    by (cases ds) auto
  from all ds have d: "isDigit d"
    by simp
  then have nw: "\<not> isWhiteSpace d" and nm: "d \<noteq> CHR ''-''" and np: "d \<noteq> CHR ''+''"
    by (auto simp: isDigit_def isWhiteSpace_def)
  have "takeWhile isDigit rest = []"
    using stop by (cases rest) auto
  then have tw: "takeWhile isDigit (ds @ rest) = ds"
    using all by (induction ds) auto
  have dw: "dropWhile isWhiteSpace (ds @ rest) = ds @ rest"
    using nw ds by simp
  have st: "\<not> startsWith (ds @ rest) ''-''" "\<not> startsWith (ds @ rest) ''+''"
    using nm np ds by (simp_all add: startsWith_def)
  show ?thesis
    using ne by (simp add: parseInt_def Let_def dw st tw)
qed

text \<open>
  C4, as stated, fails for a marker that is malformed against \<open>ver.YY.MM.DD\<close> and
  that \<open>parseInt\<close> still reads in part: \<open>ver.23.01.10b\<close> is not of the form, and it
  parses to 230110, not to 0, and is classified current, not legacy.
\<close>

theorem C4_partly_read_marker_counterexample:
  "\<not> specVersionForm ''ver.23.01.10b''
   \<and> parseEditConfVersion ''ver.23.01.10b'' = 230110
   \<and> parseEditConfVersion ''ver.23.01.10b'' \<noteq> 0
   \<and> \<not> isLegacyVersion (parseEditConfVersion ''ver.23.01.10b'')"
proof -
  have a: "\<not> specVersionForm ''ver.23.01.10b''"
    by (simp add: specVersionForm_def)
  have b: "parseEditConfVersion ''ver.23.01.10b'' = 230110"
    by code_simp
  from a b show ?thesis
    by (simp add: isLegacyVersion_def)
qed

text \<open>
  C4, amended: \<open>ver.21.12.31\<close> parses to 211231, which is legacy; \<open>ver.22.00.00\<close>
  parses to 220000, which is current, the threshold being \<open>version < 220000\<close>. The
  marker is the first line of the content that starts with \<open>ver.\<close> once trimmed, and
  the version is what \<open>parseInt\<close> reads from its text after \<open>ver.\<close>, the dots
  removed. When that text is empty or starts with a character that is no digit, sign
  or white space, and whenever \<open>parseInt\<close> gives \<open>NaN\<close>, the version is 0, which
  is legacy. When the text starts with a run of digits, the version is the number of
  that run, whatever follows it, and the threshold classifies it: \<open>ver.22x\<close> has
  version 22 (legacy), \<open>ver.2023.01.10\<close> has version 20230110 (current). A content
  without a marker has version 0. The function has no failing path: every branch
  returns a number.
\<close>

theorem C4_version_classification:
  "parseEditConfVersion ''ver.21.12.31'' = 211231 \<and> isLegacyVersion 211231
   \<and> parseEditConfVersion ''ver.22.00.00'' = 220000 \<and> \<not> isLegacyVersion 220000
   \<and> parseEditConfVersion ''ver.22x'' = 22 \<and> isLegacyVersion 22
   \<and> parseEditConfVersion ''ver.2023.01.10'' = 20230110 \<and> \<not> isLegacyVersion 20230110
   \<and> parseEditConfVersion ''ver.YY.MM.DD'' = 0 \<and> isLegacyVersion 0
   \<and> (\<forall>v. isLegacyVersion v = (v < 220000))
   \<and> (\<forall>content pre line post.
         js_split CHR 0x0A content = pre @ line # post
         \<and> list_all (\<lambda>l. \<not> startsWith (js_trim l) ''ver.'') pre
         \<and> startsWith (js_trim line) ''ver.''
         \<and> parseInt (filter (\<lambda>c. c \<noteq> CHR ''.'') (drop 4 (js_trim line))) = NaN
        \<longrightarrow> parseEditConfVersion content = 0
            \<and> isLegacyVersion (parseEditConfVersion content))
   \<and> (\<forall>content pre line post v.
         js_split CHR 0x0A content = pre @ line # post
         \<and> list_all (\<lambda>l. \<not> startsWith (js_trim l) ''ver.'') pre
         \<and> startsWith (js_trim line) ''ver.''
         \<and> parseInt (filter (\<lambda>c. c \<noteq> CHR ''.'') (drop 4 (js_trim line))) = Num v
        \<longrightarrow> parseEditConfVersion content = v)
   \<and> (\<forall>content pre line post t.
         js_split CHR 0x0A content = pre @ line # post
         \<and> list_all (\<lambda>l. \<not> startsWith (js_trim l) ''ver.'') pre
         \<and> startsWith (js_trim line) ''ver.''
         \<and> filter (\<lambda>c. c \<noteq> CHR ''.'') (drop 4 (js_trim line)) = t
         \<and> (t = [] \<or> (\<not> isDigit (hd t) \<and> \<not> isWhiteSpace (hd t)
                        \<and> hd t \<noteq> CHR ''-'' \<and> hd t \<noteq> CHR ''+''))
        \<longrightarrow> parseEditConfVersion content = 0
            \<and> isLegacyVersion (parseEditConfVersion content))
   \<and> (\<forall>content pre line post ds rest.
         js_split CHR 0x0A content = pre @ line # post
         \<and> list_all (\<lambda>l. \<not> startsWith (js_trim l) ''ver.'') pre
         \<and> startsWith (js_trim line) ''ver.''
         \<and> filter (\<lambda>c. c \<noteq> CHR ''.'') (drop 4 (js_trim line)) = ds @ rest
         \<and> ds \<noteq> [] \<and> list_all isDigit ds \<and> (rest = [] \<or> \<not> isDigit (hd rest))
        \<longrightarrow> parseEditConfVersion content = numberValue (digitsVal ds)
            \<and> (digitsVal ds < 2 ^ 53 \<longrightarrow> parseEditConfVersion content = digitsVal ds))
   \<and> (\<forall>content.
         list_all (\<lambda>l. \<not> startsWith (js_trim l) ''ver.'') (js_split CHR 0x0A content)
        \<longrightarrow> parseEditConfVersion content = 0)"
proof -
  have a: "parseEditConfVersion ''ver.21.12.31'' = 211231"
    by code_simp
  have b: "parseEditConfVersion ''ver.22.00.00'' = 220000"
    by code_simp
  have b1: "parseEditConfVersion ''ver.22x'' = 22"
    by code_simp
  have b2: "parseEditConfVersion ''ver.2023.01.10'' = 20230110"
    by code_simp
  have b3: "parseEditConfVersion ''ver.YY.MM.DD'' = 0"
    by code_simp
  have first: "parseEditConfVersion content
      = (case parseInt (filter (\<lambda>c. c \<noteq> CHR ''.'') (drop 4 (js_trim line))) of
           NaN \<Rightarrow> 0 | Num version \<Rightarrow> version)"
    if split: "js_split CHR 0x0A content = pre @ line # post"
      and pre: "list_all (\<lambda>l. \<not> startsWith (js_trim l) ''ver.'') pre"
      and marker: "startsWith (js_trim line) ''ver.''"
    for content pre line post
  proof -
    have "parseEditConfVersion content = versionOfLines (line # post)"
      using split pre by (simp add: parseEditConfVersion_def versionOfLines_skip)
    also have "\<dots> = (case parseInt (filter (\<lambda>c. c \<noteq> CHR ''.'') (drop 4 (js_trim line))) of
           NaN \<Rightarrow> 0 | Num version \<Rightarrow> version)"
      using marker by (rule versionOfLines_marker)
    finally show ?thesis .
  qed
  have c: "parseEditConfVersion content = 0 \<and> isLegacyVersion (parseEditConfVersion content)"
    if "js_split CHR 0x0A content = pre @ line # post"
      and "list_all (\<lambda>l. \<not> startsWith (js_trim l) ''ver.'') pre"
      and "startsWith (js_trim line) ''ver.''"
      and nan: "parseInt (filter (\<lambda>c. c \<noteq> CHR ''.'') (drop 4 (js_trim line))) = NaN"
    for content pre line post
    using first [OF that(1-3)] nan by (simp add: isLegacyVersion_def)
  have d: "parseEditConfVersion content = v"
    if "js_split CHR 0x0A content = pre @ line # post"
      and "list_all (\<lambda>l. \<not> startsWith (js_trim l) ''ver.'') pre"
      and "startsWith (js_trim line) ''ver.''"
      and num: "parseInt (filter (\<lambda>c. c \<noteq> CHR ''.'') (drop 4 (js_trim line))) = Num v"
    for content pre line post v
    using first [OF that(1-3)] num by simp
  have c': "parseEditConfVersion content = 0 \<and> isLegacyVersion (parseEditConfVersion content)"
    if "js_split CHR 0x0A content = pre @ line # post"
      and "list_all (\<lambda>l. \<not> startsWith (js_trim l) ''ver.'') pre"
      and "startsWith (js_trim line) ''ver.''"
      and t: "filter (\<lambda>c. c \<noteq> CHR ''.'') (drop 4 (js_trim line)) = t"
      and nd: "t = [] \<or> (\<not> isDigit (hd t) \<and> \<not> isWhiteSpace (hd t)
                        \<and> hd t \<noteq> CHR ''-'' \<and> hd t \<noteq> CHR ''+'')"
    for content pre line post t
  proof -
    from nd have "parseInt t = NaN"
      by (rule parseInt_no_digit)
    with t have "parseInt (filter (\<lambda>c. c \<noteq> CHR ''.'') (drop 4 (js_trim line))) = NaN"
      by simp
    with that(1-3) show ?thesis
      by (rule c)
  qed
  have d': "parseEditConfVersion content = numberValue (digitsVal ds)
            \<and> (digitsVal ds < 2 ^ 53 \<longrightarrow> parseEditConfVersion content = digitsVal ds)"
    if "js_split CHR 0x0A content = pre @ line # post"
      and "list_all (\<lambda>l. \<not> startsWith (js_trim l) ''ver.'') pre"
      and "startsWith (js_trim line) ''ver.''"
      and t: "filter (\<lambda>c. c \<noteq> CHR ''.'') (drop 4 (js_trim line)) = ds @ rest"
      and ds: "ds \<noteq> []" "list_all isDigit ds" "rest = [] \<or> \<not> isDigit (hd rest)"
    for content pre line post ds rest
  proof -
    from ds have "parseInt (ds @ rest) = Num (numberValue (digitsVal ds))"
      by (rule parseInt_digit_prefix)
    with t have "parseInt (filter (\<lambda>c. c \<noteq> CHR ''.'') (drop 4 (js_trim line)))
        = Num (numberValue (digitsVal ds))"
      by simp
    with that(1-3) have v: "parseEditConfVersion content = numberValue (digitsVal ds)"
      by (rule d)
    have "0 \<le> digitsVal ds"
      using ds(2) by (rule digitsVal_nonneg)
    then have "digitsVal ds < 2 ^ 53 \<Longrightarrow> numberValue (digitsVal ds) = digitsVal ds"
      by (simp add: numberValue_exact)
    with v show ?thesis
      by simp
  qed
  have e: "parseEditConfVersion content = 0"
    if "list_all (\<lambda>l. \<not> startsWith (js_trim l) ''ver.'') (js_split CHR 0x0A content)"
    for content
    using versionOfLines_skip [OF that, of "[]"] by (simp add: parseEditConfVersion_def)
  have f: "\<forall>v. isLegacyVersion v = (v < 220000)"
    by (simp add: isLegacyVersion_def)
  have g: "isLegacyVersion 211231" "\<not> isLegacyVersion 220000" "isLegacyVersion 22"
    "\<not> isLegacyVersion 20230110" "isLegacyVersion 0"
    by (simp_all add: isLegacyVersion_def)
  have q1: "\<forall>content pre line post.
         js_split CHR 0x0A content = pre @ line # post
         \<and> list_all (\<lambda>l. \<not> startsWith (js_trim l) ''ver.'') pre
         \<and> startsWith (js_trim line) ''ver.''
         \<and> parseInt (filter (\<lambda>c. c \<noteq> CHR ''.'') (drop 4 (js_trim line))) = NaN
        \<longrightarrow> parseEditConfVersion content = 0
            \<and> isLegacyVersion (parseEditConfVersion content)"
    using c by blast
  have q2: "\<forall>content pre line post v.
         js_split CHR 0x0A content = pre @ line # post
         \<and> list_all (\<lambda>l. \<not> startsWith (js_trim l) ''ver.'') pre
         \<and> startsWith (js_trim line) ''ver.''
         \<and> parseInt (filter (\<lambda>c. c \<noteq> CHR ''.'') (drop 4 (js_trim line))) = Num v
        \<longrightarrow> parseEditConfVersion content = v"
    using d by blast
  have q3: "\<forall>content pre line post t.
         js_split CHR 0x0A content = pre @ line # post
         \<and> list_all (\<lambda>l. \<not> startsWith (js_trim l) ''ver.'') pre
         \<and> startsWith (js_trim line) ''ver.''
         \<and> filter (\<lambda>c. c \<noteq> CHR ''.'') (drop 4 (js_trim line)) = t
         \<and> (t = [] \<or> (\<not> isDigit (hd t) \<and> \<not> isWhiteSpace (hd t)
                        \<and> hd t \<noteq> CHR ''-'' \<and> hd t \<noteq> CHR ''+''))
        \<longrightarrow> parseEditConfVersion content = 0
            \<and> isLegacyVersion (parseEditConfVersion content)"
  proof (intro allI impI, elim conjE)
    fix content pre line post t
    assume "js_split CHR 0x0A content = pre @ line # post"
      "list_all (\<lambda>l. \<not> startsWith (js_trim l) ''ver.'') pre"
      "startsWith (js_trim line) ''ver.''"
      "filter (\<lambda>c. c \<noteq> CHR ''.'') (drop 4 (js_trim line)) = t"
      "t = [] \<or> (\<not> isDigit (hd t) \<and> \<not> isWhiteSpace (hd t)
                        \<and> hd t \<noteq> CHR ''-'' \<and> hd t \<noteq> CHR ''+'')"
    then show "parseEditConfVersion content = 0
            \<and> isLegacyVersion (parseEditConfVersion content)"
      by (rule c')
  qed
  have q4: "\<forall>content pre line post ds rest.
         js_split CHR 0x0A content = pre @ line # post
         \<and> list_all (\<lambda>l. \<not> startsWith (js_trim l) ''ver.'') pre
         \<and> startsWith (js_trim line) ''ver.''
         \<and> filter (\<lambda>c. c \<noteq> CHR ''.'') (drop 4 (js_trim line)) = ds @ rest
         \<and> ds \<noteq> [] \<and> list_all isDigit ds \<and> (rest = [] \<or> \<not> isDigit (hd rest))
        \<longrightarrow> parseEditConfVersion content = numberValue (digitsVal ds)
            \<and> (digitsVal ds < 2 ^ 53 \<longrightarrow> parseEditConfVersion content = digitsVal ds)"
  proof (intro allI impI, elim conjE)
    fix content pre line post ds rest
    assume "js_split CHR 0x0A content = pre @ line # post"
      "list_all (\<lambda>l. \<not> startsWith (js_trim l) ''ver.'') pre"
      "startsWith (js_trim line) ''ver.''"
      "filter (\<lambda>c. c \<noteq> CHR ''.'') (drop 4 (js_trim line)) = ds @ rest"
      "ds \<noteq> []" "list_all isDigit ds" "rest = [] \<or> \<not> isDigit (hd rest)"
    then show "parseEditConfVersion content = numberValue (digitsVal ds)
            \<and> (digitsVal ds < 2 ^ 53 \<longrightarrow> parseEditConfVersion content = digitsVal ds)"
      by (rule d')
  qed
  have q5: "\<forall>content.
         list_all (\<lambda>l. \<not> startsWith (js_trim l) ''ver.'') (js_split CHR 0x0A content)
        \<longrightarrow> parseEditConfVersion content = 0"
    using e by blast
  from a g(1) b g(2) b1 g(3) b2 g(4) b3 g(5) f q1 q2 q3 q4 q5 show ?thesis
    by (intro conjI)
qed

theorem C4_version_classification_witness:
  "js_split CHR 0x0A (''1|2|3'' @ [CHR 0x0A] @ ''ver.ab.cd.ef'')
       = [''1|2|3''] @ ''ver.ab.cd.ef'' # []
   \<and> list_all (\<lambda>l. \<not> startsWith (js_trim l) ''ver.'') [''1|2|3'']
   \<and> startsWith (js_trim ''ver.ab.cd.ef'') ''ver.''
   \<and> parseInt (filter (\<lambda>c. c \<noteq> CHR ''.'') (drop 4 (js_trim ''ver.ab.cd.ef''))) = NaN
   \<and> parseEditConfVersion (''1|2|3'' @ [CHR 0x0A] @ ''ver.ab.cd.ef'') = 0
   \<and> isLegacyVersion (parseEditConfVersion (''1|2|3'' @ [CHR 0x0A] @ ''ver.ab.cd.ef''))
   \<and> js_split CHR 0x0A (''1|2|3'' @ [CHR 0x0A] @ '' ver.23.01.10b'')
       = [''1|2|3''] @ '' ver.23.01.10b'' # []
   \<and> startsWith (js_trim '' ver.23.01.10b'') ''ver.''
   \<and> filter (\<lambda>c. c \<noteq> CHR ''.'') (drop 4 (js_trim '' ver.23.01.10b'')) = ''230110'' @ ''b''
   \<and> list_all isDigit ''230110''
   \<and> digitsVal ''230110'' < 2 ^ 53
   \<and> parseEditConfVersion (''1|2|3'' @ [CHR 0x0A] @ '' ver.23.01.10b'') = digitsVal ''230110''
   \<and> digitsVal ''230110'' = 230110"
proof -
  have h1: "js_split CHR 0x0A (''1|2|3'' @ [CHR 0x0A] @ ''ver.ab.cd.ef'')
              = [''1|2|3''] @ ''ver.ab.cd.ef'' # []"
    by simp
  have h2: "list_all (\<lambda>l. \<not> startsWith (js_trim l) ''ver.'') [''1|2|3'']"
    by code_simp
  have h3: "startsWith (js_trim ''ver.ab.cd.ef'') ''ver.''"
    by code_simp
  have h4: "parseInt (filter (\<lambda>c. c \<noteq> CHR ''.'') (drop 4 (js_trim ''ver.ab.cd.ef''))) = NaN"
    by code_simp
  have k1: "js_split CHR 0x0A (''1|2|3'' @ [CHR 0x0A] @ '' ver.23.01.10b'')
       = [''1|2|3''] @ '' ver.23.01.10b'' # []"
    by simp
  have k3: "startsWith (js_trim '' ver.23.01.10b'') ''ver.''"
    by code_simp
  have k4: "filter (\<lambda>c. c \<noteq> CHR ''.'') (drop 4 (js_trim '' ver.23.01.10b'')) = ''230110'' @ ''b''"
    by code_simp
  have k5: "''230110'' \<noteq> []" "list_all isDigit ''230110''"
    "''b'' = [] \<or> \<not> isDigit (hd ''b'')"
    by (simp_all add: isDigit_def)
  have k6: "digitsVal ''230110'' = 230110"
    by code_simp
  have k7: "digitsVal ''230110'' < 2 ^ 53"
    unfolding k6 by simp
  have q1: "\<forall>content pre line post.
         js_split CHR 0x0A content = pre @ line # post
         \<and> list_all (\<lambda>l. \<not> startsWith (js_trim l) ''ver.'') pre
         \<and> startsWith (js_trim line) ''ver.''
         \<and> parseInt (filter (\<lambda>c. c \<noteq> CHR ''.'') (drop 4 (js_trim line))) = NaN
        \<longrightarrow> parseEditConfVersion content = 0
            \<and> isLegacyVersion (parseEditConfVersion content)"
    using C4_version_classification by (elim conjE)
  have q4: "\<forall>content pre line post ds rest.
         js_split CHR 0x0A content = pre @ line # post
         \<and> list_all (\<lambda>l. \<not> startsWith (js_trim l) ''ver.'') pre
         \<and> startsWith (js_trim line) ''ver.''
         \<and> filter (\<lambda>c. c \<noteq> CHR ''.'') (drop 4 (js_trim line)) = ds @ rest
         \<and> ds \<noteq> [] \<and> list_all isDigit ds \<and> (rest = [] \<or> \<not> isDigit (hd rest))
        \<longrightarrow> parseEditConfVersion content = numberValue (digitsVal ds)
            \<and> (digitsVal ds < 2 ^ 53 \<longrightarrow> parseEditConfVersion content = digitsVal ds)"
    using C4_version_classification by (elim conjE)
  from q1 h1 h2 h3 h4
  have r1: "parseEditConfVersion (''1|2|3'' @ [CHR 0x0A] @ ''ver.ab.cd.ef'') = 0
      \<and> isLegacyVersion (parseEditConfVersion (''1|2|3'' @ [CHR 0x0A] @ ''ver.ab.cd.ef''))"
    by blast
  from q4 k1 h2 k3 k4 k5 k7
  have r2: "parseEditConfVersion (''1|2|3'' @ [CHR 0x0A] @ '' ver.23.01.10b'')
      = digitsVal ''230110''"
    by blast
  from h1 h2 h3 h4 r1 k1 k3 k4 k5(2) k7 r2 k6 show ?thesis
    by blast
qed

subsection \<open>The order of Object.entries\<close>

lemma set_ownEntries [simp]: "set (ownEntries ps) = set ps"
  by (auto simp: ownEntries_def)

lemma distinct_ownEntries: "distinct ps \<Longrightarrow> distinct (ownEntries ps)"
  by (auto simp: ownEntries_def)

lemma distinct_fst_ownEntries:
  assumes "distinct (map fst ps)"
  shows "distinct (map fst (ownEntries ps))"
proof -
  from assms have "distinct ps" and "inj_on fst (set ps)"
    by (simp_all add: distinct_map)
  then have "distinct (ownEntries ps)" and "inj_on fst (set (ownEntries ps))"
    by (simp_all add: distinct_ownEntries)
  then show ?thesis
    by (simp add: distinct_map)
qed

lemma map_of_ownEntries:
  assumes "distinct (map fst ps)"
  shows "map_of (ownEntries ps) = map_of ps"
proof -
  have "set (ownEntries ps) = set ps"
    by simp
  with map_of_inject_set [OF distinct_fst_ownEntries [OF assms] assms] show ?thesis
    by simp
qed

lemma insort_key_map:
  assumes "\<And>x. k (f x) = k' x"
  shows "insort_key k (f x) (map f xs) = map f (insort_key k' x xs)"
  by (induction xs) (simp_all add: assms)

lemma sort_key_map:
  assumes "\<And>x. k (f x) = k' x"
  shows "sort_key k (map f xs) = map f (sort_key k' xs)"
  by (induction xs) (simp_all add: insort_key_map [of k f k', OF assms])

lemma ownEntries_map:
  assumes "\<And>p. fst (f p) = fst p"
  shows "ownEntries (map f ps) = map f (ownEntries ps)"
proof -
  have a: "filter (\<lambda>p. isArrayIndex (fst p)) (map f ps)
      = map f (filter (\<lambda>p. isArrayIndex (fst p)) ps)"
    by (simp add: filter_map o_def assms)
  have b: "filter (\<lambda>p. \<not> isArrayIndex (fst p)) (map f ps)
      = map f (filter (\<lambda>p. \<not> isArrayIndex (fst p)) ps)"
    by (simp add: filter_map o_def assms)
  have c: "sort_key (\<lambda>p. digitsVal (fst p)) (map f xs)
      = map f (sort_key (\<lambda>p. digitsVal (fst p)) xs)" for xs
    by (rule sort_key_map) (simp add: assms)
  show ?thesis
    by (simp add: ownEntries_def a b c)
qed

subsection \<open>Reading the store\<close>

lemma sectionAt_append:
  "sectionAt (h @ [ob]) r =
     (if r < length h then sectionAt h r
      else if r = length h then (case ob of SectionObj kvs \<Rightarrow> Some kvs | SettingsObj _ \<Rightarrow> None)
      else None)"
  by (auto simp: sectionAt_def nth_append)

lemma settingsAt_append:
  "settingsAt (h @ [ob]) r =
     (if r < length h then settingsAt h r
      else if r = length h then (case ob of SettingsObj ps \<Rightarrow> Some ps | SectionObj _ \<Rightarrow> None)
      else None)"
  by (auto simp: settingsAt_def nth_append)

lemma sectionAt_update:
  "sectionAt (h[r' := ob]) r =
     (if r = r' \<and> r' < length h
      then (case ob of SectionObj kvs \<Rightarrow> Some kvs | SettingsObj _ \<Rightarrow> None)
      else sectionAt h r)"
  by (auto simp: sectionAt_def)

lemma settingsAt_update:
  "settingsAt (h[r' := ob]) r =
     (if r = r' \<and> r' < length h
      then (case ob of SettingsObj ps \<Rightarrow> Some ps | SectionObj _ \<Rightarrow> None)
      else settingsAt h r)"
  by (auto simp: settingsAt_def)

lemma sectionAt_less: "sectionAt h r = Some kvs \<Longrightarrow> r < length h"
  by (auto simp: sectionAt_def split: if_splits)

lemma settingsAt_less: "settingsAt h r = Some ps \<Longrightarrow> r < length h"
  by (auto simp: settingsAt_def split: if_splits)

lemma sectionAt_take:
  "take n h' = h \<Longrightarrow> r < length h \<Longrightarrow> sectionAt h' r = sectionAt h r"
  by (auto simp: sectionAt_def)

lemma settingsAt_take:
  "take n h' = h \<Longrightarrow> r < length h \<Longrightarrow> settingsAt h' r = settingsAt h r"
  by (auto simp: settingsAt_def)

lemma readSections_pair:
  "readSections h ps = Some m \<Longrightarrow> (name, r) \<in> set ps \<Longrightarrow> r < length h"
proof (induction ps arbitrary: m)
  case Nil
  then show ?case by simp
next
  case (Cons p ps)
  obtain name' r' where p: "p = (name', r')"
    by (cases p)
  from Cons.prems(1) p obtain kvs rest
    where s: "sectionAt h r' = Some kvs" and rd: "readSections h ps = Some rest"
    by (auto split: option.splits)
  show ?case
  proof (cases "(name, r) = p")
    case True
    with p s show ?thesis
      by (auto dest: sectionAt_less)
  next
    case False
    with Cons.prems(2) have "(name, r) \<in> set ps"
      by simp
    with Cons.IH [OF rd] show ?thesis .
  qed
qed

lemma readSections_refs:
  "readSections h ps = Some m \<Longrightarrow> r \<in> set (map snd ps) \<Longrightarrow> r < length h"
  using readSections_pair by fastforce

lemma readSections_names:
  "readSections h ps = Some m \<Longrightarrow> map fst m = map fst ps"
  by (induction ps arbitrary: m) (auto split: option.splits)

lemma readSections_map_of:
  "readSections h ps = Some m \<Longrightarrow>
     map_of m sect = (case map_of ps sect of None \<Rightarrow> None | Some r \<Rightarrow> sectionAt h r)"
  by (induction ps arbitrary: m) (auto split: option.splits)

lemma readSections_cong:
  "(\<And>r. r \<in> set (map snd ps) \<Longrightarrow> sectionAt h' r = sectionAt h r)
     \<Longrightarrow> readSections h' ps = readSections h ps"
  by (induction ps) (auto split: option.splits)

lemma readSections_take:
  assumes "take n h' = h" and "readSections h ps = Some m"
  shows "readSections h' ps = Some m"
proof -
  have "sectionAt h' r = sectionAt h r" if "r \<in> set (map snd ps)" for r
  proof -
    from assms(2) that have "r < length h"
      by (rule readSections_refs)
    with assms(1) show ?thesis
      by (rule sectionAt_take)
  qed
  then have "readSections h' ps = readSections h ps"
    by (rule readSections_cong)
  with assms(2) show ?thesis
    by simp
qed

lemma readSections_append:
  "readSections h (ps @ qs) =
     (case readSections h ps of
        None \<Rightarrow> None
      | Some m \<Rightarrow> (case readSections h qs of None \<Rightarrow> None | Some m' \<Rightarrow> Some (m @ m')))"
  by (induction ps) (auto split: option.splits)

lemma settingsValue_take:
  assumes "take n h' = h" and "settingsValue h r = Some m"
  shows "settingsValue h' r = Some m"
proof -
  from assms(2) obtain ps where ps: "settingsAt h r = Some ps" "readSections h ps = Some m"
    by (auto simp: settingsValue_def split: option.splits)
  from ps(1) have "r < length h"
    by (rule settingsAt_less)
  with assms(1) have "settingsAt h' r = settingsAt h r"
    by (rule settingsAt_take)
  with ps(1) have "settingsAt h' r = Some ps"
    by simp
  moreover from assms(1) ps(2) have "readSections h' ps = Some m"
    by (rule readSections_take)
  ultimately show ?thesis
    by (simp add: settingsValue_def)
qed

lemma readSections_defined:
  "readSections h ps = Some m \<Longrightarrow> (name, r) \<in> set ps \<Longrightarrow> sectionAt h r \<noteq> None"
  by (induction ps arbitrary: m) (auto split: option.splits)

lemma readSections_map:
  "readSections h ps = Some m \<Longrightarrow> m = map (\<lambda>p. (fst p, the (sectionAt h (snd p)))) ps"
  by (induction ps arbitrary: m) (auto split: option.splits)

lemma readSections_total:
  "(\<And>name r. (name, r) \<in> set ps \<Longrightarrow> sectionAt h r \<noteq> None)
     \<Longrightarrow> readSections h ps = Some (map (\<lambda>p. (fst p, the (sectionAt h (snd p)))) ps)"
proof (induction ps)
  case Nil
  show ?case by simp
next
  case (Cons p ps)
  obtain name r where p: "p = (name, r)"
    by (cases p)
  from Cons.prems [of name r] p obtain kvs where s: "sectionAt h r = Some kvs"
    by auto
  have "readSections h ps = Some (map (\<lambda>p. (fst p, the (sectionAt h (snd p)))) ps)"
    by (rule Cons.IH) (use Cons.prems in auto)
  with s p show ?case
    by simp
qed

text \<open>Reading the sections in the order of \<open>Object.entries\<close> gives the value in that
  order.\<close>

lemma readSections_ownEntries:
  assumes "readSections h ps = Some m"
  shows "readSections h (ownEntries ps) = Some (ownEntries m)"
proof -
  let ?g = "\<lambda>p. (fst p, the (sectionAt h (snd p)))"
  have m: "m = map ?g ps"
    using assms by (rule readSections_map)
  have "readSections h (ownEntries ps) = Some (map ?g (ownEntries ps))"
  proof (rule readSections_total)
    fix name r
    assume "(name, r) \<in> set (ownEntries ps)"
    then have "(name, r) \<in> set ps"
      by simp
    with assms show "sectionAt h r \<noteq> None"
      by (rule readSections_defined)
  qed
  moreover have "ownEntries (map ?g ps) = map ?g (ownEntries ps)"
    by (rule ownEntries_map) simp
  ultimately show ?thesis
    using m by simp
qed

subsection \<open>The copy\<close>

lemma allocSections_spec:
  "allocSections h v = (h', ps) \<Longrightarrow>
     take (length h) h' = h \<and> length h \<le> length h'
     \<and> readSections h' ps = Some v \<and> distinct (map snd ps)
     \<and> (\<forall>r \<in> set (map snd ps). length h \<le> r)"
proof (induction v arbitrary: h h' ps)
  case Nil
  then show ?case by simp
next
  case (Cons p v)
  obtain name kvs where p: "p = (name, kvs)"
    by (cases p)
  obtain h2 ps2 where rec: "allocSections (h @ [SectionObj kvs]) v = (h2, ps2)"
    by (cases "allocSections (h @ [SectionObj kvs]) v")
  from Cons.prems p rec have res: "h' = h2" "ps = (name, length h) # ps2"
    by (simp_all add: alloc_def)
  from Cons.IH [OF rec]
  have ih: "take (Suc (length h)) h2 = h @ [SectionObj kvs]" "Suc (length h) \<le> length h2"
    "readSections h2 ps2 = Some v" "distinct (map snd ps2)"
    "\<forall>r \<in> set (map snd ps2). Suc (length h) \<le> r"
    by simp_all
  have "take (length h) (take (Suc (length h)) h2) = h"
    by (simp only: ih(1)) simp
  then have t: "take (length h) h2 = h"
    by (simp add: min_def)
  have "h2 ! length h = (take (Suc (length h)) h2) ! length h"
    by simp
  then have "h2 ! length h = SectionObj kvs"
    by (simp only: ih(1)) simp
  then have s: "sectionAt h2 (length h) = Some kvs"
    using ih(2) by (simp add: sectionAt_def)
  have d: "length h \<notin> set (map snd ps2)"
    using ih(5) by auto
  have rd: "readSections h2 ((name, length h) # ps2) = Some ((name, kvs) # v)"
    using s ih(3) by simp
  have ge: "\<forall>r \<in> set (map snd ((name, length h) # ps2)). length h \<le> r"
    using ih(5) by auto
  have di: "distinct (map snd ((name, length h) # ps2))"
    using d ih(4) by simp
  from t ih(2) rd di ge show ?case
    unfolding res p by simp
qed

lemma deepCopy_spec:
  assumes "settingsValue h base = Some b"
  shows "\<exists>h1 merged. deepCopy h base = Inr (h1, merged)
           \<and> take (length h) h1 = h \<and> represents (length h) h1 merged (jsonCopy b)"
proof -
  obtain h' ps where a: "allocSections h (jsonCopy b) = (h', ps)"
    by (cases "allocSections h (jsonCopy b)")
  from allocSections_spec [OF a]
  have sp: "take (length h) h' = h" "length h \<le> length h'"
    "readSections h' ps = Some (jsonCopy b)"
    "distinct (map snd ps)" "\<forall>r \<in> set (map snd ps). length h \<le> r"
    by simp_all
  let ?h1 = "h' @ [SettingsObj ps]"
  have dc: "deepCopy h base = Inr (?h1, length h')"
    using assms a by (simp add: deepCopy_def alloc_def)
  have t: "take (length h) ?h1 = h"
    using sp(1,2) by simp
  have refs: "\<And>r. r \<in> set (map snd ps) \<Longrightarrow> r < length h'"
    using sp(3) by (rule readSections_refs)
  have "readSections ?h1 ps = readSections h' ps"
    by (rule readSections_cong) (use refs in \<open>simp add: sectionAt_append\<close>)
  then have rd: "readSections ?h1 ps = Some (jsonCopy b)"
    using sp(3) by simp
  have "represents (length h) ?h1 (length h') (jsonCopy b)"
    unfolding represents_def
    using rd sp refs by (auto simp: settingsAt_append)
  with dc t show ?thesis
    by blast
qed

subsection \<open>The iterations of mergeSettings on the store\<close>

text \<open>Assigning to the section object of \<open>sect\<close> changes the value at \<open>sect\<close> and
  nothing else, because no other section of the map is the same object.\<close>

lemma readSections_assign:
  "readSections h ps = Some m \<Longrightarrow> distinct (map snd ps) \<Longrightarrow> map_of ps sect = Some r
     \<Longrightarrow> sectionAt h r = Some kvs
     \<Longrightarrow> readSections (h[r := SectionObj (f kvs)]) ps = Some (AList.map_entry sect f m)"
proof (induction ps arbitrary: m)
  case Nil
  then show ?case by simp
next
  case (Cons p ps)
  obtain name r' where p: "p = (name, r')"
    by (cases p)
  from Cons.prems(1) p obtain kvs' rest
    where s: "sectionAt h r' = Some kvs'" and rd: "readSections h ps = Some rest"
      and m: "m = (name, kvs') # rest"
    by (auto split: option.splits)
  from Cons.prems(2) p have d: "distinct (map snd ps)" and nin: "r' \<notin> set (map snd ps)"
    by simp_all
  have lt: "r < length h"
    using Cons.prems(4) by (rule sectionAt_less)
  show ?case
  proof (cases "name = sect")
    case True
    with Cons.prems(3) p have r: "r = r'"
      by simp
    have "readSections (h[r := SectionObj (f kvs)]) ps = readSections h ps"
      by (rule readSections_cong) (use nin r in \<open>auto simp: sectionAt_update\<close>)
    with rd have "readSections (h[r := SectionObj (f kvs)]) ps = Some rest"
      by simp
    moreover have "kvs' = kvs"
      using s Cons.prems(4) r by simp
    ultimately show ?thesis
      using True p m r lt by (simp add: sectionAt_update)
  next
    case False
    with Cons.prems(3) p have mo: "map_of ps sect = Some r"
      by simp
    then have "r \<in> set (map snd ps)"
      by (auto dest: map_of_SomeD intro: rev_image_eqI)
    with nin have ne: "r' \<noteq> r"
      by auto
    from Cons.IH [OF rd d mo Cons.prems(4)]
    have "readSections (h[r := SectionObj (f kvs)]) ps = Some (AList.map_entry sect f rest)" .
    then show ?thesis
      using False p m ne s by (simp add: sectionAt_update)
  qed
qed

lemma represents_assign:
  assumes rep: "represents n h merged m" and ex: "map_of m sect \<noteq> None"
  shows "\<exists>r kvs ps. settingsAt h merged = Some ps \<and> map_of ps sect = Some r
           \<and> sectionAt h r = Some kvs \<and> n \<le> r
           \<and> represents n (h[r := SectionObj (f kvs)]) merged (AList.map_entry sect f m)"
proof -
  from rep obtain ps where ps: "settingsAt h merged = Some ps" "readSections h ps = Some m"
    "distinct (map snd ps)" "merged \<notin> set (map snd ps)"
    "\<forall>r \<in> set (map snd ps). n \<le> r" "n \<le> merged"
    unfolding represents_def by blast
  from ex readSections_map_of [OF ps(2), of sect]
  obtain r kvs where r: "map_of ps sect = Some r" "sectionAt h r = Some kvs"
    by (auto split: option.splits)
  from r(1) have mem: "r \<in> set (map snd ps)"
    by (auto dest: map_of_SomeD intro: rev_image_eqI)
  with ps(4,5) have ne: "r \<noteq> merged" and ge: "n \<le> r"
    by auto
  let ?h = "h[r := SectionObj (f kvs)]"
  have a: "settingsAt ?h merged = Some ps"
    using ps(1) ne by (simp add: settingsAt_update)
  have b: "readSections ?h ps = Some (AList.map_entry sect f m)"
    using ps(2,3) r by (rule readSections_assign)
  have "represents n ?h merged (AList.map_entry sect f m)"
    unfolding represents_def using a b ps(3-6) by blast
  with ps(1) r ge show ?thesis
    by blast
qed

lemma map_of_map_entry_None:
  "map_of (AList.map_entry k f al) k' = None \<longleftrightarrow> map_of al k' = None"
  by (induction al) auto

lemma assignKeys_spec:
  "represents n h merged m \<Longrightarrow> map_of m sect \<noteq> None \<Longrightarrow>
     \<exists>h'. assignKeys h merged sect kvs = Inr h'
         \<and> represents n h' merged
             (foldl (\<lambda>m' (key, v). AList.map_entry sect (setProperty key v) m') m kvs)
         \<and> length h' = length h \<and> take n h' = take n h"
proof (induction kvs arbitrary: h m)
  case Nil
  then show ?case by simp
next
  case (Cons kv kvs)
  obtain key v where kv: "kv = (key, v)"
    by (cases kv)
  from represents_assign [OF Cons.prems, of "setProperty key v"]
  obtain r old ps where st: "settingsAt h merged = Some ps" "map_of ps sect = Some r"
    "sectionAt h r = Some old" "n \<le> r"
    "represents n (h[r := SectionObj (setProperty key v old)]) merged
       (AList.map_entry sect (setProperty key v) m)"
    by blast
  let ?h = "h[r := SectionObj (setProperty key v old)]"
  let ?m = "AList.map_entry sect (setProperty key v) m"
  have ex: "map_of ?m sect \<noteq> None"
    using Cons.prems(2) by (simp add: map_of_map_entry_None)
  from Cons.IH [OF st(5) ex]
  obtain h' where h': "assignKeys ?h merged sect kvs = Inr h'"
    "represents n h' merged
       (foldl (\<lambda>m' (key, v). AList.map_entry sect (setProperty key v) m') ?m kvs)"
    "length h' = length ?h" "take n h' = take n ?h"
    by blast
  have "take n ?h = take n h"
    using st(4) by (simp add: take_update_cancel)
  with h' st(1-3) kv show ?case
    by simp
qed

lemma represents_new_section:
  assumes rep: "represents n h merged m" and ps: "settingsAt h merged = Some ps"
    and n: "n \<le> length h"
  shows "represents n ((h @ [SectionObj []])[merged := SettingsObj (ps @ [(sect, length h)])])
           merged (m @ [(sect, [])])"
proof -
  from rep ps have f: "readSections h ps = Some m"
    "distinct (map snd ps)" "merged \<notin> set (map snd ps)"
    "\<forall>r \<in> set (map snd ps). n \<le> r" "n \<le> merged"
    unfolding represents_def by auto
  from ps have lt: "merged < length h"
    by (rule settingsAt_less)
  have refs: "\<And>r. r \<in> set (map snd ps) \<Longrightarrow> r < length h"
    using f(1) by (rule readSections_refs)
  let ?ps = "ps @ [(sect, length h)]"
  let ?h = "(h @ [SectionObj []])[merged := SettingsObj ?ps]"
  have a: "settingsAt ?h merged = Some ?ps"
    using lt by (simp add: settingsAt_update)
  have "readSections ?h ps = readSections h ps"
    by (rule readSections_cong)
       (use refs f(3) in \<open>auto simp: sectionAt_update sectionAt_append\<close>)
  with f(1) have b: "readSections ?h ps = Some m"
    by simp
  have c: "sectionAt ?h (length h) = Some []"
    using lt by (simp add: sectionAt_update sectionAt_append)
  have d: "readSections ?h ?ps = Some (m @ [(sect, [])])"
    using b c by (simp add: readSections_append)
  have e: "distinct (map snd ?ps)" "merged \<notin> set (map snd ?ps)"
    "\<forall>r \<in> set (map snd ?ps). n \<le> r"
    using f(2-4) refs lt n by auto
  show ?thesis
    unfolding represents_def using a d e f(5) by blast
qed

lemma mergeSections_spec:
  "readSections h0 entries = Some ov \<Longrightarrow> take (length h0) h = h0
     \<Longrightarrow> represents (length h0) h merged m
     \<Longrightarrow> list_all (\<lambda>name. name \<notin> set objectPrototypeMembers) (map fst entries)
     \<Longrightarrow> \<exists>h'. mergeSections h merged entries = Inr h'
            \<and> represents (length h0) h' merged (foldl mergeOne m ov)
            \<and> take (length h0) h' = h0"
proof (induction entries arbitrary: h m ov)
  case Nil
  then show ?case by simp
next
  case (Cons e entries)
  obtain sect items where e: "e = (sect, items)"
    by (cases e)
  from Cons.prems(1) e obtain kvs rest
    where it: "sectionAt h0 items = Some kvs" and rd: "readSections h0 entries = Some rest"
      and ov: "ov = (sect, kvs) # rest"
    by (auto split: option.splits)
  from Cons.prems(4) e have own: "sect \<notin> set objectPrototypeMembers"
    and names: "list_all (\<lambda>name. name \<notin> set objectPrototypeMembers) (map fst entries)"
    by simp_all
  from Cons.prems(3) obtain ps where ps: "settingsAt h merged = Some ps"
    "readSections h ps = Some m"
    unfolding represents_def by blast
  have len: "length h0 \<le> length h"
    using Cons.prems(2) by (metis length_take min.cobounded1)
  have same: "map_of m sect = None \<longleftrightarrow> map_of ps sect = None"
    using readSections_names [OF ps(2)] by (metis map_of_eq_None_iff set_map)
  let ?h1 = "if map_of ps sect = None
             then (h @ [SectionObj []])[merged := SettingsObj (ps @ [(sect, length h)])]
             else h"
  let ?m1 = "if map_of m sect = None then m @ [(sect, [])] else m"
  have rep1: "represents (length h0) ?h1 merged ?m1"
    using Cons.prems(3) ps(1) len same by (simp add: represents_new_section)
  have ge: "length h0 \<le> merged"
    using Cons.prems(3) unfolding represents_def by blast
  have tk1: "take (length h0) ?h1 = h0"
    using Cons.prems(2) ge len by (simp add: take_update_cancel)
  have it1: "sectionAt ?h1 items = Some kvs"
    using sectionAt_take [OF tk1 sectionAt_less [OF it]] it by simp
  have ex: "map_of ?m1 sect \<noteq> None"
    by (auto simp: map_add_def)
  from assignKeys_spec [OF rep1 ex, of "ownEntries kvs"]
  obtain h2 where h2: "assignKeys ?h1 merged sect (ownEntries kvs) = Inr h2"
    "represents (length h0) h2 merged
       (foldl (\<lambda>m' (key, v). AList.map_entry sect (setProperty key v) m') ?m1 (ownEntries kvs))"
    "take (length h0) h2 = take (length h0) ?h1"
    by blast
  have m2: "foldl (\<lambda>m' (key, v). AList.map_entry sect (setProperty key v) m') ?m1 (ownEntries kvs)
              = mergeOne m (sect, kvs)"
    by (simp add: mergeOne_def)
  have tk2: "take (length h0) h2 = h0"
    using h2(3) tk1 by simp
  from Cons.IH [OF rd tk2 h2(2) [unfolded m2] names]
  obtain h' where h': "mergeSections h2 merged entries = Inr h'"
    "represents (length h0) h' merged (foldl mergeOne (mergeOne m (sect, kvs)) rest)"
    "take (length h0) h' = h0"
    by blast
  have "mergeSections h merged ((sect, items) # entries) = Inr h'"
    using ps(1) it1 h2(1) h'(1) own
    by (cases "map_of ps sect") (simp_all add: alloc_def Let_def)
  with h'(2,3) e ov show ?case
    by simp
qed

lemma mergeSettings_spec:
  assumes b: "settingsValue h base = Some bv" and o: "settingsValue h override = Some ov"
    and names: "list_all (\<lambda>name. name \<notin> set objectPrototypeMembers) (map fst ov)"
  shows "\<exists>h' merged. mergeSettings h base override = Inr (h', merged)
           \<and> take (length h) h' = h
           \<and> settingsValue h' merged = Some (mergedValue bv ov)
           \<and> settingsValue h' base = Some bv
           \<and> settingsValue h' override = Some ov
           \<and> length h \<le> merged"
proof -
  from deepCopy_spec [OF b]
  obtain h1 merged where dc: "deepCopy h base = Inr (h1, merged)"
    "take (length h) h1 = h" "represents (length h) h1 merged (jsonCopy bv)"
    by blast
  from o obtain entries where en: "settingsAt h override = Some entries"
    "readSections h entries = Some ov"
    by (auto simp: settingsValue_def split: option.splits)
  have en1: "settingsAt h1 override = Some entries"
    using settingsAt_take [OF dc(2) settingsAt_less [OF en(1)]] en(1) by simp
  have rd: "readSections h (ownEntries entries) = Some (ownEntries ov)"
    using en(2) by (rule readSections_ownEntries)
  have "map fst entries = map fst ov"
    using readSections_names [OF en(2)] by simp
  with names have "list_all (\<lambda>name. name \<notin> set objectPrototypeMembers) (map fst entries)"
    by simp
  then have nm: "list_all (\<lambda>name. name \<notin> set objectPrototypeMembers)
      (map fst (ownEntries entries))"
    by (simp add: list_all_iff)
  from mergeSections_spec [OF rd dc(2) dc(3) nm]
  obtain h' where h': "mergeSections h1 merged (ownEntries entries) = Inr h'"
    "represents (length h) h' merged (foldl mergeOne (jsonCopy bv) (ownEntries ov))"
    "take (length h) h' = h"
    by blast
  have ms: "mergeSettings h base override = Inr (h', merged)"
    using dc(1) en1 h'(1) by (simp add: mergeSettings_def)
  have val: "settingsValue h' merged = Some (mergedValue bv ov)"
    using h'(2) unfolding represents_def by (auto simp: settingsValue_def mergedValue_def)
  have ge: "length h \<le> merged"
    using h'(2) unfolding represents_def by blast
  from ms h'(3) val settingsValue_take [OF h'(3) b] settingsValue_take [OF h'(3) o] ge
  show ?thesis
    by blast
qed

subsection \<open>C5: merging settings\<close>

lemma map_entry_twice:
  "AList.map_entry k f (AList.map_entry k g al) = AList.map_entry k (\<lambda>a. f (g a)) al"
  by (induction al) auto

lemma assign_fold_map_entry:
  "foldl (\<lambda>m' (key, v). AList.map_entry sect (AList.update key v) m') m kvs
     = AList.map_entry sect (\<lambda>a. foldl (\<lambda>a' (key, v). AList.update key v a') a kvs) m"
proof (induction kvs arbitrary: m)
  case Nil
  show ?case
    by (induction m) auto
next
  case (Cons kv kvs)
  obtain key v where kv: "kv = (key, v)"
    by (cases kv)
  show ?case
    by (simp add: kv Cons.IH map_entry_twice)
qed

lemma map_of_map_entry_at:
  "map_of (AList.map_entry k f al) k' =
     (if k' = k then map_option f (map_of al k) else map_of al k')"
  by (induction al) auto

lemma map_of_rev_distinct:
  "distinct (map fst kvs) \<Longrightarrow> map_of (rev kvs) k = map_of kvs k"
proof (induction kvs)
  case Nil
  show ?case by simp
next
  case (Cons p kvs)
  obtain a b where p: "p = (a, b)"
    by (cases p)
  from Cons.prems p have nin: "a \<notin> fst ` set kvs" and d: "distinct (map fst kvs)"
    by simp_all
  from nin have "map_of kvs a = None"
    by (simp add: map_of_eq_None_iff)
  with Cons.IH [OF d] show ?case
    by (auto simp: p map_add_def split: option.splits)
qed

lemma map_of_update_fold:
  "map_of (foldl (\<lambda>a' (key, v). AList.update key v a') a kvs) k =
     (case map_of (rev kvs) k of Some v \<Rightarrow> Some v | None \<Rightarrow> map_of a k)"
proof (induction kvs arbitrary: a)
  case Nil
  show ?case by simp
next
  case (Cons p kvs)
  obtain key v where p: "p = (key, v)"
    by (cases p)
  show ?case
    by (simp add: p Cons.IH update_conv' map_add_def split: option.splits)
qed

lemma foldl_assign_cong:
  assumes "\<And>key v. (key, v) \<in> set kvs \<Longrightarrow> f key v = g key v"
  shows "foldl (\<lambda>m' (key, v). AList.map_entry sect (f key v) m') m kvs
       = foldl (\<lambda>m' (key, v). AList.map_entry sect (g key v) m') m kvs"
  using assms
proof (induction kvs arbitrary: m)
  case Nil
  show ?case by simp
next
  case (Cons p kvs)
  obtain key v where p: "p = (key, v)"
    by (cases p)
  have "f key v = g key v"
    using Cons.prems [of key v] p by simp
  moreover have "foldl (\<lambda>m' (key, v). AList.map_entry sect (f key v) m') m' kvs
       = foldl (\<lambda>m' (key, v). AList.map_entry sect (g key v) m') m' kvs" for m'
    by (rule Cons.IH) (use Cons.prems in auto)
  ultimately show ?case
    by (simp add: p)
qed

lemma lookupSetting_mergeOne:
  assumes d: "distinct (map fst kvs)" and np: "''__proto__'' \<notin> set (map fst kvs)"
  shows "lookupSetting (mergeOne m (s0, kvs)) sect key =
     (if sect = s0
      then (case map_of kvs key of Some v \<Rightarrow> Some v | None \<Rightarrow> lookupSetting m sect key)
      else lookupSetting m sect key)"
proof -
  let ?m1 = "if map_of m s0 = None then m @ [(s0, [])] else m"
  let ?es = "ownEntries kvs"
  let ?G = "\<lambda>a. foldl (\<lambda>a' (key, v). AList.update key v a') a ?es"
  have upd: "setProperty k v = AList.update k v" if "(k, v) \<in> set ?es" for k v
  proof -
    from that have "(k, v) \<in> set kvs"
      by simp
    then have "fst (k, v) \<in> fst ` set kvs"
      by (rule imageI)
    then have "k \<in> set (map fst kvs)"
      by simp
    with np have "k \<noteq> ''__proto__''"
      by blast
    then show ?thesis
      by (simp add: setProperty_def fun_eq_iff)
  qed
  have "mergeOne m (s0, kvs)
      = foldl (\<lambda>m' (key, v). AList.map_entry s0 (setProperty key v) m') ?m1 ?es"
    by (simp add: mergeOne_def)
  also have "\<dots> = foldl (\<lambda>m' (key, v). AList.map_entry s0 (AList.update key v) m') ?m1 ?es"
    by (rule foldl_assign_cong) (rule upd)
  also have "\<dots> = AList.map_entry s0 ?G ?m1"
    by (rule assign_fold_map_entry)
  finally have mo: "mergeOne m (s0, kvs) = AList.map_entry s0 ?G ?m1" .
  have de: "distinct (map fst ?es)"
    using d by (rule distinct_fst_ownEntries)
  have G: "map_of (?G a) key = (case map_of kvs key of Some v \<Rightarrow> Some v | None \<Rightarrow> map_of a key)"
    for a
    by (simp add: map_of_update_fold map_of_rev_distinct [OF de] map_of_ownEntries [OF d])
  have at: "map_of (mergeOne m (s0, kvs)) s =
      (if s = s0 then Some (?G (case map_of m s0 of None \<Rightarrow> [] | Some a \<Rightarrow> a))
       else map_of m s)" for s
    unfolding mo map_of_map_entry_at
    by (cases "map_of m s0") (auto simp: map_add_def split: option.splits)
  show ?thesis
    unfolding lookupSetting_def at
    by (cases "map_of m s0") (auto simp: G split: option.splits)
qed

lemma lookupSetting_fold_mergeOne:
  "distinct (map fst ov)
     \<Longrightarrow> list_all (\<lambda>p. distinct (map fst (snd p)) \<and> ''__proto__'' \<notin> set (map fst (snd p))) ov
     \<Longrightarrow> lookupSetting (foldl mergeOne m ov) sect key =
       (case lookupSetting ov sect key of
          Some v \<Rightarrow> Some v
        | None \<Rightarrow> lookupSetting m sect key)"
proof (induction ov arbitrary: m)
  case Nil
  show ?case
    by (simp add: lookupSetting_def)
next
  case (Cons p ov)
  obtain s0 kvs where p: "p = (s0, kvs)"
    by (cases p)
  from Cons.prems p have d: "distinct (map fst ov)" and nin: "s0 \<notin> fst ` set ov"
    and dk: "distinct (map fst kvs)" and np: "''__proto__'' \<notin> set (map fst kvs)"
    and rest: "list_all (\<lambda>p. distinct (map fst (snd p))
                  \<and> ''__proto__'' \<notin> set (map fst (snd p))) ov"
    by simp_all
  from nin have none: "map_of ov s0 = None"
    by (simp add: map_of_eq_None_iff)
  have ih: "lookupSetting (foldl mergeOne (mergeOne m (s0, kvs)) ov) sect key =
       (case lookupSetting ov sect key of
          Some v \<Rightarrow> Some v
        | None \<Rightarrow> lookupSetting (mergeOne m (s0, kvs)) sect key)"
    by (rule Cons.IH [OF d rest])
  have unfold: "lookupSetting (foldl mergeOne m (p # ov)) sect key =
       (case lookupSetting ov sect key of
          Some v \<Rightarrow> Some v
        | None \<Rightarrow> lookupSetting (mergeOne m (s0, kvs)) sect key)"
    using ih by (simp add: p)
  show ?case
  proof (cases "sect = s0")
    case True
    have a: "lookupSetting ov sect key = None"
      using none True by (simp add: lookupSetting_def)
    have b: "lookupSetting (p # ov) sect key = map_of kvs key"
      using True by (simp add: lookupSetting_def p)
    have c: "lookupSetting (mergeOne m (s0, kvs)) sect key =
        (case map_of kvs key of Some v \<Rightarrow> Some v | None \<Rightarrow> lookupSetting m sect key)"
      using True by (simp add: lookupSetting_mergeOne [OF dk np] split: option.splits)
    show ?thesis
      unfolding unfold a b c by simp
  next
    case False
    have b: "lookupSetting (p # ov) sect key = lookupSetting ov sect key"
      using False by (simp add: lookupSetting_def p)
    have c: "lookupSetting (mergeOne m (s0, kvs)) sect key = lookupSetting m sect key"
      using False by (simp add: lookupSetting_mergeOne [OF dk np])
    show ?thesis
      unfolding unfold b c by simp
  qed
qed

lemma lookupSetting_ownEntries:
  "distinct (map fst v) \<Longrightarrow> lookupSetting (ownEntries v) sect key = lookupSetting v sect key"
  by (simp add: lookupSetting_def map_of_ownEntries)

lemma lookupSetting_jsonCopy:
  assumes "distinctNames v"
  shows "lookupSetting (jsonCopy v) sect key = lookupSetting v sect key"
proof -
  from assms have d: "distinct (map fst v)"
    and k: "list_all (\<lambda>p. distinct (map fst (snd p))) v"
    by (simp_all add: distinctNames_def)
  have "map_of (jsonCopy v) = map_option ownEntries \<circ> map_of (ownEntries v)"
    unfolding jsonCopy_def by (rule map_of_map)
  then have mo: "map_of (jsonCopy v) sect = map_option ownEntries (map_of v sect)"
    by (simp add: map_of_ownEntries [OF d])
  show ?thesis
  proof (cases "map_of v sect")
    case None
    with mo show ?thesis
      by (simp add: lookupSetting_def)
  next
    case (Some kvs)
    then have "(sect, kvs) \<in> set v"
      by (rule map_of_SomeD)
    with k have "distinct (map fst kvs)"
      by (auto simp: list_all_iff)
    then have "map_of (ownEntries kvs) = map_of kvs"
      by (rule map_of_ownEntries)
    with mo Some show ?thesis
      by (simp add: lookupSetting_def)
  qed
qed

lemma lookupSetting_mergedValue:
  assumes b: "distinctNames bv" and o: "distinctNames ov"
    and np: "list_all (\<lambda>p. ''__proto__'' \<notin> set (map fst (snd p))) ov"
  shows "lookupSetting (mergedValue bv ov) sect key =
       (case lookupSetting ov sect key of
          Some v \<Rightarrow> Some v
        | None \<Rightarrow> lookupSetting bv sect key)"
proof -
  from o have d: "distinct (map fst ov)"
    and k: "list_all (\<lambda>p. distinct (map fst (snd p))) ov"
    by (simp_all add: distinctNames_def)
  have d': "distinct (map fst (ownEntries ov))"
    using d by (rule distinct_fst_ownEntries)
  have k': "list_all (\<lambda>p. distinct (map fst (snd p)) \<and> ''__proto__'' \<notin> set (map fst (snd p)))
      (ownEntries ov)"
    using k np by (simp add: list_all_iff)
  have "lookupSetting (mergedValue bv ov) sect key =
       (case lookupSetting (ownEntries ov) sect key of
          Some v \<Rightarrow> Some v
        | None \<Rightarrow> lookupSetting (jsonCopy bv) sect key)"
    unfolding mergedValue_def by (rule lookupSetting_fold_mergeOne [OF d' k'])
  then show ?thesis
    by (simp only: lookupSetting_ownEntries [OF d] lookupSetting_jsonCopy [OF b])
qed

text \<open>
  C5, as stated, fails for an override with a section named like a member of
  \<open>Object.prototype\<close>. With an empty \<open>base\<close> and the override
  \<open>{constructor: {a: "b"}}\<close>, \<open>!merged["constructor"]\<close> is false, the inherited
  function being read, so no section is created, and the assignment of \<open>a\<close> goes to
  that function: the copy that is returned holds no section \<open>constructor\<close>. A key
  \<open>__proto__\<close> fails likewise: with the override \<open>{dosbox: {__proto__: "x"}}\<close> (a map
  as \<open>JSON.parse\<close> builds it) the assignment reaches the inherited setter, and the
  map returned is \<open>{dosbox: {}}\<close>, without the key.
\<close>

theorem C5_inherited_name_counterexample:
  "settingsValue
      [SettingsObj [], SectionObj [(''a'', ''b'')], SettingsObj [(''constructor'', 1)]] 0
     = Some []
   \<and> settingsValue
      [SettingsObj [], SectionObj [(''a'', ''b'')], SettingsObj [(''constructor'', 1)]] 2
     = Some [(''constructor'', [(''a'', ''b'')])]
   \<and> mergeSettings
      [SettingsObj [], SectionObj [(''a'', ''b'')], SettingsObj [(''constructor'', 1)]] 0 2
     = Inl (WritesInherited ''constructor'')
   \<and> settingsValue
      [SettingsObj [], SectionObj [(''__proto__'', ''x'')], SettingsObj [(''dosbox'', 1)]] 2
     = Some [(''dosbox'', [(''__proto__'', ''x'')])]
   \<and> mergeSettings
      [SettingsObj [], SectionObj [(''__proto__'', ''x'')], SettingsObj [(''dosbox'', 1)]] 0 2
     = Inr ([SettingsObj [], SectionObj [(''__proto__'', ''x'')], SettingsObj [(''dosbox'', 1)],
             SettingsObj [(''dosbox'', 4)], SectionObj []], 3)
   \<and> settingsValue
      [SettingsObj [], SectionObj [(''__proto__'', ''x'')], SettingsObj [(''dosbox'', 1)],
       SettingsObj [(''dosbox'', 4)], SectionObj []] 3
     = Some [(''dosbox'', [])]
   \<and> lookupSetting [(''dosbox'', [])] ''dosbox'' ''__proto__'' = None
   \<and> lookupSetting [(''dosbox'', [(''__proto__'', ''x'')])] ''dosbox'' ''__proto__'' = Some ''x''"
  by code_simp

text \<open>
  C5, amended: for every store and every two settings objects in it, with the values
  \<open>bv\<close> of \<open>base\<close> and \<open>ov\<close> of \<open>override\<close>, where no section of the override is named
  like a member of \<open>Object.prototype\<close>, \<open>mergeSettings\<close> returns a new object
  (\<open>merged\<close> lies beyond the old store), every object of the old store, \<open>base\<close>, its
  sections and \<open>override\<close> among them, is as it was, and the value of the new object
  is \<open>mergedValue bv ov\<close>. In that value a section/key of the override has the
  override's value and any other section/key has the base's, where no key of the
  override is \<open>__proto__\<close> (the names of an object being distinct). Merging
  \<open>{dosbox: {memsize: "16"}}\<close> with
  \<open>{dosbox: {memsize: "256"}, cpu: {core: "auto"}}\<close> gives
  \<open>{dosbox: {memsize: "256"}, cpu: {core: "auto"}}\<close>. The values list the
  properties in the order of their creation; names that are array indices are visited
  in ascending order and come first in \<open>Object.entries\<close> of the result, as in the
  last two equations.
\<close>

theorem C5_merge_settings:
  "(settingsValue h base = Some bv \<and> settingsValue h override = Some ov
      \<and> list_all (\<lambda>name. name \<notin> set objectPrototypeMembers) (map fst ov)
      \<longrightarrow> (\<exists>h' merged. mergeSettings h base override = Inr (h', merged)
             \<and> take (length h) h' = h
             \<and> settingsValue h' base = Some bv
             \<and> settingsValue h' override = Some ov
             \<and> length h \<le> merged
             \<and> settingsValue h' merged = Some (mergedValue bv ov)))
   \<and> (distinctNames bv \<and> distinctNames ov
       \<and> list_all (\<lambda>p. ''__proto__'' \<notin> set (map fst (snd p))) ov
      \<longrightarrow> lookupSetting (mergedValue bv ov) sect key =
            (case lookupSetting ov sect key of
               Some v \<Rightarrow> Some v
             | None \<Rightarrow> lookupSetting bv sect key))
   \<and> mergedValue [(''dosbox'', [(''memsize'', ''16'')])]
        [(''dosbox'', [(''memsize'', ''256'')]), (''cpu'', [(''core'', ''auto'')])]
       = [(''dosbox'', [(''memsize'', ''256'')]), (''cpu'', [(''core'', ''auto'')])]
   \<and> mergedValue [(''z'', [(''k'', ''1'')])]
        [(''10'', [(''b'', ''2''), (''7'', ''3'')]), (''2'', [])]
       = [(''z'', [(''k'', ''1'')]), (''2'', []), (''10'', [(''7'', ''3''), (''b'', ''2'')])]
   \<and> ownEntries [(''z'', [(''k'', ''1'')]), (''2'', []), (''10'', [(''7'', ''3''), (''b'', ''2'')])]
       = [(''2'', []), (''10'', [(''7'', ''3''), (''b'', ''2'')]), (''z'', [(''k'', ''1'')])]"
proof -
  have store: "settingsValue h base = Some bv \<and> settingsValue h override = Some ov
      \<and> list_all (\<lambda>name. name \<notin> set objectPrototypeMembers) (map fst ov)
      \<longrightarrow> (\<exists>h' merged. mergeSettings h base override = Inr (h', merged)
             \<and> take (length h) h' = h
             \<and> settingsValue h' base = Some bv
             \<and> settingsValue h' override = Some ov
             \<and> length h \<le> merged
             \<and> settingsValue h' merged = Some (mergedValue bv ov))"
  proof (intro impI, elim conjE)
    assume "settingsValue h base = Some bv" "settingsValue h override = Some ov"
      "list_all (\<lambda>name. name \<notin> set objectPrototypeMembers) (map fst ov)"
    from mergeSettings_spec [OF this]
    show "\<exists>h' merged. mergeSettings h base override = Inr (h', merged)
             \<and> take (length h) h' = h
             \<and> settingsValue h' base = Some bv
             \<and> settingsValue h' override = Some ov
             \<and> length h \<le> merged
             \<and> settingsValue h' merged = Some (mergedValue bv ov)"
      by blast
  qed
  have look: "distinctNames bv \<and> distinctNames ov
       \<and> list_all (\<lambda>p. ''__proto__'' \<notin> set (map fst (snd p))) ov
      \<longrightarrow> lookupSetting (mergedValue bv ov) sect key =
            (case lookupSetting ov sect key of
               Some v \<Rightarrow> Some v
             | None \<Rightarrow> lookupSetting bv sect key)"
    by (intro impI, elim conjE) (rule lookupSetting_mergedValue)
  have ex: "mergedValue [(''dosbox'', [(''memsize'', ''16'')])]
        [(''dosbox'', [(''memsize'', ''256'')]), (''cpu'', [(''core'', ''auto'')])]
       = [(''dosbox'', [(''memsize'', ''256'')]), (''cpu'', [(''core'', ''auto'')])]"
    by code_simp
  have ex2: "mergedValue [(''z'', [(''k'', ''1'')])]
        [(''10'', [(''b'', ''2''), (''7'', ''3'')]), (''2'', [])]
       = [(''z'', [(''k'', ''1'')]), (''2'', []), (''10'', [(''7'', ''3''), (''b'', ''2'')])]"
    by code_simp
  have ex3: "ownEntries
        [(''z'', [(''k'', ''1'')]), (''2'', []), (''10'', [(''7'', ''3''), (''b'', ''2'')])]
       = [(''2'', []), (''10'', [(''7'', ''3''), (''b'', ''2'')]), (''z'', [(''k'', ''1'')])]"
    by code_simp
  from store look ex ex2 ex3 show ?thesis
    by (intro conjI)
qed

theorem C5_merge_settings_witness:
  "settingsValue
      [SectionObj [(''memsize'', ''16'')], SettingsObj [(''dosbox'', 0)],
       SectionObj [(''memsize'', ''256'')], SectionObj [(''core'', ''auto'')],
       SettingsObj [(''dosbox'', 2), (''cpu'', 3)]] 1
     = Some [(''dosbox'', [(''memsize'', ''16'')])]
   \<and> settingsValue
      [SectionObj [(''memsize'', ''16'')], SettingsObj [(''dosbox'', 0)],
       SectionObj [(''memsize'', ''256'')], SectionObj [(''core'', ''auto'')],
       SettingsObj [(''dosbox'', 2), (''cpu'', 3)]] 4
     = Some [(''dosbox'', [(''memsize'', ''256'')]), (''cpu'', [(''core'', ''auto'')])]
   \<and> list_all (\<lambda>name. name \<notin> set objectPrototypeMembers)
        (map fst [(''dosbox'', [(''memsize'', ''256'')]), (''cpu'', [(''core'', ''auto'')])])
   \<and> (\<exists>h' merged.
         mergeSettings
           [SectionObj [(''memsize'', ''16'')], SettingsObj [(''dosbox'', 0)],
            SectionObj [(''memsize'', ''256'')], SectionObj [(''core'', ''auto'')],
            SettingsObj [(''dosbox'', 2), (''cpu'', 3)]] 1 4 = Inr (h', merged)
         \<and> take 5 h' =
            [SectionObj [(''memsize'', ''16'')], SettingsObj [(''dosbox'', 0)],
             SectionObj [(''memsize'', ''256'')], SectionObj [(''core'', ''auto'')],
             SettingsObj [(''dosbox'', 2), (''cpu'', 3)]]
         \<and> settingsValue h' 1 = Some [(''dosbox'', [(''memsize'', ''16'')])]
         \<and> settingsValue h' merged
            = Some [(''dosbox'', [(''memsize'', ''256'')]), (''cpu'', [(''core'', ''auto'')])])
   \<and> distinctNames [(''dosbox'', [(''memsize'', ''16''), (''machine'', ''svga_s3'')])]
   \<and> distinctNames [(''dosbox'', [(''memsize'', ''256'')]), (''cpu'', [(''core'', ''auto'')])]
   \<and> list_all (\<lambda>p. ''__proto__'' \<notin> set (map fst (snd p)))
        [(''dosbox'', [(''memsize'', ''256'')]), (''cpu'', [(''core'', ''auto'')])]
   \<and> lookupSetting
        (mergedValue [(''dosbox'', [(''memsize'', ''16''), (''machine'', ''svga_s3'')])]
           [(''dosbox'', [(''memsize'', ''256'')]), (''cpu'', [(''core'', ''auto'')])])
        ''dosbox'' ''machine'' = Some ''svga_s3''
   \<and> lookupSetting
        (mergedValue [(''dosbox'', [(''memsize'', ''16''), (''machine'', ''svga_s3'')])]
           [(''dosbox'', [(''memsize'', ''256'')]), (''cpu'', [(''core'', ''auto'')])])
        ''dosbox'' ''memsize'' = Some ''256''"
proof -
  let ?h = "[SectionObj [(''memsize'', ''16'')], SettingsObj [(''dosbox'', 0)],
       SectionObj [(''memsize'', ''256'')], SectionObj [(''core'', ''auto'')],
       SettingsObj [(''dosbox'', 2), (''cpu'', 3)]]"
  let ?bv = "[(''dosbox'', [(''memsize'', ''16'')])]"
  let ?bv2 = "[(''dosbox'', [(''memsize'', ''16''), (''machine'', ''svga_s3'')])]"
  let ?ov = "[(''dosbox'', [(''memsize'', ''256'')]), (''cpu'', [(''core'', ''auto'')])]"
  have b: "settingsValue ?h 1 = Some ?bv"
    by code_simp
  have o: "settingsValue ?h 4 = Some ?ov"
    by code_simp
  have nm: "list_all (\<lambda>name. name \<notin> set objectPrototypeMembers) (map fst ?ov)"
    by (simp add: objectPrototypeMembers_def)
  have d: "distinctNames ?bv2" "distinctNames ?ov"
    "list_all (\<lambda>p. ''__proto__'' \<notin> set (map fst (snd p))) ?ov"
    by (simp_all add: distinctNames_def)
  have len: "length ?h = 5"
    by simp
  have mv: "mergedValue ?bv ?ov = ?ov"
    by (rule C5_merge_settings [THEN conjunct2, THEN conjunct2, THEN conjunct1])
  have "\<exists>h' merged. mergeSettings ?h 1 4 = Inr (h', merged)
             \<and> take (length ?h) h' = ?h
             \<and> settingsValue h' 1 = Some ?bv
             \<and> settingsValue h' 4 = Some ?ov
             \<and> length ?h \<le> merged
             \<and> settingsValue h' merged = Some (mergedValue ?bv ?ov)"
    using C5_merge_settings [of ?h 1 ?bv 4 ?ov, THEN conjunct1] b o nm by blast
  then obtain h' merged where r: "mergeSettings ?h 1 4 = Inr (h', merged)"
    "take (length ?h) h' = ?h" "settingsValue h' 1 = Some ?bv"
    "settingsValue h' merged = Some (mergedValue ?bv ?ov)"
    by blast
  have st: "\<exists>h' merged. mergeSettings ?h 1 4 = Inr (h', merged) \<and> take 5 h' = ?h
      \<and> settingsValue h' 1 = Some ?bv \<and> settingsValue h' merged = Some ?ov"
    using r unfolding mv len by blast
  have l1: "lookupSetting ?ov ''dosbox'' ''machine'' = None"
    by code_simp
  have l2: "lookupSetting ?bv2 ''dosbox'' ''machine'' = Some ''svga_s3''"
    by code_simp
  have l3: "lookupSetting ?ov ''dosbox'' ''memsize'' = Some ''256''"
    by code_simp
  have lk: "lookupSetting (mergedValue ?bv2 ?ov) sect key =
            (case lookupSetting ?ov sect key of
               Some v \<Rightarrow> Some v
             | None \<Rightarrow> lookupSetting ?bv2 sect key)" for sect key
    using C5_merge_settings [of h base ?bv2 override ?ov sect key,
        THEN conjunct2, THEN conjunct1] d by blast
  have lk1: "lookupSetting (mergedValue ?bv2 ?ov) ''dosbox'' ''machine'' = Some ''svga_s3''"
    by (simp only: lk l1 l2) simp
  have lk2: "lookupSetting (mergedValue ?bv2 ?ov) ''dosbox'' ''memsize'' = Some ''256''"
    by (simp only: lk l3) simp
  from b o nm st d lk1 lk2 show ?thesis
    by (intro conjI)
qed

subsection \<open>C6: template rendering\<close>

lemma replacePlaceholders_plain:
  "CHR ''@'' \<notin> set t \<Longrightarrow> replacePlaceholders f t = t"
  by (induction t) auto

lemma replacePlaceholders_token:
  assumes "CHR ''@'' \<notin> set key" and "key \<noteq> []"
  shows "replacePlaceholders f (CHR ''@'' # key @ CHR ''@'' # post)
           = f key @ replacePlaceholders f post"
proof -
  have tw: "takeWhile (\<lambda>x. x \<noteq> CHR ''@'') (key @ CHR ''@'' # post) = key"
    using assms(1) by (subst takeWhile_append2) auto
  have dw: "dropWhile (\<lambda>x. x \<noteq> CHR ''@'') (key @ CHR ''@'' # post) = CHR ''@'' # post"
    using assms(1) by (subst dropWhile_append2) auto
  show ?thesis
    using assms(2) by (simp add: tw dw)
qed

lemma replacePlaceholders_empty_token:
  "replacePlaceholders f (CHR ''@'' # CHR ''@'' # cs)
     = CHR ''@'' # replacePlaceholders f (CHR ''@'' # cs)"
  by simp

lemma replacePlaceholders_open_token:
  assumes "CHR ''@'' \<notin> set cs"
  shows "replacePlaceholders f (CHR ''@'' # cs) = CHR ''@'' # cs"
proof -
  have "dropWhile (\<lambda>x. x \<noteq> CHR ''@'') cs = []"
    using assms by (induction cs) auto
  then show ?thesis
    using assms by (simp add: replacePlaceholders_plain)
qed

lemma proto_is_member: "''__proto__'' \<in> set objectPrototypeMembers"
  by (simp add: objectPrototypeMembers_def)

lemma resolvePlaceholder_cases:
  assumes "vals key \<noteq> None \<or> key \<notin> set objectPrototypeMembers"
  shows "resolvePlaceholder nativeText vals key =
     (case vals key of
        Some v \<Rightarrow> v
      | None \<Rightarrow> (case map_of WIN9X_DEFAULTS key of Some d \<Rightarrow> d | None \<Rightarrow> []))"
proof (cases "vals key")
  case (Some v)
  then show ?thesis
    by (simp add: resolvePlaceholder_def map_add_def)
next
  case None
  with assms have nm: "key \<notin> set objectPrototypeMembers"
    by simp
  with proto_is_member have np: "key \<noteq> ''__proto__''"
    by auto
  show ?thesis
  proof (cases "map_of WIN9X_DEFAULTS key")
    case (Some d)
    with None show ?thesis
      by (simp add: resolvePlaceholder_def map_add_def)
  next
    case N: None
    have "getDefaultValue key = Str []"
      using N nm np by (simp add: getDefaultValue_def)
    with None N show ?thesis
      by (simp add: resolvePlaceholder_def map_add_def)
  qed
qed

text \<open>A token named like a member of \<open>Object.prototype\<close>, and in neither table, is
  replaced by the text of that member.\<close>

lemma resolvePlaceholder_inherited:
  "resolvePlaceholder nativeText Map.empty ''__proto__'' = ''[object Object]''"
  "resolvePlaceholder nativeText Map.empty ''constructor'' = nativeText ''constructor''"
  "resolvePlaceholder nativeText Map.empty ''toString'' = nativeText ''toString''"
proof -
  have n: "map_of WIN9X_DEFAULTS ''__proto__'' = None"
    "map_of WIN9X_DEFAULTS ''constructor'' = None"
    "map_of WIN9X_DEFAULTS ''toString'' = None"
    by code_simp+
  show "resolvePlaceholder nativeText Map.empty ''__proto__'' = ''[object Object]''"
    by (simp add: resolvePlaceholder_def getDefaultValue_def valueText_def n)
  show "resolvePlaceholder nativeText Map.empty ''constructor'' = nativeText ''constructor''"
    by (simp add: resolvePlaceholder_def getDefaultValue_def valueText_def n
        objectPrototypeMembers_def)
  show "resolvePlaceholder nativeText Map.empty ''toString'' = nativeText ''toString''"
    by (simp add: resolvePlaceholder_def getDefaultValue_def valueText_def n
        objectPrototypeMembers_def)
qed

text \<open>
  C6, as stated, fails. The default table is the one the module holds, and in it
  \<open>cpu_core\<close> is \<open>"dynamic"\<close>: with the value map \<open>{dosbox_memsize: "256"}\<close> the
  template \<open>"memsize=@dosbox_memsize@\ncore=@cpu_core@"\<close> renders to
  \<open>"memsize=256\ncore=dynamic"\<close>, not to \<open>"memsize=256\ncore=auto"\<close>. And a token in
  neither table is not always replaced by the empty string: \<open>@__proto__@\<close> renders
  to \<open>[object Object]\<close>.
\<close>

theorem C6_default_table_counterexample:
  "map_of WIN9X_DEFAULTS ''cpu_core'' = Some ''dynamic''
   \<and> (\<forall>nativeText.
        applyValuesToTemplate nativeText
          (''memsize=@dosbox_memsize@'' @ [CHR 0x0A] @ ''core=@cpu_core@'')
          [''dosbox_memsize'' \<mapsto> ''256'']
        = ''memsize=256'' @ [CHR 0x0A] @ ''core=dynamic'')
   \<and> ''memsize=256'' @ [CHR 0x0A] @ ''core=dynamic'' \<noteq> ''memsize=256'' @ [CHR 0x0A] @ ''core=auto''
   \<and> map_of WIN9X_DEFAULTS ''__proto__'' = None
   \<and> (\<forall>nativeText.
        applyValuesToTemplate nativeText ''@__proto__@'' Map.empty = ''[object Object]'')"
proof -
  have a: "map_of WIN9X_DEFAULTS ''cpu_core'' = Some ''dynamic''"
    by code_simp
  have b: "applyValuesToTemplate nativeText
          (''memsize=@dosbox_memsize@'' @ [CHR 0x0A] @ ''core=@cpu_core@'')
          [''dosbox_memsize'' \<mapsto> ''256'']
        = ''memsize=256'' @ [CHR 0x0A] @ ''core=dynamic''" for nativeText
    by code_simp
  have c: "map_of WIN9X_DEFAULTS ''__proto__'' = None"
    by code_simp
  have "applyValuesToTemplate nativeText (CHR ''@'' # ''__proto__'' @ CHR ''@'' # []) Map.empty
      = resolvePlaceholder nativeText Map.empty ''__proto__'' @ []" for nativeText
    unfolding applyValuesToTemplate_def
    by (subst replacePlaceholders_token) simp_all
  then have d: "applyValuesToTemplate nativeText ''@__proto__@'' Map.empty = ''[object Object]''"
    for nativeText
    by (simp add: resolvePlaceholder_inherited)
  from a b c d show ?thesis
    by simp
qed

text \<open>
  C6, amended: rendering goes through the template from left to right. A token is an
  \<open>@\<close>, one or more characters other than \<open>@\<close>, and the next \<open>@\<close>; it is replaced by
  the value the supplied map has for its key, else by the value the table
  \<open>WIN9X_DEFAULTS\<close> has for it, else by the empty string (for a key that is not the
  name of a member of \<open>Object.prototype\<close>), and rendering goes on after the token.
  Every other character is copied: one that is not an \<open>@\<close>, an \<open>@\<close> followed at once
  by an \<open>@\<close>, and an \<open>@\<close> with no \<open>@\<close> after it. These rules fix the result for every
  template. With the value map \<open>{dosbox_memsize: "256"}\<close> the template
  \<open>"memsize=@dosbox_memsize@\ncore=@cpu_core@"\<close> renders to
  \<open>"memsize=256\ncore=dynamic"\<close>, \<open>cpu_core\<close> being \<open>"dynamic"\<close> in the table; with
  \<open>cpu_core: "auto"\<close> in the value map as well it renders to
  \<open>"memsize=256\ncore=auto"\<close>.
\<close>

theorem C6_template_rendering:
  "applyValuesToTemplate nativeText [] vals = []
   \<and> (c \<noteq> CHR ''@''
      \<longrightarrow> applyValuesToTemplate nativeText (c # cs) vals
            = c # applyValuesToTemplate nativeText cs vals)
   \<and> (CHR ''@'' \<notin> set key \<and> key \<noteq> []
       \<and> (vals key \<noteq> None \<or> key \<notin> set objectPrototypeMembers)
      \<longrightarrow> applyValuesToTemplate nativeText (CHR ''@'' # key @ CHR ''@'' # post) vals
            = (case vals key of
                 Some v \<Rightarrow> v
               | None \<Rightarrow> (case map_of WIN9X_DEFAULTS key of Some d \<Rightarrow> d | None \<Rightarrow> []))
              @ applyValuesToTemplate nativeText post vals)
   \<and> applyValuesToTemplate nativeText (CHR ''@'' # CHR ''@'' # cs) vals
       = CHR ''@'' # applyValuesToTemplate nativeText (CHR ''@'' # cs) vals
   \<and> (CHR ''@'' \<notin> set cs
      \<longrightarrow> applyValuesToTemplate nativeText (CHR ''@'' # cs) vals = CHR ''@'' # cs)
   \<and> applyValuesToTemplate nativeText
        (''memsize=@dosbox_memsize@'' @ [CHR 0x0A] @ ''core=@cpu_core@'')
        [''dosbox_memsize'' \<mapsto> ''256'']
       = ''memsize=256'' @ [CHR 0x0A] @ ''core=dynamic''
   \<and> applyValuesToTemplate nativeText
        (''memsize=@dosbox_memsize@'' @ [CHR 0x0A] @ ''core=@cpu_core@'')
        [''dosbox_memsize'' \<mapsto> ''256'', ''cpu_core'' \<mapsto> ''auto'']
       = ''memsize=256'' @ [CHR 0x0A] @ ''core=auto''
   \<and> applyValuesToTemplate nativeText ''a@@k@b@'' [''k'' \<mapsto> ''v''] = ''a@vb@''"
proof -
  have nil: "applyValuesToTemplate nativeText [] vals = []"
    by (simp add: applyValuesToTemplate_def)
  have copy: "c \<noteq> CHR ''@''
      \<longrightarrow> applyValuesToTemplate nativeText (c # cs) vals
            = c # applyValuesToTemplate nativeText cs vals"
    by (simp add: applyValuesToTemplate_def)
  have tok: "CHR ''@'' \<notin> set key \<and> key \<noteq> []
       \<and> (vals key \<noteq> None \<or> key \<notin> set objectPrototypeMembers)
      \<longrightarrow> applyValuesToTemplate nativeText (CHR ''@'' # key @ CHR ''@'' # post) vals
            = (case vals key of
                 Some v \<Rightarrow> v
               | None \<Rightarrow> (case map_of WIN9X_DEFAULTS key of Some d \<Rightarrow> d | None \<Rightarrow> []))
              @ applyValuesToTemplate nativeText post vals"
  proof (intro impI, elim conjE)
    assume k: "CHR ''@'' \<notin> set key" "key \<noteq> []"
      and v: "vals key \<noteq> None \<or> key \<notin> set objectPrototypeMembers"
    show "applyValuesToTemplate nativeText (CHR ''@'' # key @ CHR ''@'' # post) vals
            = (case vals key of
                 Some v \<Rightarrow> v
               | None \<Rightarrow> (case map_of WIN9X_DEFAULTS key of Some d \<Rightarrow> d | None \<Rightarrow> []))
              @ applyValuesToTemplate nativeText post vals"
      unfolding applyValuesToTemplate_def
      by (simp only: replacePlaceholders_token [OF k]
          resolvePlaceholder_cases [of vals key nativeText, OF v])
  qed
  have empty: "applyValuesToTemplate nativeText (CHR ''@'' # CHR ''@'' # cs) vals
       = CHR ''@'' # applyValuesToTemplate nativeText (CHR ''@'' # cs) vals"
    unfolding applyValuesToTemplate_def by (rule replacePlaceholders_empty_token)
  have opn: "CHR ''@'' \<notin> set cs
      \<longrightarrow> applyValuesToTemplate nativeText (CHR ''@'' # cs) vals = CHR ''@'' # cs"
    unfolding applyValuesToTemplate_def
    by (intro impI) (rule replacePlaceholders_open_token)
  have ex1: "applyValuesToTemplate nativeText
        (''memsize=@dosbox_memsize@'' @ [CHR 0x0A] @ ''core=@cpu_core@'')
        [''dosbox_memsize'' \<mapsto> ''256'']
       = ''memsize=256'' @ [CHR 0x0A] @ ''core=dynamic''"
    by code_simp
  have ex2: "applyValuesToTemplate nativeText
        (''memsize=@dosbox_memsize@'' @ [CHR 0x0A] @ ''core=@cpu_core@'')
        [''dosbox_memsize'' \<mapsto> ''256'', ''cpu_core'' \<mapsto> ''auto'']
       = ''memsize=256'' @ [CHR 0x0A] @ ''core=auto''"
    by code_simp
  have ex3: "applyValuesToTemplate nativeText ''a@@k@b@'' [''k'' \<mapsto> ''v''] = ''a@vb@''"
    by code_simp
  from nil copy tok empty opn ex1 ex2 ex3 show ?thesis
    by (intro conjI)
qed

theorem C6_template_rendering_witness:
  "\<forall>nativeText.
     CHR ''a'' \<noteq> CHR ''@''
     \<and> applyValuesToTemplate nativeText (CHR ''a'' # ''@k@'') Map.empty
         = CHR ''a'' # applyValuesToTemplate nativeText ''@k@'' Map.empty
     \<and> CHR ''@'' \<notin> set ''k'' \<and> ''k'' \<noteq> [] \<and> ''k'' \<notin> set objectPrototypeMembers
     \<and> map_of WIN9X_DEFAULTS ''k'' = None
     \<and> applyValuesToTemplate nativeText (CHR ''@'' # ''k'' @ CHR ''@'' # '';'') Map.empty = '';''
     \<and> applyValuesToTemplate nativeText (CHR ''@'' # ''k'' @ CHR ''@'' # '';'') [''k'' \<mapsto> ''v'']
         = ''v;''
     \<and> CHR ''@'' \<notin> set ''cpu_core'' \<and> ''cpu_core'' \<notin> set objectPrototypeMembers
     \<and> applyValuesToTemplate nativeText (CHR ''@'' # ''cpu_core'' @ CHR ''@'' # []) Map.empty
         = ''dynamic''
     \<and> CHR ''@'' \<notin> set ''b''
     \<and> applyValuesToTemplate nativeText (CHR ''@'' # ''b'') Map.empty = ''@b''"
proof
  fix nativeText
  have h: "CHR ''a'' \<noteq> CHR ''@''" "CHR ''@'' \<notin> set ''k''" "''k'' \<noteq> []"
    "CHR ''@'' \<notin> set ''cpu_core''" "''cpu_core'' \<noteq> []" "CHR ''@'' \<notin> set ''b''"
    "CHR '';'' \<noteq> CHR ''@''"
    by simp_all
  have m: "''k'' \<notin> set objectPrototypeMembers" "''cpu_core'' \<notin> set objectPrototypeMembers"
    by (simp_all add: objectPrototypeMembers_def)
  have k: "map_of WIN9X_DEFAULTS ''k'' = None"
    by code_simp
  have cc: "map_of WIN9X_DEFAULTS ''cpu_core'' = Some ''dynamic''"
    by code_simp
  note T = C6_template_rendering [where nativeText = nativeText]
  have nil: "applyValuesToTemplate nativeText [] vals = []" for vals
    by (rule T [of vals, THEN conjunct1])
  have tail: "applyValuesToTemplate nativeText '';'' vals = '';''" for vals
  proof -
    have "applyValuesToTemplate nativeText (CHR '';'' # []) vals
        = CHR '';'' # applyValuesToTemplate nativeText [] vals"
      using T [of vals "CHR '';''" "[]"] h(7) by blast
    then show ?thesis
      by (simp add: nil)
  qed
  have r1: "applyValuesToTemplate nativeText (CHR ''a'' # ''@k@'') Map.empty
         = CHR ''a'' # applyValuesToTemplate nativeText ''@k@'' Map.empty"
    using T [of Map.empty "CHR ''a''" "''@k@''"] h(1) by blast
  have "applyValuesToTemplate nativeText (CHR ''@'' # ''k'' @ CHR ''@'' # '';'') Map.empty
      = (case Map.empty ''k'' of
           Some v \<Rightarrow> v
         | None \<Rightarrow> (case map_of WIN9X_DEFAULTS ''k'' of Some d \<Rightarrow> d | None \<Rightarrow> []))
        @ applyValuesToTemplate nativeText '';'' Map.empty"
    using T [of Map.empty c cs "''k''" "'';''"] h(2,3) m(1) by blast
  then have r2: "applyValuesToTemplate nativeText (CHR ''@'' # ''k'' @ CHR ''@'' # '';'') Map.empty
      = '';''"
    by (simp add: k tail)
  have "applyValuesToTemplate nativeText (CHR ''@'' # ''k'' @ CHR ''@'' # '';'') [''k'' \<mapsto> ''v'']
      = (case [''k'' \<mapsto> ''v''] ''k'' of
           Some v \<Rightarrow> v
         | None \<Rightarrow> (case map_of WIN9X_DEFAULTS ''k'' of Some d \<Rightarrow> d | None \<Rightarrow> []))
        @ applyValuesToTemplate nativeText '';'' [''k'' \<mapsto> ''v'']"
    using T [of "[''k'' \<mapsto> ''v'']" c cs "''k''" "'';''"] h(2,3) m(1) by blast
  then have r3: "applyValuesToTemplate nativeText (CHR ''@'' # ''k'' @ CHR ''@'' # '';'')
        [''k'' \<mapsto> ''v''] = ''v;''"
    by (simp add: tail)
  have "applyValuesToTemplate nativeText (CHR ''@'' # ''cpu_core'' @ CHR ''@'' # []) Map.empty
      = (case Map.empty ''cpu_core'' of
           Some v \<Rightarrow> v
         | None \<Rightarrow> (case map_of WIN9X_DEFAULTS ''cpu_core'' of Some d \<Rightarrow> d | None \<Rightarrow> []))
        @ applyValuesToTemplate nativeText [] Map.empty"
    using T [of Map.empty c cs "''cpu_core''" "[]"] h(4,5) m(2) by blast
  then have r4: "applyValuesToTemplate nativeText (CHR ''@'' # ''cpu_core'' @ CHR ''@'' # [])
        Map.empty = ''dynamic''"
    by (simp add: cc nil)
  have r5: "applyValuesToTemplate nativeText (CHR ''@'' # ''b'') Map.empty = ''@b''"
    using T [of Map.empty c "''b''"] h(6) by blast
  from h(1) r1 h(2,3) m(1) k r2 r3 h(4) m(2) r4 h(6) r5
  show "CHR ''a'' \<noteq> CHR ''@''
     \<and> applyValuesToTemplate nativeText (CHR ''a'' # ''@k@'') Map.empty
         = CHR ''a'' # applyValuesToTemplate nativeText ''@k@'' Map.empty
     \<and> CHR ''@'' \<notin> set ''k'' \<and> ''k'' \<noteq> [] \<and> ''k'' \<notin> set objectPrototypeMembers
     \<and> map_of WIN9X_DEFAULTS ''k'' = None
     \<and> applyValuesToTemplate nativeText (CHR ''@'' # ''k'' @ CHR ''@'' # '';'') Map.empty = '';''
     \<and> applyValuesToTemplate nativeText (CHR ''@'' # ''k'' @ CHR ''@'' # '';'') [''k'' \<mapsto> ''v'']
         = ''v;''
     \<and> CHR ''@'' \<notin> set ''cpu_core'' \<and> ''cpu_core'' \<notin> set objectPrototypeMembers
     \<and> applyValuesToTemplate nativeText (CHR ''@'' # ''cpu_core'' @ CHR ''@'' # []) Map.empty
         = ''dynamic''
     \<and> CHR ''@'' \<notin> set ''b''
     \<and> applyValuesToTemplate nativeText (CHR ''@'' # ''b'') Map.empty = ''@b''"
    by (intro conjI)
qed

subsection \<open>C7: the assembled document\<close>

lemma dropWhile_append_stop:
  "ys \<noteq> [] \<Longrightarrow> \<not> P (hd ys) \<Longrightarrow> dropWhile P (xs @ ys) = dropWhile P xs @ ys"
  by (induction xs) (auto simp: neq_Nil_conv)

lemma js_trimStart_append:
  "ys \<noteq> [] \<Longrightarrow> \<not> isWhiteSpace (hd ys) \<Longrightarrow> js_trimStart (xs @ ys) = js_trimStart xs @ ys"
  by (simp add: js_trimStart_def dropWhile_append_stop)

lemma js_trimEnd_append:
  assumes "c \<in> set ys" and "\<not> isWhiteSpace c"
  shows "js_trimEnd (xs @ ys) = xs @ js_trimEnd ys"
proof -
  have "dropWhile isWhiteSpace (rev ys @ rev xs) = dropWhile isWhiteSpace (rev ys) @ rev xs"
    using assms by (intro dropWhile_append1 [of c]) auto
  then show ?thesis
    by (simp add: js_trimEnd_def)
qed

lemma js_trim_append:
  assumes "ys \<noteq> []" and "\<not> isWhiteSpace (hd ys)"
  shows "js_trim (xs @ ys) = js_trimStart xs @ js_trimEnd ys"
proof -
  have "hd ys \<in> set ys"
    using assms(1) by simp
  then show ?thesis
    using assms by (simp add: js_trim_def js_trimStart_append js_trimEnd_append [of "hd ys"])
qed

lemma sublist_js_join: "l \<in> set ls \<Longrightarrow> sublist l (js_join sep ls)"
proof (induction sep ls rule: js_join.induct)
  case (1 sep)
  then show ?case by simp
next
  case (2 sep p)
  then show ?case by simp
next
  case (3 sep p q ps)
  show ?case
  proof (cases "l = p")
    case True
    then show ?thesis
      by (simp add: sublist_append_rightI)
  next
    case False
    with 3 have "sublist l (js_join sep (q # ps))"
      by simp
    then obtain xs ys where "js_join sep (q # ps) = xs @ l @ ys"
      by (auto simp: sublist_def)
    then have "js_join sep (p # q # ps) = (p @ sep @ xs) @ l @ ys"
      by simp
    then show ?thesis
      unfolding sublist_def by blast
  qed
qed

lemma confLines_no_special:
  "isSpecialSection r \<Longrightarrow> ''['' @ r @ '']'' \<notin> set (confLines settings)"
proof (induction settings)
  case Nil
  show ?case by simp
next
  case (Cons p settings)
  obtain sect items where p: "p = (sect, items)"
    by (cases p)
  have kv: "''['' @ r @ '']'' \<noteq> key @ ''='' @ v" for key v
  proof
    assume "''['' @ r @ '']'' = key @ ''='' @ v"
    then have "CHR ''='' \<in> set (''['' @ r @ '']'')"
      by simp
    with Cons.prems show False
      by (auto simp: isSpecialSection_def)
  qed
  have hdr: "''['' @ r @ '']'' \<noteq> ''['' @ sect @ '']''" if "\<not> isSpecialSection sect"
    using that Cons.prems by auto
  show ?case
    using Cons p kv hdr by (auto simp: image_iff)
qed

lemma confLines_header:
  "(sect, items) \<in> set settings \<Longrightarrow> \<not> isSpecialSection sect
     \<Longrightarrow> ''['' @ sect @ '']'' \<in> set (confLines settings)"
  by (induction settings) auto

lemma generateDosboxConf_shape:
  "generateDosboxConf settings autoexec header
     = js_trimStart ((case header of None \<Rightarrow> [] | Some h \<Rightarrow> if h = [] then [] else h @ [CHR 0x0A, CHR 0x0A])
                     @ settingsToConfString settings @ [CHR 0x0A])
       @ js_trimEnd (''[autoexec]'' @ [CHR 0x0A] @ autoexec)"
proof -
  let ?H = "(case header of None \<Rightarrow> [] | Some h \<Rightarrow> if h = [] then [] else h @ [CHR 0x0A, CHR 0x0A])"
  have j: "js_join [CHR 0x0A]
       ((case header of None \<Rightarrow> [] | Some h \<Rightarrow> if h = [] then [] else [h, []])
        @ [settingsToConfString settings, ''[autoexec]'', autoexec])
        = (?H @ settingsToConfString settings @ [CHR 0x0A]) @ (''[autoexec]'' @ [CHR 0x0A] @ autoexec)"
    by (simp split: option.splits)
  have nw: "\<not> isWhiteSpace (hd (''[autoexec]'' @ [CHR 0x0A] @ autoexec))"
    by (simp add: isWhiteSpace_def)
  show ?thesis
    unfolding generateDosboxConf_def j
    by (rule js_trim_append) (use nw in simp_all)
qed

text \<open>
  C7, as stated, fails: \<open>generateDosboxConf\<close> trims the joined document, so the white
  space at the end of the autoexec text is lost. The document of the example is
  \<open>"[dosbox]\nmemsize=16\n\n[autoexec]\nexit"\<close>; it does not end with
  \<open>"[autoexec]\nexit\n"\<close>.
\<close>

theorem C7_trailing_newline_counterexample:
  "generateDosboxConf
      [(''default'', [(''version'', ''x'')]), (''dosbox'', [(''memsize'', ''16'')])]
      (''exit'' @ [CHR 0x0A]) None
     = ''[dosbox]'' @ [CHR 0x0A] @ ''memsize=16'' @ [CHR 0x0A, CHR 0x0A]
       @ ''[autoexec]'' @ [CHR 0x0A] @ ''exit''
   \<and> \<not> endsWith
        (generateDosboxConf
           [(''default'', [(''version'', ''x'')]), (''dosbox'', [(''memsize'', ''16'')])]
           (''exit'' @ [CHR 0x0A]) None)
        (''[autoexec]'' @ [CHR 0x0A] @ ''exit'' @ [CHR 0x0A])"
  by code_simp

text \<open>
  C7, amended: for every settings map, autoexec text and optional header, no line that
  \<open>settingsToConfString\<close> emits is the header of a reserved pseudo-section
  (\<open>[default]\<close>, \<open>[win9x]\<close>, \<open>[pcem]\<close>, \<open>[separator]\<close>); the document contains
  \<open>[dosbox]\<close> when the map has a \<open>dosbox\<close> section; and the document is the joined
  text trimmed at both ends, so it ends with \<open>[autoexec]\<close>, a newline and the autoexec
  text without its trailing white space (with \<open>[autoexec]\<close> alone when the autoexec
  text is all white space). The example document is
  \<open>"[dosbox]\nmemsize=16\n\n[autoexec]\nexit"\<close>: it contains \<open>[dosbox]\<close>, does not
  contain \<open>[default]\<close> and ends with \<open>"[autoexec]\nexit"\<close>.
\<close>

theorem C7_assembled_document:
  "(isSpecialSection r \<longrightarrow> ''['' @ r @ '']'' \<notin> set (confLines settings))
   \<and> (map_of settings ''dosbox'' \<noteq> None
        \<longrightarrow> js_includes (generateDosboxConf settings autoexec header) ''[dosbox]'')
   \<and> generateDosboxConf settings autoexec header
       = js_trimStart ((case header of
                          None \<Rightarrow> []
                        | Some h \<Rightarrow> if h = [] then [] else h @ [CHR 0x0A, CHR 0x0A])
                       @ settingsToConfString settings @ [CHR 0x0A])
         @ js_trimEnd (''[autoexec]'' @ [CHR 0x0A] @ autoexec)
   \<and> endsWith (generateDosboxConf settings autoexec header)
        (js_trimEnd (''[autoexec]'' @ [CHR 0x0A] @ autoexec))
   \<and> (list_ex (\<lambda>c. \<not> isWhiteSpace c) autoexec
        \<longrightarrow> js_trimEnd (''[autoexec]'' @ [CHR 0x0A] @ autoexec)
            = ''[autoexec]'' @ [CHR 0x0A] @ js_trimEnd autoexec)
   \<and> (list_all isWhiteSpace autoexec
        \<longrightarrow> js_trimEnd (''[autoexec]'' @ [CHR 0x0A] @ autoexec) = ''[autoexec]'')
   \<and> js_includes
        (generateDosboxConf
           [(''default'', [(''version'', ''x'')]), (''dosbox'', [(''memsize'', ''16'')])]
           (''exit'' @ [CHR 0x0A]) None) ''[dosbox]''
   \<and> \<not> js_includes
        (generateDosboxConf
           [(''default'', [(''version'', ''x'')]), (''dosbox'', [(''memsize'', ''16'')])]
           (''exit'' @ [CHR 0x0A]) None) ''[default]''
   \<and> endsWith
        (generateDosboxConf
           [(''default'', [(''version'', ''x'')]), (''dosbox'', [(''memsize'', ''16'')])]
           (''exit'' @ [CHR 0x0A]) None)
        (''[autoexec]'' @ [CHR 0x0A] @ ''exit'')"
proof -
  let ?H = "(case header of None \<Rightarrow> [] | Some h \<Rightarrow> if h = [] then [] else h @ [CHR 0x0A, CHR 0x0A])"
  have dosbox: "js_includes (generateDosboxConf settings autoexec header) ''[dosbox]''"
    if "map_of settings ''dosbox'' \<noteq> None"
  proof -
    from that obtain items where "(''dosbox'', items) \<in> set settings"
      by (auto dest: map_of_SomeD)
    then have "''['' @ ''dosbox'' @ '']'' \<in> set (confLines settings)"
      by (rule confLines_header) (simp add: isSpecialSection_def)
    then have "sublist ''[dosbox]'' (settingsToConfString settings)"
      unfolding settingsToConfString_def by (intro sublist_js_join) simp
    then obtain ps ss where c: "settingsToConfString settings = ps @ ''[dosbox]'' @ ss"
      by (auto simp: sublist_def)
    have "js_trimStart (?H @ settingsToConfString settings @ [CHR 0x0A])
            = js_trimStart (?H @ ps) @ (''[dosbox]'' @ ss @ [CHR 0x0A])"
      unfolding c using js_trimStart_append [of "''[dosbox]'' @ ss @ [CHR 0x0A]" "?H @ ps"]
      by (simp add: isWhiteSpace_def)
    then have "generateDosboxConf settings autoexec header
        = js_trimStart (?H @ ps) @ ''[dosbox]''
          @ (ss @ [CHR 0x0A] @ js_trimEnd (''[autoexec]'' @ [CHR 0x0A] @ autoexec))"
      by (simp add: generateDosboxConf_shape)
    then show ?thesis
      unfolding js_includes_def sublist_def by blast
  qed
  have ends: "endsWith (generateDosboxConf settings autoexec header)
        (js_trimEnd (''[autoexec]'' @ [CHR 0x0A] @ autoexec))"
    by (simp add: generateDosboxConf_shape endsWith_def suffix_def)
  have te1: "js_trimEnd (''[autoexec]'' @ [CHR 0x0A] @ autoexec)
            = ''[autoexec]'' @ [CHR 0x0A] @ js_trimEnd autoexec"
    if "list_ex (\<lambda>c. \<not> isWhiteSpace c) autoexec"
  proof -
    from that obtain c where "c \<in> set autoexec" "\<not> isWhiteSpace c"
      by (auto simp: list_ex_iff)
    from js_trimEnd_append [OF this, of "''[autoexec]'' @ [CHR 0x0A]"] show ?thesis
      by simp
  qed
  have te2: "js_trimEnd (''[autoexec]'' @ [CHR 0x0A] @ autoexec) = ''[autoexec]''"
    if "list_all isWhiteSpace autoexec"
  proof -
    have "dropWhile isWhiteSpace (rev autoexec @ rev (''[autoexec]'' @ [CHR 0x0A]))
            = dropWhile isWhiteSpace (rev (''[autoexec]'' @ [CHR 0x0A]))"
      using that by (intro dropWhile_append2) (simp add: list_all_iff)
    then show ?thesis
      by (simp add: js_trimEnd_def isWhiteSpace_def)
  qed
  have e1: "js_includes
        (generateDosboxConf
           [(''default'', [(''version'', ''x'')]), (''dosbox'', [(''memsize'', ''16'')])]
           (''exit'' @ [CHR 0x0A]) None) ''[dosbox]''"
    by code_simp
  have e2: "\<not> js_includes
        (generateDosboxConf
           [(''default'', [(''version'', ''x'')]), (''dosbox'', [(''memsize'', ''16'')])]
           (''exit'' @ [CHR 0x0A]) None) ''[default]''"
    by code_simp
  have e3: "endsWith
        (generateDosboxConf
           [(''default'', [(''version'', ''x'')]), (''dosbox'', [(''memsize'', ''16'')])]
           (''exit'' @ [CHR 0x0A]) None)
        (''[autoexec]'' @ [CHR 0x0A] @ ''exit'')"
    by code_simp
  show ?thesis
    using confLines_no_special [of r settings] dosbox ends te1 te2 e1 e2 e3
      generateDosboxConf_shape [of settings autoexec header]
    by blast
qed

theorem C7_assembled_document_witness:
  "isSpecialSection ''win9x''
   \<and> ''[win9x]'' \<notin> set (confLines [(''win9x'', [(''9xres'', ''640x8'')]), (''dosbox'', [])])
   \<and> map_of [(''win9x'', [(''9xres'', ''640x8'')]), (''dosbox'', [])] ''dosbox'' \<noteq> None
   \<and> js_includes
        (generateDosboxConf [(''win9x'', [(''9xres'', ''640x8'')]), (''dosbox'', [])]
           ''mount c .  '' (Some ''# generated'')) ''[dosbox]''
   \<and> list_ex (\<lambda>c. \<not> isWhiteSpace c) ''mount c .  ''
   \<and> endsWith
        (generateDosboxConf [(''win9x'', [(''9xres'', ''640x8'')]), (''dosbox'', [])]
           ''mount c .  '' (Some ''# generated''))
        (''[autoexec]'' @ [CHR 0x0A] @ ''mount c .'')
   \<and> list_all isWhiteSpace ''  ''
   \<and> endsWith (generateDosboxConf [] ''  '' None) ''[autoexec]''"
proof -
  let ?s = "[(''win9x'', [(''9xres'', ''640x8'')]), (''dosbox'', [])]"
  have h1: "isSpecialSection ''win9x''"
    by (simp add: isSpecialSection_def)
  have h2: "map_of ?s ''dosbox'' \<noteq> None"
    by simp
  have h3: "list_ex (\<lambda>c. \<not> isWhiteSpace c) ''mount c .  ''"
    by (simp add: isWhiteSpace_def)
  have h4: "list_all isWhiteSpace ''  ''"
    by (simp add: isWhiteSpace_def)
  have t: "js_trimEnd ''mount c .  '' = ''mount c .''"
    by code_simp
  note thm1 = C7_assembled_document [of "''win9x''" ?s "''mount c .  ''" "Some ''# generated''"]
  note thm2 = C7_assembled_document [of "''win9x''" "[]" "''  ''" None]
  have "''['' @ ''win9x'' @ '']'' \<notin> set (confLines ?s)"
    using thm1 h1 by blast
  then have r1: "''[win9x]'' \<notin> set (confLines ?s)"
    by simp
  have r2: "js_includes (generateDosboxConf ?s ''mount c .  '' (Some ''# generated'')) ''[dosbox]''"
    using thm1 h2 by blast
  have "endsWith (generateDosboxConf ?s ''mount c .  '' (Some ''# generated''))
        (js_trimEnd (''[autoexec]'' @ [CHR 0x0A] @ ''mount c .  ''))"
    and "js_trimEnd (''[autoexec]'' @ [CHR 0x0A] @ ''mount c .  '')
            = ''[autoexec]'' @ [CHR 0x0A] @ js_trimEnd ''mount c .  ''"
    using thm1 h3 by blast+
  then have r3: "endsWith (generateDosboxConf ?s ''mount c .  '' (Some ''# generated''))
        (''[autoexec]'' @ [CHR 0x0A] @ ''mount c .'')"
    by (simp only: t)
  have "endsWith (generateDosboxConf [] ''  '' None)
        (js_trimEnd (''[autoexec]'' @ [CHR 0x0A] @ ''  ''))"
    and "js_trimEnd (''[autoexec]'' @ [CHR 0x0A] @ ''  '') = ''[autoexec]''"
    using thm2 h4 by blast+
  then have r4: "endsWith (generateDosboxConf [] ''  '' None) ''[autoexec]''"
    by (simp only:)
  from h1 r1 h2 r2 h3 r3 h4 r4 show ?thesis
    by blast
qed

subsection \<open>C8: an unknown address is skipped\<close>

text \<open>
  C8: an entry whose (section, item) pair the active schema does not know is skipped:
  the result is the one the list without that entry gives, wherever the entry stands,
  under either schema and in either revision of the tables. The entry (99, 99, v) is
  such an entry for every table, and alone it resolves to the empty map. No path of
  the function raises: a failed lookup is the \<open>continue\<close> branch.
\<close>

theorem C8_unknown_address_skipped:
  "(lookupKey (if isLegacy then SECTION_INDEX_LEGACY else SECTION_INDEX)
              (if isLegacy then SECTION_ITEMS_LEGACY else SECTION_ITEMS)
              (e_section entry) (e_item entry) = None
      \<longrightarrow> convertEditConfToSettings (before @ entry # after) isLegacy
            = convertEditConfToSettings (before @ after) isLegacy)
   \<and> (lookupKey (if isLegacy then SECTION_INDEX_LEGACY_2 else SECTION_NAMES)
              (if isLegacy then SECTION_ITEMS_LEGACY_2 else OPTION_DAT_SECTION_ITEMS)
              (e_section entry) (e_item entry) = None
      \<longrightarrow> convertEditConfToSettings_2 (before @ entry # after) isLegacy
            = convertEditConfToSettings_2 (before @ after) isLegacy)
   \<and> convertEditConfToSettings [\<lparr>e_section = 99, e_item = 99, e_value = v\<rparr>] isLegacy = []
   \<and> convertEditConfToSettings_2 [\<lparr>e_section = 99, e_item = 99, e_value = v\<rparr>] isLegacy = []
   \<and> getKeyForEditConfEntry 99 99 = None"
proof -
  have k1: "lookupKey SECTION_INDEX_LEGACY SECTION_ITEMS_LEGACY 99 99 = None"
    by (simp add: lookupKey_def SECTION_INDEX_LEGACY_def)
  have k2: "lookupKey SECTION_INDEX SECTION_ITEMS 99 99 = None"
    by (simp add: lookupKey_def SECTION_INDEX_def)
  have k3: "lookupKey SECTION_INDEX_LEGACY_2 SECTION_ITEMS_LEGACY_2 99 99 = None"
    by (simp add: lookupKey_def SECTION_INDEX_LEGACY_2_def)
  have k4: "lookupKey SECTION_NAMES OPTION_DAT_SECTION_ITEMS 99 99 = None"
    by (simp add: lookupKey_def SECTION_NAMES_def)
  have single: "convertEditConfToSettings [\<lparr>e_section = 99, e_item = 99, e_value = v\<rparr>] isLegacy = []"
    using k1 k2 by (cases isLegacy) (simp_all add: convertEditConfToSettings_def convertEntry_unknown)
  have single2: "convertEditConfToSettings_2 [\<lparr>e_section = 99, e_item = 99, e_value = v\<rparr>] isLegacy = []"
    using k3 k4 by (cases isLegacy) (simp_all add: convertEditConfToSettings_2_def convertEntry_unknown)
  show ?thesis
    using single single2 k4
    by (simp add: convertEditConfToSettings_def convertEditConfToSettings_2_def
        convertEntry_unknown getKeyForEditConfEntry_def)
qed

theorem C8_unknown_address_skipped_witness:
  "lookupKey SECTION_INDEX_LEGACY SECTION_ITEMS_LEGACY 99 99 = None
   \<and> lookupKey SECTION_NAMES OPTION_DAT_SECTION_ITEMS 99 99 = None
   \<and> convertEditConfToSettings
        [\<lparr>e_section = 3, e_item = 3, e_value = ''256''\<rparr>,
         \<lparr>e_section = 99, e_item = 99, e_value = ''anything''\<rparr>,
         \<lparr>e_section = 6, e_item = 0, e_value = ''auto''\<rparr>] True
       = [(''dosbox'', [(''memsize'', ''256'')]), (''cpu'', [(''core'', ''auto'')])]
   \<and> convertEditConfToSettings_2
        [\<lparr>e_section = 7, e_item = 3, e_value = ''256''\<rparr>,
         \<lparr>e_section = 99, e_item = 99, e_value = ''anything''\<rparr>,
         \<lparr>e_section = 8, e_item = 0, e_value = ''auto''\<rparr>] False
       = [(''dosbox'', [(''memsize'', ''256'')]), (''cpu'', [(''core'', ''auto'')])]"
proof -
  have k1: "lookupKey SECTION_INDEX_LEGACY SECTION_ITEMS_LEGACY 99 99 = None"
    by (simp add: lookupKey_def SECTION_INDEX_LEGACY_def)
  have k4: "lookupKey SECTION_NAMES OPTION_DAT_SECTION_ITEMS 99 99 = None"
    by (simp add: lookupKey_def SECTION_NAMES_def)
  have r1: "convertEditConfToSettings
        [\<lparr>e_section = 3, e_item = 3, e_value = ''256''\<rparr>,
         \<lparr>e_section = 6, e_item = 0, e_value = ''auto''\<rparr>] True
       = [(''dosbox'', [(''memsize'', ''256'')]), (''cpu'', [(''core'', ''auto'')])]"
    by code_simp
  have r2: "convertEditConfToSettings_2
        [\<lparr>e_section = 7, e_item = 3, e_value = ''256''\<rparr>,
         \<lparr>e_section = 8, e_item = 0, e_value = ''auto''\<rparr>] False
       = [(''dosbox'', [(''memsize'', ''256'')]), (''cpu'', [(''core'', ''auto'')])]"
    by code_simp
  have s1: "convertEditConfToSettings
        ([\<lparr>e_section = 3, e_item = 3, e_value = ''256''\<rparr>]
          @ \<lparr>e_section = 99, e_item = 99, e_value = ''anything''\<rparr>
          # [\<lparr>e_section = 6, e_item = 0, e_value = ''auto''\<rparr>]) True
       = convertEditConfToSettings
        ([\<lparr>e_section = 3, e_item = 3, e_value = ''256''\<rparr>]
          @ [\<lparr>e_section = 6, e_item = 0, e_value = ''auto''\<rparr>]) True"
    using C8_unknown_address_skipped
      [of True "\<lparr>e_section = 99, e_item = 99, e_value = ''anything''\<rparr>"
          "[\<lparr>e_section = 3, e_item = 3, e_value = ''256''\<rparr>]"
          "[\<lparr>e_section = 6, e_item = 0, e_value = ''auto''\<rparr>]"] k1
    by simp
  have s2: "convertEditConfToSettings_2
        ([\<lparr>e_section = 7, e_item = 3, e_value = ''256''\<rparr>]
          @ \<lparr>e_section = 99, e_item = 99, e_value = ''anything''\<rparr>
          # [\<lparr>e_section = 8, e_item = 0, e_value = ''auto''\<rparr>]) False
       = convertEditConfToSettings_2
        ([\<lparr>e_section = 7, e_item = 3, e_value = ''256''\<rparr>]
          @ [\<lparr>e_section = 8, e_item = 0, e_value = ''auto''\<rparr>]) False"
    using C8_unknown_address_skipped
      [of False "\<lparr>e_section = 99, e_item = 99, e_value = ''anything''\<rparr>"
          "[\<lparr>e_section = 7, e_item = 3, e_value = ''256''\<rparr>]"
          "[\<lparr>e_section = 8, e_item = 0, e_value = ''auto''\<rparr>]"] k4
    by simp
  from k1 k4 r1 r2 s1 s2 show ?thesis
    by simp
qed

subsection \<open>C9: the resolution string\<close>

lemma isDigit_x [simp]: "\<not> isDigit CHR ''x''"
  by (simp add: isDigit_def)

text \<open>The search of \<^const>\<open>match9xRes\<close> succeeds exactly on the strings that hold a
  digit, an \<open>x\<close> and a digit in a row, which is when \<open>/(\d+)x(\d+)/\<close> matches.\<close>

lemma match9xRes_found:
  "isDigit d1 \<Longrightarrow> isDigit d2 \<Longrightarrow> match9xRes (pre @ d1 # CHR ''x'' # d2 # post) \<noteq> None"
proof (induction pre)
  case Nil
  then show ?case
    by (simp add: startsWith_def)
next
  case (Cons c pre)
  then show ?case
    by (simp add: Let_def)
qed

lemma match9xRes_Some:
  "match9xRes s = Some (g1, g2)
     \<Longrightarrow> \<exists>pre d1 d2 post. s = pre @ d1 # CHR ''x'' # d2 # post \<and> isDigit d1 \<and> isDigit d2"
proof (induction s)
  case Nil
  then show ?case by simp
next
  case (Cons c cs)
  let ?s = "c # cs"
  let ?r = "dropWhile isDigit ?s"
  show ?case
  proof (cases "takeWhile isDigit ?s \<noteq> [] \<and> startsWith ?r ''x''
                  \<and> takeWhile isDigit (drop 1 ?r) \<noteq> []")
    case True
    then obtain r' where r: "?r = CHR ''x'' # r'"
      by (auto simp: startsWith_def prefix_def)
    from True r have g2: "takeWhile isDigit r' \<noteq> []"
      by simp
    then obtain d2 post where r': "r' = d2 # post" and d2: "isDigit d2"
      by (cases r') (auto split: if_splits)
    from True have "takeWhile isDigit ?s \<noteq> []"
      by simp
    then obtain pre d1 where g1: "takeWhile isDigit ?s = pre @ [d1]"
      by (metis rev_exhaust)
    have "d1 \<in> set (takeWhile isDigit ?s)"
      unfolding g1 by simp
    then have d1: "isDigit d1"
      by (rule set_takeWhileD [THEN conjunct2])
    have "?s = takeWhile isDigit ?s @ ?r"
      by simp
    then have "?s = pre @ d1 # CHR ''x'' # d2 # post"
      by (simp only: g1 r r' append_assoc append_Cons append_Nil)
    with d1 d2 show ?thesis
      by blast
  next
    case False
    with Cons.prems have "match9xRes cs = Some (g1, g2)"
      by (simp add: Let_def split: if_splits)
    from Cons.IH [OF this] obtain pre d1 d2 post
      where "cs = pre @ d1 # CHR ''x'' # d2 # post" "isDigit d1" "isDigit d2"
      by blast
    then have "c # cs = (c # pre) @ d1 # CHR ''x'' # d2 # post \<and> isDigit d1 \<and> isDigit d2"
      by simp
    then show ?thesis
      by blast
  qed
qed

lemma match9xRes_groups:
  "match9xRes s = Some (g1, g2) \<Longrightarrow> g1 \<noteq> [] \<and> g2 \<noteq> [] \<and> list_all isDigit g1 \<and> list_all isDigit g2"
proof (induction s)
  case Nil
  then show ?case by simp
next
  case (Cons c cs)
  have tw: "list_all isDigit (takeWhile isDigit xs)" for xs
    by (induction xs) auto
  from Cons show ?case
    by (auto simp: Let_def tw split: if_splits)
qed

lemma parseInt_digits:
  "ds \<noteq> [] \<Longrightarrow> list_all isDigit ds \<Longrightarrow> parseInt ds = Num (numberValue (digitsVal ds))"
proof -
  assume ne: "ds \<noteq> []" and all: "list_all isDigit ds"
  then obtain d rest where ds: "ds = d # rest"
    by (cases ds) auto
  from all ds have d: "isDigit d"
    by simp
  then have nw: "\<not> isWhiteSpace d" and nm: "d \<noteq> CHR ''-''" and np: "d \<noteq> CHR ''+''"
    by (auto simp: isDigit_def isWhiteSpace_def)
  have tw: "takeWhile isDigit ds = ds"
    using all by (induction ds) auto
  show ?thesis
    using nw nm np tw ds by (simp add: parseInt_def startsWith_def Let_def)
qed

text \<open>The height the table gives for a width, 480 for a width it does not list.\<close>

lemma heightMap_lookup:
  "(case map_of heightMap n of None \<Rightarrow> 480 | Some k \<Rightarrow> if k = 0 then 480 else k)
     = (if n = 640 then 480 else if n = 800 then 600 else if n = 1024 then 768
        else if n = 1152 then 864 else if n = 1280 then 960 else if n = 1600 then 1200
        else 480)"
  by (simp add: heightMap_def)

lemma parse9xResolution_match:
  assumes m: "match9xRes s = Some (g1, g2)"
  shows "parse9xResolution s =
          \<lparr>width = Num (numberValue (digitsVal g1)),
           height = (if numberValue (digitsVal g1) = 640 then 480
                     else if numberValue (digitsVal g1) = 800 then 600
                     else if numberValue (digitsVal g1) = 1024 then 768
                     else if numberValue (digitsVal g1) = 1152 then 864
                     else if numberValue (digitsVal g1) = 1280 then 960
                     else if numberValue (digitsVal g1) = 1600 then 1200
                     else 480),
           bitsPerPixel = Num (numberValue (digitsVal g2))\<rparr>"
proof -
  from match9xRes_groups [OF m]
  have g: "g1 \<noteq> []" "g2 \<noteq> []" "list_all isDigit g1" "list_all isDigit g2"
    by simp_all
  have p1: "parseInt g1 = Num (numberValue (digitsVal g1))"
    and p2: "parseInt g2 = Num (numberValue (digitsVal g2))"
    using g by (simp_all add: parseInt_digits)
  show ?thesis
    using m g(1,2) by (simp add: parse9xResolution_def p1 p2 Let_def heightMap_lookup)
qed

text \<open>
  C9, as stated, fails for the strings that are not of the form
  \<open>{width}x{bitsPerPixel}\<close> but hold it: the code searches the string for the pattern.
  \<open>"res=1024x32;"\<close> is not of that form and the result is
  \<open>{width: 1024, height: 768, bitsPerPixel: 32}\<close>, not the default.
\<close>

theorem C9_embedded_pattern_counterexample:
  "\<not> specResolutionForm ''res=1024x32;''
   \<and> parse9xResolution ''res=1024x32;''
       = \<lparr>width = Num 1024, height = 768, bitsPerPixel = Num 32\<rparr>
   \<and> parse9xResolution ''res=1024x32;''
       \<noteq> \<lparr>width = Num 640, height = 480, bitsPerPixel = Num 8\<rparr>"
proof -
  have a: "\<not> specResolutionForm ''res=1024x32;''"
    by code_simp
  have b: "parse9xResolution ''res=1024x32;''
       = \<lparr>width = Num 1024, height = 768, bitsPerPixel = Num 32\<rparr>"
    by code_simp
  from a b show ?thesis
    by simp
qed

text \<open>
  C9, amended: \<open>parse9xResolution("800x16")\<close> is
  \<open>{width: 800, height: 600, bitsPerPixel: 16}\<close>. The string is searched for the
  leftmost place where a run of digits, an \<open>x\<close> and a run of digits follow each other.
  Where there is one, the width and the bits per pixel are the numbers \<open>parseInt\<close>
  reads from the two runs, which are their decimal values below \<open>2^53\<close> and the
  nearest double above (\<open>"9007199254740993x8"\<close> has the width 9007199254740992), and
  the height follows the table 640:480, 800:600, 1024:768, 1152:864, 1280:960,
  1600:1200, with 480 for any other width; so \<open>"1x2 800x16"\<close> gives
  \<open>{width: 1, height: 480, bitsPerPixel: 2}\<close>. Every string that holds a digit, an
  \<open>x\<close> and a digit in a row has such a place. For every string that holds none,
  \<open>"garbage"\<close> among them, the result is the default
  \<open>{width: 640, height: 480, bitsPerPixel: 8}\<close>. No branch raises.
\<close>

theorem C9_resolution_derivation:
  "parse9xResolution ''800x16'' = \<lparr>width = Num 800, height = 600, bitsPerPixel = Num 16\<rparr>
   \<and> parse9xResolution ''garbage'' = \<lparr>width = Num 640, height = 480, bitsPerPixel = Num 8\<rparr>
   \<and> parse9xResolution ''1x2 800x16'' = \<lparr>width = Num 1, height = 480, bitsPerPixel = Num 2\<rparr>
   \<and> parse9xResolution ''9007199254740993x8''
       = \<lparr>width = Num 9007199254740992, height = 480, bitsPerPixel = Num 8\<rparr>
   \<and> (match9xRes s = Some (g1, g2) \<longrightarrow>
        parse9xResolution s =
          \<lparr>width = Num (numberValue (digitsVal g1)),
           height = (if numberValue (digitsVal g1) = 640 then 480
                     else if numberValue (digitsVal g1) = 800 then 600
                     else if numberValue (digitsVal g1) = 1024 then 768
                     else if numberValue (digitsVal g1) = 1152 then 864
                     else if numberValue (digitsVal g1) = 1280 then 960
                     else if numberValue (digitsVal g1) = 1600 then 1200
                     else 480),
           bitsPerPixel = Num (numberValue (digitsVal g2))\<rparr>)
   \<and> (match9xRes s = Some (g1, g2) \<and> digitsVal g1 < 2 ^ 53 \<and> digitsVal g2 < 2 ^ 53 \<longrightarrow>
        parse9xResolution s =
          \<lparr>width = Num (digitsVal g1),
           height = (if digitsVal g1 = 640 then 480 else if digitsVal g1 = 800 then 600
                     else if digitsVal g1 = 1024 then 768 else if digitsVal g1 = 1152 then 864
                     else if digitsVal g1 = 1280 then 960 else if digitsVal g1 = 1600 then 1200
                     else 480),
           bitsPerPixel = Num (digitsVal g2)\<rparr>)
   \<and> (isDigit d1 \<and> isDigit d2 \<longrightarrow>
        (\<exists>g1 g2. match9xRes (pre @ d1 # CHR ''x'' # d2 # post) = Some (g1, g2)))
   \<and> ((\<nexists>pre d1 d2 post. s = pre @ d1 # CHR ''x'' # d2 # post \<and> isDigit d1 \<and> isDigit d2)
        \<longrightarrow> parse9xResolution s = \<lparr>width = Num 640, height = 480, bitsPerPixel = Num 8\<rparr>)"
proof -
  have a: "parse9xResolution ''800x16'' = \<lparr>width = Num 800, height = 600, bitsPerPixel = Num 16\<rparr>"
    by code_simp
  have b: "parse9xResolution ''garbage'' = \<lparr>width = Num 640, height = 480, bitsPerPixel = Num 8\<rparr>"
    by code_simp
  have b1: "parse9xResolution ''1x2 800x16''
      = \<lparr>width = Num 1, height = 480, bitsPerPixel = Num 2\<rparr>"
    by code_simp
  have b2: "parse9xResolution ''9007199254740993x8''
       = \<lparr>width = Num 9007199254740992, height = 480, bitsPerPixel = Num 8\<rparr>"
    by code_simp
  have c: "parse9xResolution s =
          \<lparr>width = Num (numberValue (digitsVal g1)),
           height = (if numberValue (digitsVal g1) = 640 then 480
                     else if numberValue (digitsVal g1) = 800 then 600
                     else if numberValue (digitsVal g1) = 1024 then 768
                     else if numberValue (digitsVal g1) = 1152 then 864
                     else if numberValue (digitsVal g1) = 1280 then 960
                     else if numberValue (digitsVal g1) = 1600 then 1200
                     else 480),
           bitsPerPixel = Num (numberValue (digitsVal g2))\<rparr>"
    if "match9xRes s = Some (g1, g2)"
    using that by (rule parse9xResolution_match)
  have c2: "parse9xResolution s =
          \<lparr>width = Num (digitsVal g1),
           height = (if digitsVal g1 = 640 then 480 else if digitsVal g1 = 800 then 600
                     else if digitsVal g1 = 1024 then 768 else if digitsVal g1 = 1152 then 864
                     else if digitsVal g1 = 1280 then 960 else if digitsVal g1 = 1600 then 1200
                     else 480),
           bitsPerPixel = Num (digitsVal g2)\<rparr>"
    if m: "match9xRes s = Some (g1, g2)" and s1: "digitsVal g1 < 2 ^ 53"
      and s2: "digitsVal g2 < 2 ^ 53"
  proof -
    from match9xRes_groups [OF m] have "0 \<le> digitsVal g1" "0 \<le> digitsVal g2"
      by (simp_all add: digitsVal_nonneg)
    with s1 s2 have "numberValue (digitsVal g1) = digitsVal g1"
      "numberValue (digitsVal g2) = digitsVal g2"
      by (simp_all add: numberValue_exact)
    with parse9xResolution_match [OF m] show ?thesis
      by simp
  qed
  have f: "\<exists>g1 g2. match9xRes (pre @ d1 # CHR ''x'' # d2 # post) = Some (g1, g2)"
    if "isDigit d1" "isDigit d2"
    using match9xRes_found [OF that, of pre post] by auto
  have d: "parse9xResolution s = \<lparr>width = Num 640, height = 480, bitsPerPixel = Num 8\<rparr>"
    if n: "\<nexists>pre d1 d2 post. s = pre @ d1 # CHR ''x'' # d2 # post \<and> isDigit d1 \<and> isDigit d2"
  proof -
    have "match9xRes s = None"
    proof (cases "match9xRes s")
      case None
      then show ?thesis .
    next
      case (Some g)
      then have "match9xRes s = Some (fst g, snd g)"
        by simp
      from match9xRes_Some [OF this] n show ?thesis
        by blast
    qed
    then show ?thesis
      by (simp add: parse9xResolution_def defaultResolution_def)
  qed
  from a b b1 b2 c c2 f d show ?thesis
    by blast
qed

theorem C9_resolution_derivation_witness:
  "match9xRes ''res=1024x32;'' = Some (''1024'', ''32'')
   \<and> digitsVal ''1024'' < 2 ^ 53 \<and> digitsVal ''32'' < 2 ^ 53
   \<and> parse9xResolution ''res=1024x32;''
       = \<lparr>width = Num 1024, height = 768, bitsPerPixel = Num 32\<rparr>
   \<and> isDigit CHR ''0'' \<and> isDigit CHR ''8''
   \<and> (\<exists>g1 g2. match9xRes (''64'' @ CHR ''0'' # CHR ''x'' # CHR ''8'' # ''bpp'') = Some (g1, g2))
   \<and> (\<nexists>pre d1 d2 post. ''640 x 8'' = pre @ d1 # CHR ''x'' # d2 # post \<and> isDigit d1 \<and> isDigit d2)
   \<and> parse9xResolution ''640 x 8'' = \<lparr>width = Num 640, height = 480, bitsPerPixel = Num 8\<rparr>"
proof -
  have m: "match9xRes ''res=1024x32;'' = Some (''1024'', ''32'')"
    by code_simp
  have v1: "digitsVal ''1024'' = 1024" and v2: "digitsVal ''32'' = 32"
    by code_simp+
  have s1: "digitsVal ''1024'' < 2 ^ 53" and s2: "digitsVal ''32'' < 2 ^ 53"
    unfolding v1 v2 by simp_all
  have dg: "isDigit CHR ''0''" "isDigit CHR ''8''"
    by (simp_all add: isDigit_def)
  have n0: "match9xRes ''640 x 8'' = None"
    by code_simp
  have n: "\<nexists>pre d1 d2 post. ''640 x 8'' = pre @ d1 # CHR ''x'' # d2 # post \<and> isDigit d1 \<and> isDigit d2"
  proof
    assume "\<exists>pre d1 d2 post. ''640 x 8'' = pre @ d1 # CHR ''x'' # d2 # post \<and> isDigit d1 \<and> isDigit d2"
    then obtain pre d1 d2 post
      where "''640 x 8'' = pre @ d1 # CHR ''x'' # d2 # post" "isDigit d1" "isDigit d2"
      by blast
    with match9xRes_found [of d1 d2 pre post] n0 show False
      by simp
  qed
  have all: "(match9xRes ''res=1024x32;'' = Some (''1024'', ''32'')
        \<and> digitsVal ''1024'' < 2 ^ 53 \<and> digitsVal ''32'' < 2 ^ 53 \<longrightarrow>
        parse9xResolution ''res=1024x32;'' =
          \<lparr>width = Num (digitsVal ''1024''),
           height = (if digitsVal ''1024'' = 640 then 480 else if digitsVal ''1024'' = 800 then 600
                     else if digitsVal ''1024'' = 1024 then 768 else if digitsVal ''1024'' = 1152 then 864
                     else if digitsVal ''1024'' = 1280 then 960 else if digitsVal ''1024'' = 1600 then 1200
                     else 480),
           bitsPerPixel = Num (digitsVal ''32'')\<rparr>)
     \<and> (isDigit CHR ''0'' \<and> isDigit CHR ''8'' \<longrightarrow>
        (\<exists>g1 g2. match9xRes (''64'' @ CHR ''0'' # CHR ''x'' # CHR ''8'' # ''bpp'') = Some (g1, g2)))"
    using C9_resolution_derivation
      [of "''res=1024x32;''" "''1024''" "''32''" "CHR ''0''" "CHR ''8''" "''64''" "''bpp''"]
    by blast
  from all m s1 s2
  have r1: "parse9xResolution ''res=1024x32;''
       = \<lparr>width = Num 1024, height = 768, bitsPerPixel = Num 32\<rparr>"
    unfolding v1 v2 by simp
  from all dg
  have r3: "\<exists>g1 g2. match9xRes (''64'' @ CHR ''0'' # CHR ''x'' # CHR ''8'' # ''bpp'') = Some (g1, g2)"
    by blast
  from C9_resolution_derivation [of "''640 x 8''"] n
  have r2: "parse9xResolution ''640 x 8'' = \<lparr>width = Num 640, height = 480, bitsPerPixel = Num 8\<rparr>"
    by blast
  from m s1 s2 r1 dg r3 n r2 show ?thesis
    by blast
qed

subsection \<open>C10: a Win9x volume of zero\<close>

text \<open>
  C10, as stated, fails: the loop assigns at every volume entry, so a later entry of the
  same slot replaces the default an earlier \<open>"0"\<close> gave. The list (1, 6, "0"),
  (1, 6, "100") holds a master volume entry with value \<open>"0"\<close> and the master volume
  returned is 100, not 255.
\<close>

theorem C10_later_entry_counterexample:
  "master (volumes (extractWin9xSettings
      [\<lparr>e_section = 1, e_item = 6, e_value = ''0''\<rparr>,
       \<lparr>e_section = 1, e_item = 6, e_value = ''100''\<rparr>] False)) = 100
   \<and> master (volumes (extractWin9xSettings
      [\<lparr>e_section = 1, e_item = 6, e_value = ''0''\<rparr>,
       \<lparr>e_section = 1, e_item = 6, e_value = ''100''\<rparr>] False)) \<noteq> 255"
  by code_simp

text \<open>
  C10, amended: for each volume slot (section 1, item 6 master, 7 wave, 8 midi, 9 cd)
  the last entry of the slot decides: when its value parses to \<open>NaN\<close> or to 0 the
  volume is the built-in default (255, and 128 for cd), otherwise it is the parsed
  number; with no entry of the slot it is the default. Hence no entry list gives a
  volume of 0, under either schema. \<open>extractWin9xDisplaySettings\<close> does the same with
  the one value its map holds for \<open>win9x_9xmaster\<close>, \<open>win9x_9xwave\<close>,
  \<open>win9x_9xmidi\<close> and \<open>win9x_9xcd\<close>.
\<close>

theorem C10_zero_volume_is_default:
  "master (volumes (extractWin9xSettings es isLegacy)) =
     (case rev (filter (\<lambda>e. e_section e = 1 \<and> e_item e = 6) es) of
        [] \<Rightarrow> 255
      | e # _ \<Rightarrow> (case parseInt (e_value e) of NaN \<Rightarrow> 255 | Num k \<Rightarrow> if k = 0 then 255 else k))
   \<and> wave (volumes (extractWin9xSettings es isLegacy)) =
     (case rev (filter (\<lambda>e. e_section e = 1 \<and> e_item e = 7) es) of
        [] \<Rightarrow> 255
      | e # _ \<Rightarrow> (case parseInt (e_value e) of NaN \<Rightarrow> 255 | Num k \<Rightarrow> if k = 0 then 255 else k))
   \<and> midi (volumes (extractWin9xSettings es isLegacy)) =
     (case rev (filter (\<lambda>e. e_section e = 1 \<and> e_item e = 8) es) of
        [] \<Rightarrow> 255
      | e # _ \<Rightarrow> (case parseInt (e_value e) of NaN \<Rightarrow> 255 | Num k \<Rightarrow> if k = 0 then 255 else k))
   \<and> cd (volumes (extractWin9xSettings es isLegacy)) =
     (case rev (filter (\<lambda>e. e_section e = 1 \<and> e_item e = 9) es) of
        [] \<Rightarrow> 128
      | e # _ \<Rightarrow> (case parseInt (e_value e) of NaN \<Rightarrow> 128 | Num k \<Rightarrow> if k = 0 then 128 else k))
   \<and> master (volumes (extractWin9xSettings es isLegacy)) \<noteq> 0
   \<and> wave (volumes (extractWin9xSettings es isLegacy)) \<noteq> 0
   \<and> midi (volumes (extractWin9xSettings es isLegacy)) \<noteq> 0
   \<and> cd (volumes (extractWin9xSettings es isLegacy)) \<noteq> 0
   \<and> master (volumes (extractWin9xDisplaySettings vals)) =
     (case vals ''win9x_9xmaster'' of
        None \<Rightarrow> 255
      | Some s \<Rightarrow> if s = [] then 255
                  else (case parseInt s of NaN \<Rightarrow> 255 | Num k \<Rightarrow> if k = 0 then 255 else k))
   \<and> wave (volumes (extractWin9xDisplaySettings vals)) =
     (case vals ''win9x_9xwave'' of
        None \<Rightarrow> 255
      | Some s \<Rightarrow> if s = [] then 255
                  else (case parseInt s of NaN \<Rightarrow> 255 | Num k \<Rightarrow> if k = 0 then 255 else k))
   \<and> midi (volumes (extractWin9xDisplaySettings vals)) =
     (case vals ''win9x_9xmidi'' of
        None \<Rightarrow> 255
      | Some s \<Rightarrow> if s = [] then 255
                  else (case parseInt s of NaN \<Rightarrow> 255 | Num k \<Rightarrow> if k = 0 then 255 else k))
   \<and> cd (volumes (extractWin9xDisplaySettings vals)) =
     (case vals ''win9x_9xcd'' of
        None \<Rightarrow> 128
      | Some s \<Rightarrow> if s = [] then 128
                  else (case parseInt s of NaN \<Rightarrow> 128 | Num k \<Rightarrow> if k = 0 then 128 else k))"
proof -
  have od: "orDefault n d = (case n of NaN \<Rightarrow> d | Num k \<Rightarrow> if k = 0 then d else k)" for n d
    by (simp add: orDefault_def)
  have nz: "(case xs of [] \<Rightarrow> d | e # _ \<Rightarrow> orDefault (parseInt (e_value e)) d) \<noteq> 0"
    if "d \<noteq> 0" for xs :: "EditConfEntry list" and d
    using that by (cases xs) (simp_all add: orDefault_nonzero)
  have m: "master (volumes (extractWin9xSettings es isLegacy)) \<noteq> 0"
    by (simp only: volume_extract) (rule nz, simp)
  have w: "wave (volumes (extractWin9xSettings es isLegacy)) \<noteq> 0"
    by (simp only: volume_extract) (rule nz, simp)
  have mi: "midi (volumes (extractWin9xSettings es isLegacy)) \<noteq> 0"
    by (simp only: volume_extract) (rule nz, simp)
  have c: "cd (volumes (extractWin9xSettings es isLegacy)) \<noteq> 0"
    by (simp only: volume_extract) (rule nz, simp)
  have keep_m: "master (volumes (whenSet x assign st)) = master (volumes st)"
    if "\<And>s st. master (volumes (assign s st)) = master (volumes st)"
    for x assign and st :: Win9xSettings
    using that by (simp add: whenSet_def split: option.splits)
  have keep_w: "wave (volumes (whenSet x assign st)) = wave (volumes st)"
    if "\<And>s st. wave (volumes (assign s st)) = wave (volumes st)"
    for x assign and st :: Win9xSettings
    using that by (simp add: whenSet_def split: option.splits)
  have keep_mi: "midi (volumes (whenSet x assign st)) = midi (volumes st)"
    if "\<And>s st. midi (volumes (assign s st)) = midi (volumes st)"
    for x assign and st :: Win9xSettings
    using that by (simp add: whenSet_def split: option.splits)
  have keep_c: "cd (volumes (whenSet x assign st)) = cd (volumes st)"
    if "\<And>s st. cd (volumes (assign s st)) = cd (volumes st)"
    for x assign and st :: Win9xSettings
    using that by (simp add: whenSet_def split: option.splits)
  have hit_m: "master (volumes (whenSet x (\<lambda>v st. st\<lparr>volumes := (volumes st)\<lparr>master := h v\<rparr>\<rparr>) st)) =
      (case x of None \<Rightarrow> master (volumes st)
       | Some s \<Rightarrow> if s = [] then master (volumes st) else h s)"
    for x h and st :: Win9xSettings
    by (simp add: whenSet_def split: option.splits)
  have hit_w: "wave (volumes (whenSet x (\<lambda>v st. st\<lparr>volumes := (volumes st)\<lparr>wave := h v\<rparr>\<rparr>) st)) =
      (case x of None \<Rightarrow> wave (volumes st)
       | Some s \<Rightarrow> if s = [] then wave (volumes st) else h s)"
    for x h and st :: Win9xSettings
    by (simp add: whenSet_def split: option.splits)
  have hit_mi: "midi (volumes (whenSet x (\<lambda>v st. st\<lparr>volumes := (volumes st)\<lparr>midi := h v\<rparr>\<rparr>) st)) =
      (case x of None \<Rightarrow> midi (volumes st)
       | Some s \<Rightarrow> if s = [] then midi (volumes st) else h s)"
    for x h and st :: Win9xSettings
    by (simp add: whenSet_def split: option.splits)
  have hit_c: "cd (volumes (whenSet x (\<lambda>v st. st\<lparr>volumes := (volumes st)\<lparr>cd := h v\<rparr>\<rparr>) st)) =
      (case x of None \<Rightarrow> cd (volumes st)
       | Some s \<Rightarrow> if s = [] then cd (volumes st) else h s)"
    for x h and st :: Win9xSettings
    by (simp add: whenSet_def split: option.splits)
  have dm: "master (volumes (extractWin9xDisplaySettings vals)) =
     (case vals ''win9x_9xmaster'' of
        None \<Rightarrow> 255
      | Some s \<Rightarrow> if s = [] then 255 else orDefault (parseInt s) 255)"
    unfolding extractWin9xDisplaySettings_def Let_def
    by (simp add: keep_m hit_m win9xDefaults_def split: option.splits)
  have dw: "wave (volumes (extractWin9xDisplaySettings vals)) =
     (case vals ''win9x_9xwave'' of
        None \<Rightarrow> 255
      | Some s \<Rightarrow> if s = [] then 255 else orDefault (parseInt s) 255)"
    unfolding extractWin9xDisplaySettings_def Let_def
    by (simp add: keep_w hit_w win9xDefaults_def split: option.splits)
  have dmi: "midi (volumes (extractWin9xDisplaySettings vals)) =
     (case vals ''win9x_9xmidi'' of
        None \<Rightarrow> 255
      | Some s \<Rightarrow> if s = [] then 255 else orDefault (parseInt s) 255)"
    unfolding extractWin9xDisplaySettings_def Let_def
    by (simp add: keep_mi hit_mi win9xDefaults_def split: option.splits)
  have dc: "cd (volumes (extractWin9xDisplaySettings vals)) =
     (case vals ''win9x_9xcd'' of
        None \<Rightarrow> 128
      | Some s \<Rightarrow> if s = [] then 128 else orDefault (parseInt s) 128)"
    unfolding extractWin9xDisplaySettings_def Let_def
    by (simp add: keep_c hit_c win9xDefaults_def split: option.splits)
  show ?thesis
    using m w mi c by (simp only: volume_extract dm dw dmi dc od) simp
qed

end
